theory Spec2Isabelle
  imports Main "HOL-Library.List_Lexorder" "HOL-Library.Char_ord"
begin

section \<open>Errors\<close>

text \<open>
  Every exception of the Python source is a value. \<open>RuntimeError\<close> is the one the poller
  raises itself; \<open>DatabaseError\<close> is what the database interface raises; \<open>ExternalError\<close>
  is anything raised inside a collaborator that is called by the poller.
\<close>

datatype error = RuntimeError string | DatabaseError string | ExternalError string

section \<open>GetAvailableRepackMergeFiles\<close>

subsection \<open>The tables the query reads\<close>

text \<open>
  One record per table, holding the columns the query mentions. All of these columns are
  keys or foreign keys of the WMBS and T0AST schemas and hold no NULL, so a column is a
  plain value.
\<close>

record sub_files_available_row =
  sfa_subscription :: int
  sfa_fileid :: int

record file_runlumi_map_row =
  rlm_fileid :: int
  rlm_run :: int
  rlm_lumi :: int

record file_details_row =
  fd_id :: int
  fd_filesize :: int
  fd_events :: int
  fd_lfn :: string

record file_location_row =
  fl_fileid :: int
  fl_location :: int

record location_row =
  loc_id :: int
  loc_se_name :: string

record subscription_row =
  sub_id :: int
  sub_fileset :: int
  sub_workflow :: int

record workflow_output_row =
  wo_workflow_id :: int
  wo_output_fileset :: int

record run_stream_fileset_assoc_row =
  rsfa_run_id :: int
  rsfa_stream_id :: int
  rsfa_fileset :: int

record lumi_section_split_active_row =
  lssa_run_id :: int
  lssa_lumi_id :: int
  lssa_stream_id :: int

record database =
  wmbs_sub_files_available :: "sub_files_available_row list"
  wmbs_file_runlumi_map :: "file_runlumi_map_row list"
  wmbs_file_details :: "file_details_row list"
  wmbs_file_location :: "file_location_row list"
  wmbs_location :: "location_row list"
  wmbs_subscription :: "subscription_row list"
  wmbs_workflow_output :: "workflow_output_row list"
  run_stream_fileset_assoc :: "run_stream_fileset_assoc_row list"
  lumi_section_split_active :: "lumi_section_split_active_row list"

subsection \<open>The query\<close>

text \<open>
  The scalar subquery \<^verbatim>\<open>( SELECT fileset FROM wmbs_subscription WHERE workflow = ... )\<close>:
  NULL when no row matches, the value when one row matches, and the statement fails
  (ORA-01427) when more than one row matches.
\<close>

definition scalar_subquery :: "database \<Rightarrow> int \<Rightarrow> error + int option" where
  "scalar_subquery db workflow =
     (case map sub_fileset (filter (\<lambda>s. sub_workflow s = workflow) (wmbs_subscription db)) of
        [] \<Rightarrow> Inr None
      | [v] \<Rightarrow> Inr (Some v)
      | _ \<Rightarrow> Inl (DatabaseError ''ORA-01427''))"

text \<open>
  A row of the join, reduced to the columns that the remaining clauses read: the selected
  columns, the columns of the later join conditions and of the WHERE clause.
\<close>

record joined_row =
  j_subscription :: int
  j_fileid :: int
  j_filesize :: int
  j_events :: int
  j_lfn :: string
  j_se_name :: string
  j_run :: int
  j_lumi :: int
  j_workflow_id :: int

text \<open>The six inner joins up to \<^verbatim>\<open>wmbs_workflow_output\<close>, in the order of the FROM clause.\<close>

definition inner_joins :: "database \<Rightarrow> joined_row list" where
  "inner_joins db =
     [\<lparr>j_subscription = sfa_subscription a, j_fileid = sfa_fileid a,
       j_filesize = fd_filesize d, j_events = fd_events d, j_lfn = fd_lfn d,
       j_se_name = loc_se_name l, j_run = rlm_run rl, j_lumi = rlm_lumi rl,
       j_workflow_id = wo_workflow_id wo\<rparr>.
        a \<leftarrow> wmbs_sub_files_available db,
        rl \<leftarrow> wmbs_file_runlumi_map db, rlm_fileid rl = sfa_fileid a,
        d \<leftarrow> wmbs_file_details db, fd_id d = sfa_fileid a,
        fl \<leftarrow> wmbs_file_location db, fl_fileid fl = sfa_fileid a,
        l \<leftarrow> wmbs_location db, loc_id l = fl_location fl,
        s \<leftarrow> wmbs_subscription db, sub_id s = sfa_subscription a,
        wo \<leftarrow> wmbs_workflow_output db, wo_output_fileset wo = sub_fileset s]"

text \<open>
  The join with \<^verbatim>\<open>run_stream_fileset_assoc\<close> for one row: the subquery is evaluated for the
  row's workflow; a NULL never equals a fileset, so the row then joins with nothing.
  The result pairs the row with the stream of each association it joins.
\<close>

definition join_run_stream :: "database \<Rightarrow> joined_row \<Rightarrow> error + (joined_row \<times> int) list" where
  "join_run_stream db j =
     (case scalar_subquery db (j_workflow_id j) of
        Inl e \<Rightarrow> Inl e
      | Inr None \<Rightarrow> Inr []
      | Inr (Some fs) \<Rightarrow>
          Inr [(j, rsfa_stream_id r). r \<leftarrow> run_stream_fileset_assoc db,
                 rsfa_run_id r = j_run j \<and> rsfa_fileset r = fs])"

text \<open>Runs a fallible step over every row and fails with the first failure.\<close>

fun collect :: "('a \<Rightarrow> error + 'b list) \<Rightarrow> 'a list \<Rightarrow> error + 'b list" where
  "collect f [] = Inr []"
| "collect f (x # xs) =
     (case f x of
        Inl e \<Rightarrow> Inl e
      | Inr ys \<Rightarrow> (case collect f xs of Inl e \<Rightarrow> Inl e | Inr zs \<Rightarrow> Inr (ys @ zs)))"

text \<open>
  The LEFT OUTER JOIN with \<^verbatim>\<open>lumi_section_split_active\<close> for one row: one output row per
  matching lock, or a single row with the lock columns NULL (\<open>None\<close>) when none matches.
\<close>

definition left_outer_join_split_active ::
    "database \<Rightarrow> joined_row \<times> int \<Rightarrow> (joined_row \<times> int \<times> lumi_section_split_active_row option) list" where
  "left_outer_join_split_active db js =
     (case filter (\<lambda>k. lssa_run_id k = j_run (fst js) \<and> lssa_lumi_id k = j_lumi (fst js) \<and>
                       lssa_stream_id k = snd js) (lumi_section_split_active db) of
        [] \<Rightarrow> [(fst js, snd js, None)]
      | ks \<Rightarrow> [(fst js, snd js, Some k). k \<leftarrow> ks])"

definition from_clause ::
    "database \<Rightarrow> error + (joined_row \<times> int \<times> lumi_section_split_active_row option) list" where
  "from_clause db =
     (case collect (join_run_stream db) (inner_joins db) of
        Inl e \<Rightarrow> Inl e
      | Inr js \<Rightarrow> Inr (concat (map (left_outer_join_split_active db) js)))"

text \<open>
  \<^verbatim>\<open>WHERE wmbs_sub_files_available.subscription = :subscription
  AND lumi_section_split_active.run_id IS NULL\<close>
\<close>

definition where_clause ::
    "int \<Rightarrow> (joined_row \<times> int \<times> lumi_section_split_active_row option) list \<Rightarrow> joined_row list" where
  "where_clause subscription rows =
     [j. (j, st, k) \<leftarrow> rows, j_subscription j = subscription \<and> k = None]"

text \<open>The aggregates: NULL (\<open>None\<close>) over no rows.\<close>

fun sql_MIN :: "int list \<Rightarrow> int option" where
  "sql_MIN [] = None"
| "sql_MIN (x # xs) = Some (fold min xs x)"

fun sql_MAX :: "int list \<Rightarrow> int option" where
  "sql_MAX [] = None"
| "sql_MAX (x # xs) = Some (fold max xs x)"

record result_row =
  r_id :: int
  r_filesize :: int
  r_events :: int
  r_lfn :: string
  r_location :: string
  r_first_lumi :: "int option"
  r_last_lumi :: "int option"

definition group_key :: "joined_row \<Rightarrow> int \<times> int \<times> int \<times> string \<times> string" where
  "group_key j = (j_fileid j, j_filesize j, j_events j, j_lfn j, j_se_name j)"

definition group_by :: "joined_row list \<Rightarrow> result_row list" where
  "group_by rows =
     [(case k of (f, sz, ev, lfn, se) \<Rightarrow>
         \<lparr>r_id = f, r_filesize = sz, r_events = ev, r_lfn = lfn, r_location = se,
          r_first_lumi = sql_MIN [j_lumi j. j \<leftarrow> rows, group_key j = k],
          r_last_lumi = sql_MAX [j_lumi j. j \<leftarrow> rows, group_key j = k]\<rparr>).
        k \<leftarrow> remdups (map group_key rows)]"

text \<open>
  \<open>execute\<close>: the rows of the statement for one subscription, as \<open>formatDict\<close> returns them
  (a list of dictionaries with the seven selected columns), or the error of the statement.
\<close>

definition execute :: "database \<Rightarrow> int \<Rightarrow> error + result_row list" where
  "execute db subscription =
     (case from_clause db of
        Inl e \<Rightarrow> Inl e
      | Inr rows \<Rightarrow> Inr (group_by (where_clause subscription rows)))"


subsection \<open>The notions the properties of the query are stated with\<close>

text \<open>A file is marked available for a subscription: a row of \<^verbatim>\<open>wmbs_sub_files_available\<close>.\<close>

definition marked_available :: "database \<Rightarrow> int \<Rightarrow> int \<Rightarrow> bool" where
  "marked_available db subscription f =
     (\<exists>a \<in> set (wmbs_sub_files_available db). sfa_subscription a = subscription \<and> sfa_fileid a = f)"

text \<open>The lumi associations (run, lumi) of a file: its rows of \<^verbatim>\<open>wmbs_file_runlumi_map\<close>.\<close>

definition lumi_associations :: "database \<Rightarrow> int \<Rightarrow> (int \<times> int) list" where
  "lumi_associations db f =
     [(rlm_run rl, rlm_lumi rl). rl \<leftarrow> wmbs_file_runlumi_map db, rlm_fileid rl = f]"

text \<open>
  The streams that own the fileset of a subscription for a run: the fileset is an output of
  a workflow, and the fileset which the subscription of that workflow reads is associated
  with the run and the stream in \<^verbatim>\<open>run_stream_fileset_assoc\<close>.
\<close>

definition owning_streams :: "database \<Rightarrow> int \<Rightarrow> int \<Rightarrow> int list" where
  "owning_streams db subscription run =
     [rsfa_stream_id r.
        s \<leftarrow> wmbs_subscription db, sub_id s = subscription,
        wo \<leftarrow> wmbs_workflow_output db, wo_output_fileset wo = sub_fileset s,
        r \<leftarrow> run_stream_fileset_assoc db,
        rsfa_run_id r = run \<and> scalar_subquery db (wo_workflow_id wo) = Inr (Some (rsfa_fileset r))]"

text \<open>An active split lock (run, lumi, stream): a row of \<^verbatim>\<open>lumi_section_split_active\<close>.\<close>

definition split_lock_active :: "database \<Rightarrow> int \<Rightarrow> int \<Rightarrow> int \<Rightarrow> bool" where
  "split_lock_active db run lumi st =
     (\<exists>k \<in> set (lumi_section_split_active db).
        lssa_run_id k = run \<and> lssa_lumi_id k = lumi \<and> lssa_stream_id k = st)"

text \<open>
  The lumis of the associations of a file that hold no active split lock for a stream
  owning the fileset of the subscription.
\<close>

definition kept_lumis :: "database \<Rightarrow> int \<Rightarrow> int \<Rightarrow> int list" where
  "kept_lumis db subscription f =
     [lumi. (run, lumi) \<leftarrow> lumi_associations db f,
            st \<leftarrow> owning_streams db subscription run,
            \<not> split_lock_active db run lumi st]"

text \<open>A row of the join that passes the WHERE clause for the subscription.\<close>

definition kept :: "database \<Rightarrow> int \<Rightarrow> joined_row \<Rightarrow> bool" where
  "kept db subscription j \<longleftrightarrow>
     j \<in> set (inner_joins db) \<and> j_subscription j = subscription \<and>
     (\<exists>fs r. scalar_subquery db (j_workflow_id j) = Inr (Some fs) \<and>
        r \<in> set (run_stream_fileset_assoc db) \<and> rsfa_run_id r = j_run j \<and>
        rsfa_fileset r = fs \<and> \<not> split_lock_active db (j_run j) (j_lumi j) (rsfa_stream_id r))"

subsection \<open>Example databases\<close>

text \<open>
  Run 1 and stream 5: the repack workflow 3 reads fileset 30 (subscription 6), which is the
  fileset of run 1 and stream 5, and writes fileset 20; the repack merge subscription 7
  reads fileset 20. File 1 is available for subscription 7, has the lumi associations
  (1, 10) and (1, 11), and lumi 11 of run 1 holds an active split lock for stream 5.
\<close>

definition db_locked_11 :: database where
  "db_locked_11 = \<lparr>
     wmbs_sub_files_available = [\<lparr>sfa_subscription = 7, sfa_fileid = 1\<rparr>],
     wmbs_file_runlumi_map = [\<lparr>rlm_fileid = 1, rlm_run = 1, rlm_lumi = 10\<rparr>,
                              \<lparr>rlm_fileid = 1, rlm_run = 1, rlm_lumi = 11\<rparr>],
     wmbs_file_details = [\<lparr>fd_id = 1, fd_filesize = 100, fd_events = 5, fd_lfn = ''/store/a.dat''\<rparr>],
     wmbs_file_location = [\<lparr>fl_fileid = 1, fl_location = 9\<rparr>],
     wmbs_location = [\<lparr>loc_id = 9, loc_se_name = ''se.cern.ch''\<rparr>],
     wmbs_subscription = [\<lparr>sub_id = 6, sub_fileset = 30, sub_workflow = 3\<rparr>,
                          \<lparr>sub_id = 7, sub_fileset = 20, sub_workflow = 4\<rparr>],
     wmbs_workflow_output = [\<lparr>wo_workflow_id = 3, wo_output_fileset = 20\<rparr>],
     run_stream_fileset_assoc = [\<lparr>rsfa_run_id = 1, rsfa_stream_id = 5, rsfa_fileset = 30\<rparr>],
     lumi_section_split_active = [\<lparr>lssa_run_id = 1, lssa_lumi_id = 11, lssa_stream_id = 5\<rparr>]\<rparr>"

text \<open>The same with the associations (1, 7), (1, 8), (1, 9) and a lock on lumi 7.\<close>

definition db_locked_7 :: database where
  "db_locked_7 = db_locked_11\<lparr>
     wmbs_file_runlumi_map := [\<lparr>rlm_fileid = 1, rlm_run = 1, rlm_lumi = 7\<rparr>,
                               \<lparr>rlm_fileid = 1, rlm_run = 1, rlm_lumi = 8\<rparr>,
                               \<lparr>rlm_fileid = 1, rlm_run = 1, rlm_lumi = 9\<rparr>],
     lumi_section_split_active := [\<lparr>lssa_run_id = 1, lssa_lumi_id = 7, lssa_stream_id = 5\<rparr>]\<rparr>"

text \<open>The same associations with no lock, and a single association (1, 5) with no lock.\<close>

definition db_unlocked :: database where
  "db_unlocked = db_locked_7\<lparr>lumi_section_split_active := []\<rparr>"

definition db_single :: database where
  "db_single = db_unlocked\<lparr>
     wmbs_file_runlumi_map := [\<lparr>rlm_fileid = 1, rlm_run = 1, rlm_lumi = 5\<rparr>]\<rparr>"

text \<open>The row of file 1 in the result, with its lumi range.\<close>

definition row_of_file_1 :: "int option \<Rightarrow> int option \<Rightarrow> result_row" where
  "row_of_file_1 lo hi = \<lparr>r_id = 1, r_filesize = 100, r_events = 5, r_lfn = ''/store/a.dat'',
     r_location = ''se.cern.ch'', r_first_lumi = lo, r_last_lumi = hi\<rparr>"

section \<open>Tier0FeederPoller\<close>

subsection \<open>Python values\<close>

text \<open>
  The values that the poller passes on without looking inside them (bind values, document
  fields, arguments of log messages), and the truth value Python gives each of them.
\<close>

datatype pyval = PNone | PBool bool | PInt int | PStr string

fun truthy :: "pyval \<Rightarrow> bool" where
  "truthy PNone = False"
| "truthy (PBool b) = b"
| "truthy (PInt i) = (i \<noteq> 0)"
| "truthy (PStr s) = (s \<noteq> [])"

text \<open>\<^verbatim>\<open>a or b\<close> is \<^verbatim>\<open>a\<close> when \<^verbatim>\<open>a\<close> is true and \<^verbatim>\<open>b\<close> otherwise.\<close>

definition py_or :: "pyval \<Rightarrow> pyval \<Rightarrow> pyval" where
  "py_or a b = (if truthy a then a else b)"

text \<open>\<^verbatim>\<open>int(b)\<close> of a boolean.\<close>

definition int_of_bool :: "bool \<Rightarrow> int" where
  "int_of_bool b = (if b then 1 else 0)"

text \<open>A dictionary with string keys written as a literal: its items in the order written.\<close>

type_synonym pydict = "(string \<times> pyval) list"

text \<open>\<^verbatim>\<open>os.path.basename\<close>: what follows the last slash.\<close>

definition basename :: "string \<Rightarrow> string" where
  "basename p = rev (takeWhile (\<lambda>c. c \<noteq> CHR ''/'') (rev p))"

text \<open>\<^verbatim>\<open>s.find(sub)\<close>: the lowest index at which \<^verbatim>\<open>sub\<close> starts in \<^verbatim>\<open>s\<close>, or -1.\<close>

fun find_from :: "string \<Rightarrow> string \<Rightarrow> int \<Rightarrow> int" where
  "find_from sub [] i = (if sub = [] then i else - 1)"
| "find_from sub (c # cs) i =
     (if take (length sub) (c # cs) = sub then i else find_from sub cs (i + 1))"

definition find :: "string \<Rightarrow> string \<Rightarrow> int" where
  "find s sub = find_from sub s 0"

subsection \<open>What the collaborators hand over\<close>

text \<open>
  The object \<^verbatim>\<open>loadConfigurationFile\<close> returns; the poller only passes it on to
  \<^verbatim>\<open>RunConfigAPI\<close>.
\<close>

datatype configuration = Configuration string

text \<open>The dictionary of \<^verbatim>\<open>RunConfig.GetHLTConfig\<close> with its keys \<^verbatim>\<open>process\<close> and \<^verbatim>\<open>mapping\<close>.\<close>

record hlt_config =
  process :: "string option"
  mapping :: "(string \<times> (string \<times> string list) list) list"

text \<open>The rows of the five \<^verbatim>\<open>T0DataSvc.Get...\<close> queries, with the columns the poller reads.\<close>

record run_stream_done_row =
  rsd_run :: int
  rsd_stream :: string

record express_config_row =
  ec_run :: int
  ec_stream :: string
  ec_cmssw :: pyval
  ec_scram_arch :: pyval
  ec_reco_cmssw :: pyval
  ec_reco_scram_arch :: pyval
  ec_alca_skim :: pyval
  ec_dqm_seq :: pyval
  ec_global_tag :: string
  ec_scenario :: pyval

record reco_config_row =
  rc_run :: int
  rc_primds :: string
  rc_cmssw :: pyval
  rc_scram_arch :: pyval
  rc_alca_skim :: pyval
  rc_physics_skim :: pyval
  rc_dqm_seq :: pyval
  rc_global_tag :: string
  rc_scenario :: pyval

record reco_release_config_row =
  rr_run :: int
  rr_released :: int

record dataset_locked_row =
  dl_id :: int
  dl_path :: string

subsection \<open>Calls, events and the trace\<close>

text \<open>
  Every call that leaves the poller, with its arguments. The keyword arguments
  \<^verbatim>\<open>transaction = False\<close>, \<^verbatim>\<open>conn\<close> and the database interface handed to
  \<^verbatim>\<open>RunLumiCloseoutAPI\<close> are the same at every call of an operation and are left out.
\<close>

datatype run_config_call =
    ConfigureRun configuration int "hlt_config option"
  | ConfigureRunStream configuration int string string "string option"
  | ReleasePromptReco "configuration option" string "string option"

datatype closeout_call =
    StopRuns
  | CloseRuns
  | CloseLumiSections
  | CloseRunStreamFilesets
  | CheckActiveSplitLumis

datatype feeder_call =
    FindNewRuns
  | FindNewRunStreams
  | FindNewExpressRuns
  | GetExpressReadyRuns "pydict list"
  | ReleaseExpress "pydict list"
  | FeedStreamers
  | MarkWorkflowsInjected bool

datatype monitoring_call =
    GetStreamerWorkflowsForMonitoring
  | GetPromptRecoWorkflowsForMonitoring
  | MarkTrackedWorkflowMonitoring int
  | GetNotClosedOutWorkflows
  | MarkCloseoutWorkflowMonitoring int

datatype notification_call =
    GetFinishedStreamers
  | MarkStreamersFinished "int list"

text \<open>
  The five categories of the Tier0 Data Service and, for each, the query on the primary
  store, the insert into the downstream store and the update of the primary store.
\<close>

datatype category = RunStreamDone | ExpressConfigs | RecoConfigs | RecoReleaseConfigs | DatasetLocked

datatype datasvc_call =
    Get category
  | Insert category "pydict list"
  | Update category "pydict list"

datatype service_call =
    LoadConfigurationFile string
  | GetHLTConfig string
  | TransactionBegin
  | TransactionCommit
  | InsertGenericRequest pydict
  | UpdateRequestStatus string string
  | BashCommunicate string
  | UploadConditions "string option" "string option" "string option"

datatype call =
    RunConfigCall run_config_call
  | CloseoutCall closeout_call
  | FeederCall feeder_call
  | MonitoringCall monitoring_call
  | NotificationCall notification_call
  | DataSvcCall datasvc_call
  | ServiceCall service_call

text \<open>
  What an observer of a cycle sees: a call that returned, a call that raised, and the
  messages of \<^verbatim>\<open>logging.exception\<close> (with the exception it reports) and
  \<^verbatim>\<open>logging.error\<close>, each as the format string and its arguments. The messages of
  \<^verbatim>\<open>logging.debug\<close> and \<^verbatim>\<open>logging.info\<close> are not recorded.
\<close>

datatype event =
    Returned call
  | Raised call error
  | LoggedException string "pyval list" error
  | LoggedError string "pyval list"

text \<open>
  The state of a run of the poller: the world outside it (databases, document store, file
  system, processes), of which nothing is assumed, and the trace of events so far. A
  program returns a value or raises, and leaves a new state.
\<close>

type_synonym 'w state = "'w \<times> event list"

type_synonym ('w, 'a) action = "'w \<Rightarrow> (error + 'a) \<times> 'w"

type_synonym ('w, 'a) prog = "'w state \<Rightarrow> (error + 'a) \<times> 'w state"

definition return :: "'a \<Rightarrow> ('w, 'a) prog" where
  "return x s = (Inr x, s)"

definition raise :: "error \<Rightarrow> ('w, 'a) prog" where
  "raise e s = (Inl e, s)"

definition bind :: "('w, 'a) prog \<Rightarrow> ('a \<Rightarrow> ('w, 'b) prog) \<Rightarrow> ('w, 'b) prog" where
  "bind m k s = (case m s of (Inl e, s') \<Rightarrow> (Inl e, s') | (Inr x, s') \<Rightarrow> k x s')"

text \<open>\<^verbatim>\<open>try: m  except: h\<close>: a bare \<^verbatim>\<open>except\<close> catches every exception.\<close>

definition try_except :: "('w, 'a) prog \<Rightarrow> (error \<Rightarrow> ('w, 'a) prog) \<Rightarrow> ('w, 'a) prog" where
  "try_except m h s = (case m s of (Inl e, s') \<Rightarrow> h e s' | (Inr x, s') \<Rightarrow> (Inr x, s'))"

text \<open>A call of a collaborator: it acts on the world, and the trace records how it ended.\<close>

definition call :: "call \<Rightarrow> ('w, 'a) action \<Rightarrow> ('w, 'a) prog" where
  "call c f s =
     (case f (fst s) of
        (Inl e, w') \<Rightarrow> (Inl e, (w', snd s @ [Raised c e]))
      | (Inr x, w') \<Rightarrow> (Inr x, (w', snd s @ [Returned c])))"

definition logging_exception :: "string \<Rightarrow> pyval list \<Rightarrow> error \<Rightarrow> ('w, unit) prog" where
  "logging_exception msg args e s = (Inr (), (fst s, snd s @ [LoggedException msg args e]))"

definition logging_error :: "string \<Rightarrow> pyval list \<Rightarrow> ('w, unit) prog" where
  "logging_error msg args s = (Inr (), (fst s, snd s @ [LoggedError msg args]))"

text \<open>Statements one after the other, and a \<^verbatim>\<open>for\<close> loop over a list.\<close>

fun seq :: "('w, unit) prog list \<Rightarrow> ('w, unit) prog" where
  "seq [] = return ()"
| "seq (p # ps) = bind p (\<lambda>_. seq ps)"

fun for_each :: "'a list \<Rightarrow> ('a \<Rightarrow> ('w, unit) prog) \<Rightarrow> ('w, unit) prog" where
  "for_each [] body = return ()"
| "for_each (x # xs) body = bind (body x) (\<lambda>_. for_each xs body)"

subsection \<open>The collaborators\<close>

text \<open>
  The operations the poller calls are parameters of the model, grouped as the source
  obtains them. Each is an action on the world that returns a value or raises.
\<close>

record 'w run_config_api =
  configureRun :: "configuration \<Rightarrow> int \<Rightarrow> hlt_config option \<Rightarrow> ('w, unit) action"
  configureRunStream ::
    "configuration \<Rightarrow> int \<Rightarrow> string \<Rightarrow> string \<Rightarrow> string option \<Rightarrow> ('w, unit) action"
  releasePromptReco :: "configuration option \<Rightarrow> string \<Rightarrow> string option \<Rightarrow> ('w, unit) action"

record 'w run_lumi_closeout_api =
  stopRuns :: "('w, unit) action"
  closeRuns :: "('w, unit) action"
  closeLumiSections :: "('w, unit) action"
  closeRunStreamFilesets :: "('w, unit) action"
  checkActiveSplitLumis :: "('w, unit) action"

text \<open>
  The DAOs of \<^verbatim>\<open>Tier0Feeder\<close>. \<open>findNewRuns\<close> returns a dictionary from run to HLT key
  (\<open>None\<close> for a local run) and \<open>findNewRunStreams\<close> a dictionary from run to its
  streams; a dictionary is the list of its items, whose keys are distinct.
  \<open>getExpressReadyRunsDAO\<close> is \<open>None\<close> when no PopConLog database is configured.
\<close>

record 'w tier0_feeder_daos =
  findNewRuns :: "('w, (int \<times> string option) list) action"
  findNewRunStreams :: "('w, (int \<times> string list) list) action"
  findNewExpressRuns :: "('w, pyval list) action"
  getExpressReadyRunsDAO :: "(pydict list \<Rightarrow> ('w, pyval list) action) option"
  releaseExpress :: "pydict list \<Rightarrow> ('w, unit) action"
  feedStreamers :: "('w, unit) action"
  markWorkflowsInjected :: "bool \<Rightarrow> ('w, unit) action"

record 'w monitoring_daos =
  getStreamerWorkflowsForMonitoring :: "('w, (int \<times> int \<times> string) list) action"
  getPromptRecoWorkflowsForMonitoring :: "('w, (int \<times> int \<times> string) list) action"
  markTrackedWorkflowMonitoring :: "int \<Rightarrow> ('w, unit) action"
  getNotClosedOutWorkflows :: "('w, (int \<times> int \<times> string \<times> string) list) action"
  markCloseoutWorkflowMonitoring :: "int \<Rightarrow> ('w, unit) action"

record 'w sm_notification_daos =
  getFinishedStreamers :: "('w, (int \<times> string) list) action"
  markStreamersFinished :: "int list \<Rightarrow> ('w, unit) action"

text \<open>
  The DAOs of \<^verbatim>\<open>T0DataSvc\<close>: the five queries on the primary store, and the two
  factories that give, for the class name of a category, the insert into the downstream
  store (\<^verbatim>\<open>daoFactoryT0DataSvc\<close>) and the update of the primary store (\<^verbatim>\<open>daoFactory\<close>).
\<close>

record 'w t0datasvc_daos =
  getRunStreamDone :: "('w, run_stream_done_row list) action"
  getExpressConfigs :: "('w, express_config_row list) action"
  getRecoConfigs :: "('w, reco_config_row list) action"
  getRecoReleaseConfigs :: "('w, reco_release_config_row list) action"
  getDatasetLocked :: "('w, dataset_locked_row list) action"
  insertDAO :: "category \<Rightarrow> pydict list \<Rightarrow> ('w, unit) action"
  updateDAO :: "category \<Rightarrow> pydict list \<Rightarrow> ('w, unit) action"

text \<open>
  The remaining services: the configuration loader, the HLT configuration DAO, the
  transaction of the thread, the request database in CouchDB, the shell that
  \<^verbatim>\<open>subprocess.Popen\<close> starts (\<open>bashCommunicate\<close> gives the standard output and the
  standard error for the text written to its standard input) and the condition upload.
\<close>

record 'w services =
  loadConfigurationFile :: "string \<Rightarrow> ('w, configuration) action"
  getHLTConfig :: "string \<Rightarrow> ('w, hlt_config) action"
  transactionBegin :: "('w, unit) action"
  transactionCommit :: "('w, unit) action"
  insertGenericRequest :: "pydict \<Rightarrow> ('w, string) action"
  updateRequestStatus :: "string \<Rightarrow> string \<Rightarrow> ('w, string) action"
  bashCommunicate :: "string \<Rightarrow> ('w, string \<times> string) action"
  uploadConditions :: "string option \<Rightarrow> string option \<Rightarrow> string option \<Rightarrow> ('w, unit) action"

record 'w env =
  RunConfigAPI :: "'w run_config_api"
  RunLumiCloseoutAPI :: "'w run_lumi_closeout_api"
  Tier0Feeder :: "'w tier0_feeder_daos"
  Monitoring :: "'w monitoring_daos"
  SMNotification :: "'w sm_notification_daos"
  T0DataSvc :: "'w t0datasvc_daos"
  Services :: "'w services"

subsection \<open>Construction\<close>

text \<open>
  The attributes of the component configuration that \<^verbatim>\<open>__init__\<close> reads; an attribute
  read with \<^verbatim>\<open>getattr(..., None)\<close> is optional. \<open>t0datasvcConnectUrl\<close> is \<open>None\<close> when
  the configuration has no section \<^verbatim>\<open>T0DataSvcDatabase\<close> or the section no
  \<^verbatim>\<open>connectUrl\<close>.
\<close>

record component_config =
  cfg_tier0ConfigFile :: string
  cfg_specDirectory :: string
  cfg_dropboxuser :: "string option"
  cfg_dropboxpass :: "string option"
  cfg_transferSystemBaseDir :: "string option"
  cfg_dqmUploadProxy :: "string option"
  cfg_serviceProxy :: "string option"
  cfg_t0datasvcConnectUrl :: "string option"

text \<open>The attributes of the poller object that \<^verbatim>\<open>algorithm\<close> reads.\<close>

record poller =
  tier0ConfigFile :: string
  specDirectory :: string
  dropboxuser :: "string option"
  dropboxpass :: "string option"
  transferSystemBaseDir :: "string option"
  dqmUploadProxy :: "string option"
  serviceProxy :: "string option"
  haveT0DataSvc :: bool

text \<open>
  \<^verbatim>\<open>__init__\<close>, as far as it sets these attributes; \<open>path_exists\<close> is
  \<^verbatim>\<open>os.path.exists\<close> at the time of construction. The database connections and DAOs it
  creates besides are the collaborators above.
\<close>

definition init :: "component_config \<Rightarrow> (string \<Rightarrow> bool) \<Rightarrow> poller" where
  "init config path_exists =
     \<lparr>tier0ConfigFile = cfg_tier0ConfigFile config,
      specDirectory = cfg_specDirectory config,
      dropboxuser = cfg_dropboxuser config,
      dropboxpass = cfg_dropboxpass config,
      transferSystemBaseDir =
        (case cfg_transferSystemBaseDir config of
           None \<Rightarrow> None
         | Some d \<Rightarrow> if \<not> path_exists d then None else Some d),
      dqmUploadProxy = cfg_dqmUploadProxy config,
      serviceProxy = cfg_serviceProxy config,
      haveT0DataSvc = (cfg_t0datasvcConnectUrl config \<noteq> None)\<rparr>"

subsection \<open>Publishing to the monitoring store\<close>

text \<open>
  The test \<^verbatim>\<open>response == "OK" or "EXISTS"\<close> of \<^verbatim>\<open>feedCouchMonitoring\<close> and
  \<^verbatim>\<open>updateClosedState\<close>, as Python reads it: \<^verbatim>\<open>(response == "OK") or "EXISTS"\<close>.
\<close>

definition response_accepted :: "string \<Rightarrow> bool" where
  "response_accepted response = truthy (py_or (PBool (response = ''OK'')) (PStr ''EXISTS''))"

definition feedCouchMonitoring :: "'w env \<Rightarrow> ('w, unit) prog" where
  "feedCouchMonitoring env =
     bind (call (MonitoringCall GetStreamerWorkflowsForMonitoring)
             (getStreamerWorkflowsForMonitoring (Monitoring env))) (\<lambda>workflows1.
     bind (call (MonitoringCall GetPromptRecoWorkflowsForMonitoring)
             (getPromptRecoWorkflowsForMonitoring (Monitoring env))) (\<lambda>workflows2.
     let workflows = workflows1 @ workflows2 in
     if workflows \<noteq> [] then
       for_each workflows (\<lambda>(workflowId, run, workflowName).
         let doc = [(''RequestName'', PStr workflowName), (''Run'', PInt run)] in
         bind (call (ServiceCall (InsertGenericRequest doc))
                 (insertGenericRequest (Services env) doc)) (\<lambda>response.
         if response_accepted response then
           call (MonitoringCall (MarkTrackedWorkflowMonitoring workflowId))
             (markTrackedWorkflowMonitoring (Monitoring env) workflowId)
         else return ()))
     else return ()))"

definition updateClosedState :: "'w env \<Rightarrow> string \<Rightarrow> int \<Rightarrow> ('w, unit) prog" where
  "updateClosedState env workflowName workflowId =
     bind (call (ServiceCall (UpdateRequestStatus workflowName ''Closed''))
             (updateRequestStatus (Services env) workflowName ''Closed'')) (\<lambda>response.
     if response_accepted response then
       call (MonitoringCall (MarkCloseoutWorkflowMonitoring workflowId))
         (markCloseoutWorkflowMonitoring (Monitoring env) workflowId)
     else return ())"

definition closeOutRealTimeWorkflows :: "'w env \<Rightarrow> ('w, unit) prog" where
  "closeOutRealTimeWorkflows env =
     bind (call (MonitoringCall GetNotClosedOutWorkflows)
             (getNotClosedOutWorkflows (Monitoring env))) (\<lambda>workflows.
     if workflows \<noteq> [] then
       for_each workflows (\<lambda>(workflowId, filesetId, filesetOpen, workflowName).
         if find workflowName ''PromptReco'' \<ge> 0 then
           updateClosedState env workflowName workflowId
         else if filesetOpen = ''0'' then
           updateClosedState env workflowName workflowId
         else return ())
     else return ())"

subsection \<open>Notifying the StorageManager\<close>

text \<open>
  The slices \<^verbatim>\<open>xs[i:i+chunkSize] for i in range(0, len(xs), chunkSize)\<close>, for a positive
  chunk size.
\<close>

definition range_step :: "nat \<Rightarrow> nat \<Rightarrow> nat list" where
  "range_step n step = map (\<lambda>k. k * step) [0 ..< (n + step - 1) div step]"

definition slice :: "'a list \<Rightarrow> nat \<Rightarrow> nat \<Rightarrow> 'a list" where
  "slice xs i j = take (j - i) (drop i xs)"

definition chunks :: "nat \<Rightarrow> 'a list \<Rightarrow> 'a list list" where
  "chunks chunkSize xs = [slice xs i (i + chunkSize). i \<leftarrow> range_step (length xs) chunkSize]"

text \<open>The text written to the standard input of \<^verbatim>\<open>/bin/bash\<close>.\<close>

definition script_line :: "string \<Rightarrow> string" where
  "script_line l = ''            '' @ l @ [CHR 0x0A]"

definition sendRepackedStatus_script :: "string \<Rightarrow> string \<Rightarrow> string" where
  "sendRepackedStatus_script baseDir filenameParams =
     [CHR 0x0A] @
     script_line (''export T0_BASE_DIR='' @ baseDir) @
     script_line ''export T0ROOT=${T0_BASE_DIR}/T0'' @
     script_line ''export CONFIG=${T0_BASE_DIR}/Config/TransferSystem_CERN.cfg'' @
     '' '' @ [CHR 0x0A] @
     script_line ''export PERL5LIB=${T0ROOT}/perl_lib'' @
     [CHR 0x0A] @
     script_line ''unset LANGUAGE'' @
     script_line ''unset LC_ALL'' @
     script_line ''unset LC_CTYPE'' @
     script_line ''export LANG=C'' @
     [CHR 0x0A] @
     script_line (''${T0ROOT}/operations/sendRepackedStatus.pl --config $CONFIG '' @ filenameParams) @
     ''            ''"

text \<open>
  \<^verbatim>\<open>filenameParams\<close> of a chunk: \<^verbatim>\<open>"-FILENAME %s " % os.path.basename(lfn)\<close> for each
  streamer, in order.
\<close>

definition filenameParams_of :: "(int \<times> string) list \<Rightarrow> string" where
  "filenameParams_of finishedStreamers =
     concat (map (\<lambda>(id, lfn). ''-FILENAME '' @ basename lfn @ '' '') finishedStreamers)"

text \<open>
  \<^verbatim>\<open>notifyStorageManager\<close> is called only with \<^verbatim>\<open>transferSystemBaseDir\<close> set; the
  \<^verbatim>\<open>%s\<close> of the script would print \<^verbatim>\<open>None\<close> otherwise.
\<close>

definition str_of_option :: "string option \<Rightarrow> string" where
  "str_of_option v = (case v of None \<Rightarrow> ''None'' | Some s \<Rightarrow> s)"

definition notifyStorageManager :: "'w env \<Rightarrow> poller \<Rightarrow> ('w, unit) prog" where
  "notifyStorageManager env self =
     bind (call (NotificationCall GetFinishedStreamers)
             (getFinishedStreamers (SMNotification env))) (\<lambda>allFinishedStreamers.
     let chunkSize = 50 in
     for_each (chunks chunkSize allFinishedStreamers) (\<lambda>finishedStreamers.
       let streamers = map fst finishedStreamers;
           filenameParams = filenameParams_of finishedStreamers;
           script = sendRepackedStatus_script (str_of_option (transferSystemBaseDir self))
                      filenameParams in
       bind (call (ServiceCall (BashCommunicate script))
               (bashCommunicate (Services env) script)) (\<lambda>(output, error).
       bind (if length error > 0 then
               seq [logging_error ''ERROR: Could not notify transfer system about processed streamers'' [],
                    logging_error ''ERROR: %s'' [PStr error]]
             else return ()) (\<lambda>_.
       call (NotificationCall (MarkStreamersFinished streamers))
         (markStreamersFinished (SMNotification env) streamers)))))"

subsection \<open>Synchronising the Tier0 Data Service\<close>

text \<open>
  The shared end of the five methods: the insert into the downstream store, then the
  update of the primary store.
\<close>

definition insert_then_update ::
    "'w env \<Rightarrow> category \<Rightarrow> pydict list \<Rightarrow> pydict list \<Rightarrow> ('w, unit) prog" where
  "insert_then_update env cat bindsInsert bindsUpdate =
     seq [call (DataSvcCall (Insert cat bindsInsert)) (insertDAO (T0DataSvc env) cat bindsInsert),
          call (DataSvcCall (Update cat bindsUpdate)) (updateDAO (T0DataSvc env) cat bindsUpdate)]"

definition runStreamDone_binds :: "run_stream_done_row \<Rightarrow> pydict" where
  "runStreamDone_binds runStream =
     [(''RUN'', PInt (rsd_run runStream)), (''STREAM'', PStr (rsd_stream runStream))]"

definition updateRunStreamDoneT0DataSvc :: "'w env \<Rightarrow> ('w, unit) prog" where
  "updateRunStreamDoneT0DataSvc env =
     bind (call (DataSvcCall (Get RunStreamDone)) (getRunStreamDone (T0DataSvc env)))
       (\<lambda>runStreamDone.
     if length runStreamDone > 0 then
       let binds = map runStreamDone_binds runStreamDone
       in insert_then_update env RunStreamDone binds binds
     else return ())"

definition express_bindsInsert :: "express_config_row \<Rightarrow> pydict" where
  "express_bindsInsert config =
     [(''RUN'', PInt (ec_run config)),
      (''STREAM'', PStr (ec_stream config)),
      (''CMSSW'', ec_cmssw config),
      (''SCRAM_ARCH'', ec_scram_arch config),
      (''RECO_CMSSW'', ec_reco_cmssw config),
      (''RECO_SCRAM_ARCH'', ec_reco_scram_arch config),
      (''ALCA_SKIM'', ec_alca_skim config),
      (''DQM_SEQ'', ec_dqm_seq config),
      (''GLOBAL_TAG'', PStr (take 50 (ec_global_tag config))),
      (''SCENARIO'', ec_scenario config)]"

definition express_bindsUpdate :: "express_config_row \<Rightarrow> pydict" where
  "express_bindsUpdate config =
     [(''RUN'', PInt (ec_run config)), (''STREAM'', PStr (ec_stream config))]"

definition updateExpressConfigsT0DataSvc :: "'w env \<Rightarrow> ('w, unit) prog" where
  "updateExpressConfigsT0DataSvc env =
     bind (call (DataSvcCall (Get ExpressConfigs)) (getExpressConfigs (T0DataSvc env)))
       (\<lambda>expressConfigs.
     if length expressConfigs > 0 then
       insert_then_update env ExpressConfigs
         (map express_bindsInsert expressConfigs) (map express_bindsUpdate expressConfigs)
     else return ())"

definition reco_bindsInsert :: "reco_config_row \<Rightarrow> pydict" where
  "reco_bindsInsert config =
     [(''RUN'', PInt (rc_run config)),
      (''PRIMDS'', PStr (rc_primds config)),
      (''CMSSW'', rc_cmssw config),
      (''SCRAM_ARCH'', rc_scram_arch config),
      (''ALCA_SKIM'', rc_alca_skim config),
      (''PHYSICS_SKIM'', rc_physics_skim config),
      (''DQM_SEQ'', rc_dqm_seq config),
      (''GLOBAL_TAG'', PStr (take 50 (rc_global_tag config))),
      (''SCENARIO'', rc_scenario config)]"

definition reco_bindsUpdate :: "reco_config_row \<Rightarrow> pydict" where
  "reco_bindsUpdate config =
     [(''RUN'', PInt (rc_run config)), (''PRIMDS'', PStr (rc_primds config))]"

definition updateRecoConfigsT0DataSvc :: "'w env \<Rightarrow> ('w, unit) prog" where
  "updateRecoConfigsT0DataSvc env =
     bind (call (DataSvcCall (Get RecoConfigs)) (getRecoConfigs (T0DataSvc env)))
       (\<lambda>recoConfigs.
     if length recoConfigs > 0 then
       insert_then_update env RecoConfigs
         (map reco_bindsInsert recoConfigs) (map reco_bindsUpdate recoConfigs)
     else return ())"

text \<open>\<^verbatim>\<open>locked = int(config['released'] > 0)\<close>\<close>

definition locked_of :: "reco_release_config_row \<Rightarrow> int" where
  "locked_of config = int_of_bool (rr_released config > 0)"

definition release_bindsInsert :: "reco_release_config_row \<Rightarrow> pydict" where
  "release_bindsInsert config =
     [(''RUN'', PInt (rr_run config)), (''LOCKED'', PInt (locked_of config))]"

definition release_bindsUpdate :: "reco_release_config_row \<Rightarrow> pydict" where
  "release_bindsUpdate config =
     [(''RUN'', PInt (rr_run config)), (''IN_DATASVC'', PInt (locked_of config + 1))]"

definition updateRecoReleaseConfigsT0DataSvc :: "'w env \<Rightarrow> ('w, unit) prog" where
  "updateRecoReleaseConfigsT0DataSvc env =
     bind (call (DataSvcCall (Get RecoReleaseConfigs)) (getRecoReleaseConfigs (T0DataSvc env)))
       (\<lambda>recoReleaseConfigs.
     if length recoReleaseConfigs > 0 then
       insert_then_update env RecoReleaseConfigs
         (map release_bindsInsert recoReleaseConfigs) (map release_bindsUpdate recoReleaseConfigs)
     else return ())"

definition dataset_bindsInsert :: "dataset_locked_row \<Rightarrow> pydict" where
  "dataset_bindsInsert config = [(''PATH'', PStr (dl_path config))]"

definition dataset_bindsUpdate :: "dataset_locked_row \<Rightarrow> pydict" where
  "dataset_bindsUpdate config = [(''ID'', PInt (dl_id config))]"

definition lockDatasetsT0DataSvc :: "'w env \<Rightarrow> ('w, unit) prog" where
  "lockDatasetsT0DataSvc env =
     bind (call (DataSvcCall (Get DatasetLocked)) (getDatasetLocked (T0DataSvc env)))
       (\<lambda>datasetConfigs.
     if length datasetConfigs > 0 then
       insert_then_update env DatasetLocked
         (map dataset_bindsInsert datasetConfigs) (map dataset_bindsUpdate datasetConfigs)
     else return ())"

subsection \<open>The cycle\<close>

text \<open>Loading the Tier0 configuration: \<open>None\<close> when the file cannot be loaded.\<close>

definition load_tier0_config :: "'w env \<Rightarrow> poller \<Rightarrow> ('w, configuration option) prog" where
  "load_tier0_config env self =
     try_except
       (bind (call (ServiceCall (LoadConfigurationFile (tier0ConfigFile self)))
                (loadConfigurationFile (Services env) (tier0ConfigFile self)))
          (\<lambda>c. return (Some c)))
       (\<lambda>e. bind (logging_exception
                   ''Cannot load Tier0 configuration file, not configuring new runs and run/streams''
                   [] e)
          (\<lambda>_. return None))"

text \<open>
  Retrieving the HLT configuration of a run and making sure it is usable; \<open>None\<close> stands
  for the \<^verbatim>\<open>continue\<close> of the handler.
\<close>

definition retrieve_hlt_config :: "'w env \<Rightarrow> int \<Rightarrow> string \<Rightarrow> ('w, hlt_config option) prog" where
  "retrieve_hlt_config env run hltkey =
     try_except
       (bind (call (ServiceCall (GetHLTConfig hltkey)) (getHLTConfig (Services env) hltkey))
          (\<lambda>hltConfig.
             if process hltConfig = None \<or> length (mapping hltConfig) = 0
             then raise (RuntimeError ''HLTConfDB query returned no process or mapping'')
             else return (Some hltConfig)))
       (\<lambda>e. bind (logging_exception ''Can't retrieve hltkey %s for run %d''
                   [PStr hltkey, PInt run] e)
          (\<lambda>_. return None))"

definition try_configureRun ::
    "'w env \<Rightarrow> configuration \<Rightarrow> int \<Rightarrow> hlt_config option \<Rightarrow> ('w, unit) prog" where
  "try_configureRun env tier0Config run hltConfig =
     try_except
       (call (RunConfigCall (ConfigureRun tier0Config run hltConfig))
          (configureRun (RunConfigAPI env) tier0Config run hltConfig))
       (\<lambda>e. logging_exception ''Can't configure for run %d'' [PInt run] e)"

text \<open>The body of the loop over the new runs; local runs have no HLT key.\<close>

definition configure_new_run ::
    "'w env \<Rightarrow> configuration \<Rightarrow> int \<times> string option \<Rightarrow> ('w, unit) prog" where
  "configure_new_run env tier0Config item =
     (case snd item of
        None \<Rightarrow> try_configureRun env tier0Config (fst item) None
      | Some hltkey \<Rightarrow>
          bind (retrieve_hlt_config env (fst item) hltkey) (\<lambda>r.
            case r of
              None \<Rightarrow> return ()
            | Some hltConfig \<Rightarrow> try_configureRun env tier0Config (fst item) (Some hltConfig)))"

text \<open>\<^verbatim>\<open>for run, hltkey in sorted(runHltkeys.items())\<close>\<close>

definition configure_new_runs :: "'w env \<Rightarrow> configuration \<Rightarrow> ('w, unit) prog" where
  "configure_new_runs env tier0Config =
     bind (call (FeederCall FindNewRuns) (findNewRuns (Tier0Feeder env))) (\<lambda>runHltkeys.
       for_each (sort_key fst runHltkeys) (configure_new_run env tier0Config))"

text \<open>
  \<^verbatim>\<open>for run in sorted(runStreams.keys()): for stream in sorted(runStreams[run])\<close>
\<close>

definition configure_new_run_streams ::
    "'w env \<Rightarrow> poller \<Rightarrow> configuration \<Rightarrow> ('w, unit) prog" where
  "configure_new_run_streams env self tier0Config =
     bind (call (FeederCall FindNewRunStreams) (findNewRunStreams (Tier0Feeder env)))
       (\<lambda>runStreams.
       for_each (sort_key fst runStreams) (\<lambda>(run, streams).
         for_each (sort streams) (\<lambda>stream.
           try_except
             (call (RunConfigCall (ConfigureRunStream tier0Config run stream
                      (specDirectory self) (dqmUploadProxy self)))
                (configureRunStream (RunConfigAPI env) tier0Config run stream
                   (specDirectory self) (dqmUploadProxy self)))
             (\<lambda>e. logging_exception ''Can't configure for run %d and stream %s''
                    [PInt run, PStr stream] e))))"

text \<open>Releasing runs for Express.\<close>

definition run_binds :: "pyval list \<Rightarrow> pydict list" where
  "run_binds runs = map (\<lambda>run. [(''RUN'', run)]) runs"

definition release_express :: "'w env \<Rightarrow> ('w, unit) prog" where
  "release_express env =
     bind (call (FeederCall FindNewExpressRuns) (findNewExpressRuns (Tier0Feeder env)))
       (\<lambda>runs.
       if length runs > 0 then
         bind (case getExpressReadyRunsDAO (Tier0Feeder env) of
                 None \<Rightarrow> return runs
               | Some dao \<Rightarrow>
                   call (FeederCall (GetExpressReadyRuns (run_binds runs))) (dao (run_binds runs)))
           (\<lambda>runs.
           if length runs > 0 then
             call (FeederCall (ReleaseExpress (run_binds runs)))
               (releaseExpress (Tier0Feeder env) (run_binds runs))
           else return ())
       else return ())"

text \<open>
  Feeding new data into the existing filesets:
  \<^verbatim>\<open>try: begin(); feedStreamersDAO.execute(...)  except: logging.exception(...); raise
  else: commit()\<close>
\<close>

definition feed_new_data :: "'w env \<Rightarrow> ('w, unit) prog" where
  "feed_new_data env =
     bind (try_except
             (bind (call (ServiceCall TransactionBegin) (transactionBegin (Services env)))
                (\<lambda>_. call (FeederCall FeedStreamers) (feedStreamers (Tier0Feeder env))))
             (\<lambda>e. bind (logging_exception ''Can't feed data, bailing out...'' [] e)
                (\<lambda>_. raise e)))
       (\<lambda>_. call (ServiceCall TransactionCommit) (transactionCommit (Services env)))"

text \<open>
  The statements of \<^verbatim>\<open>algorithm\<close> that follow the loading of the configuration, in
  order.
\<close>

definition configure_phases ::
    "'w env \<Rightarrow> poller \<Rightarrow> configuration option \<Rightarrow> ('w, unit) prog" where
  "configure_phases env self tier0Config =
     (case tier0Config of
        None \<Rightarrow> return ()
      | Some c \<Rightarrow> seq [configure_new_runs env c, configure_new_run_streams env self c])"

definition phases_before_feed ::
    "'w env \<Rightarrow> poller \<Rightarrow> configuration option \<Rightarrow> ('w, unit) prog list" where
  "phases_before_feed env self tier0Config =
     [call (CloseoutCall StopRuns) (stopRuns (RunLumiCloseoutAPI env)),
      call (CloseoutCall CloseRuns) (closeRuns (RunLumiCloseoutAPI env)),
      release_express env,
      call (RunConfigCall (ReleasePromptReco tier0Config (specDirectory self) (dqmUploadProxy self)))
        (releasePromptReco (RunConfigAPI env) tier0Config (specDirectory self) (dqmUploadProxy self)),
      (if haveT0DataSvc self then
         seq [updateRunStreamDoneT0DataSvc env,
              updateExpressConfigsT0DataSvc env,
              updateRecoConfigsT0DataSvc env,
              updateRecoReleaseConfigsT0DataSvc env,
              lockDatasetsT0DataSvc env]
       else return ()),
      call (FeederCall (MarkWorkflowsInjected (transferSystemBaseDir self \<noteq> None)))
        (markWorkflowsInjected (Tier0Feeder env) (transferSystemBaseDir self \<noteq> None)),
      call (CloseoutCall CloseLumiSections) (closeLumiSections (RunLumiCloseoutAPI env))]"

definition phases_after_feed :: "'w env \<Rightarrow> poller \<Rightarrow> ('w, unit) prog list" where
  "phases_after_feed env self =
     [call (CloseoutCall CloseRunStreamFilesets) (closeRunStreamFilesets (RunLumiCloseoutAPI env)),
      call (CloseoutCall CheckActiveSplitLumis) (checkActiveSplitLumis (RunLumiCloseoutAPI env)),
      feedCouchMonitoring env,
      closeOutRealTimeWorkflows env,
      (if transferSystemBaseDir self \<noteq> None then notifyStorageManager env self else return ()),
      call (ServiceCall (UploadConditions (dropboxuser self) (dropboxpass self) (serviceProxy self)))
        (uploadConditions (Services env) (dropboxuser self) (dropboxpass self) (serviceProxy self))]"

definition algorithm :: "'w env \<Rightarrow> poller \<Rightarrow> ('w, unit) prog" where
  "algorithm env self =
     bind (load_tier0_config env self) (\<lambda>tier0Config.
       seq (configure_phases env self tier0Config #
            phases_before_feed env self tier0Config @
            feed_new_data env #
            phases_after_feed env self))"

subsection \<open>Reading a trace\<close>

text \<open>The calls of a trace, in order, whether they returned or raised.\<close>

fun calls_of :: "event list \<Rightarrow> call list" where
  "calls_of [] = []"
| "calls_of (Returned c # evs) = c # calls_of evs"
| "calls_of (Raised c e # evs) = c # calls_of evs"
| "calls_of (ev # evs) = calls_of evs"

text \<open>
  The phases of a cycle and the phase each call belongs to; the five categories of the
  Tier0 Data Service are one phase each.
\<close>

datatype phase =
    LoadConfiguration
  | ConfigureRuns
  | ConfigureRunStreams
  | StopAndCloseRuns
  | ExpressRelease
  | PromptRecoRelease
  | DataServiceSync category
  | InjectionMarking
  | LumiCloseout
  | Feed
  | FilesetCloseout
  | SplitLockCleanup
  | MonitoringPublish
  | CloseoutPublish
  | Notification
  | ConditionsUpload

fun phase_of_run_config_call :: "run_config_call \<Rightarrow> phase" where
  "phase_of_run_config_call (ConfigureRun c r h) = ConfigureRuns"
| "phase_of_run_config_call (ConfigureRunStream c r s d p) = ConfigureRunStreams"
| "phase_of_run_config_call (ReleasePromptReco c d p) = PromptRecoRelease"

fun phase_of_closeout_call :: "closeout_call \<Rightarrow> phase" where
  "phase_of_closeout_call StopRuns = StopAndCloseRuns"
| "phase_of_closeout_call CloseRuns = StopAndCloseRuns"
| "phase_of_closeout_call CloseLumiSections = LumiCloseout"
| "phase_of_closeout_call CloseRunStreamFilesets = FilesetCloseout"
| "phase_of_closeout_call CheckActiveSplitLumis = SplitLockCleanup"

fun phase_of_feeder_call :: "feeder_call \<Rightarrow> phase" where
  "phase_of_feeder_call FindNewRuns = ConfigureRuns"
| "phase_of_feeder_call FindNewRunStreams = ConfigureRunStreams"
| "phase_of_feeder_call FindNewExpressRuns = ExpressRelease"
| "phase_of_feeder_call (GetExpressReadyRuns b) = ExpressRelease"
| "phase_of_feeder_call (ReleaseExpress b) = ExpressRelease"
| "phase_of_feeder_call FeedStreamers = Feed"
| "phase_of_feeder_call (MarkWorkflowsInjected f) = InjectionMarking"

fun phase_of_monitoring_call :: "monitoring_call \<Rightarrow> phase" where
  "phase_of_monitoring_call GetStreamerWorkflowsForMonitoring = MonitoringPublish"
| "phase_of_monitoring_call GetPromptRecoWorkflowsForMonitoring = MonitoringPublish"
| "phase_of_monitoring_call (MarkTrackedWorkflowMonitoring w) = MonitoringPublish"
| "phase_of_monitoring_call GetNotClosedOutWorkflows = CloseoutPublish"
| "phase_of_monitoring_call (MarkCloseoutWorkflowMonitoring w) = CloseoutPublish"

fun phase_of_datasvc_call :: "datasvc_call \<Rightarrow> phase" where
  "phase_of_datasvc_call (Get cat) = DataServiceSync cat"
| "phase_of_datasvc_call (Insert cat b) = DataServiceSync cat"
| "phase_of_datasvc_call (Update cat b) = DataServiceSync cat"

fun phase_of_service_call :: "service_call \<Rightarrow> phase" where
  "phase_of_service_call (LoadConfigurationFile f) = LoadConfiguration"
| "phase_of_service_call (GetHLTConfig k) = ConfigureRuns"
| "phase_of_service_call TransactionBegin = Feed"
| "phase_of_service_call TransactionCommit = Feed"
| "phase_of_service_call (InsertGenericRequest d) = MonitoringPublish"
| "phase_of_service_call (UpdateRequestStatus n s) = CloseoutPublish"
| "phase_of_service_call (BashCommunicate s) = Notification"
| "phase_of_service_call (UploadConditions u p s) = ConditionsUpload"

fun phase_of :: "call \<Rightarrow> phase" where
  "phase_of (RunConfigCall c) = phase_of_run_config_call c"
| "phase_of (CloseoutCall c) = phase_of_closeout_call c"
| "phase_of (FeederCall c) = phase_of_feeder_call c"
| "phase_of (MonitoringCall c) = phase_of_monitoring_call c"
| "phase_of (NotificationCall c) = Notification"
| "phase_of (DataSvcCall c) = phase_of_datasvc_call c"
| "phase_of (ServiceCall c) = phase_of_service_call c"


text \<open>The trace a program leaves and the result it gives, from a state.\<close>

definition trace_of :: "('w, 'a) prog \<Rightarrow> 'w state \<Rightarrow> event list" where
  "trace_of p s = snd (snd (p s))"

definition result_of :: "('w, 'a) prog \<Rightarrow> 'w state \<Rightarrow> error + 'a" where
  "result_of p s = fst (p s)"

subsection \<open>Example collaborators\<close>

text \<open>An action that returns a value and one that raises, whatever the world.\<close>

definition returns_value :: "'a \<Rightarrow> ('w, 'a) action" where
  "returns_value x w = (Inr x, w)"

definition raises :: "error \<Rightarrow> ('w, 'a) action" where
  "raises e w = (Inl e, w)"

text \<open>
  Collaborators that find nothing to do and never fail; the T0 Data Service and the
  PopConLog database are theirs to be configured or not.
\<close>

definition quiet_env :: "unit env" where
  "quiet_env =
     \<lparr>RunConfigAPI =
        \<lparr>configureRun = (\<lambda>c r h. returns_value ()),
         configureRunStream = (\<lambda>c r s d p. returns_value ()),
         releasePromptReco = (\<lambda>c d p. returns_value ())\<rparr>,
      RunLumiCloseoutAPI =
        \<lparr>stopRuns = returns_value (),
         closeRuns = returns_value (),
         closeLumiSections = returns_value (),
         closeRunStreamFilesets = returns_value (),
         checkActiveSplitLumis = returns_value ()\<rparr>,
      Tier0Feeder =
        \<lparr>findNewRuns = returns_value [],
         findNewRunStreams = returns_value [],
         findNewExpressRuns = returns_value [],
         getExpressReadyRunsDAO = None,
         releaseExpress = (\<lambda>b. returns_value ()),
         feedStreamers = returns_value (),
         markWorkflowsInjected = (\<lambda>f. returns_value ())\<rparr>,
      Monitoring =
        \<lparr>getStreamerWorkflowsForMonitoring = returns_value [],
         getPromptRecoWorkflowsForMonitoring = returns_value [],
         markTrackedWorkflowMonitoring = (\<lambda>i. returns_value ()),
         getNotClosedOutWorkflows = returns_value [],
         markCloseoutWorkflowMonitoring = (\<lambda>i. returns_value ())\<rparr>,
      SMNotification =
        \<lparr>getFinishedStreamers = returns_value [],
         markStreamersFinished = (\<lambda>ids. returns_value ())\<rparr>,
      T0DataSvc =
        \<lparr>getRunStreamDone = returns_value [],
         getExpressConfigs = returns_value [],
         getRecoConfigs = returns_value [],
         getRecoReleaseConfigs = returns_value [],
         getDatasetLocked = returns_value [],
         insertDAO = (\<lambda>c b. returns_value ()),
         updateDAO = (\<lambda>c b. returns_value ())\<rparr>,
      Services =
        \<lparr>loadConfigurationFile = (\<lambda>f. returns_value (Configuration f)),
         getHLTConfig = (\<lambda>k. returns_value \<lparr>process = Some ''HLT'', mapping = [(''A'', [])]\<rparr>),
         transactionBegin = returns_value (),
         transactionCommit = returns_value (),
         insertGenericRequest = (\<lambda>d. returns_value ''OK''),
         updateRequestStatus = (\<lambda>n s. returns_value ''OK''),
         bashCommunicate = (\<lambda>s. returns_value ([], [])),
         uploadConditions = (\<lambda>u p s. returns_value ())\<rparr>\<rparr>"

text \<open>
  The monitoring store answers every request with an error; a Repack workflow 1 of run 100
  is not yet published, and a Repack workflow 2 with a closed fileset is not yet closed
  out.
\<close>

definition env_store_rejects :: "unit env" where
  "env_store_rejects =
     quiet_env
       \<lparr>Monitoring := (Monitoring quiet_env)
          \<lparr>getStreamerWorkflowsForMonitoring := returns_value [(1, 100, ''Repack_Run100_StreamA'')],
           getNotClosedOutWorkflows := returns_value [(2, 20, ''0'', ''Repack_Run100_StreamB'')]\<rparr>,
        Services := (Services quiet_env)
          \<lparr>insertGenericRequest := (\<lambda>d. returns_value ''ERROR''),
           updateRequestStatus := (\<lambda>n s. returns_value ''ERROR'')\<rparr>\<rparr>"

text \<open>
  The primary store has one row to synchronise in each category; the reco release rows are
  one run that is released and one that is not.
\<close>

definition env_unsynced :: "unit env" where
  "env_unsynced =
     quiet_env
       \<lparr>T0DataSvc := (T0DataSvc quiet_env)
          \<lparr>getRunStreamDone := returns_value [\<lparr>rsd_run = 100, rsd_stream = ''A''\<rparr>],
           getExpressConfigs := returns_value
             [\<lparr>ec_run = 100, ec_stream = ''Express'', ec_cmssw = PStr ''CMSSW_7_4_0'',
               ec_scram_arch = PStr ''slc6_amd64_gcc491'', ec_reco_cmssw = PNone,
               ec_reco_scram_arch = PNone, ec_alca_skim = PNone, ec_dqm_seq = PNone,
               ec_global_tag = ''GR_E_V42'', ec_scenario = PStr ''pp''\<rparr>],
           getRecoConfigs := returns_value
             [\<lparr>rc_run = 100, rc_primds = ''MinimumBias'', rc_cmssw = PStr ''CMSSW_7_4_0'',
               rc_scram_arch = PStr ''slc6_amd64_gcc491'', rc_alca_skim = PNone,
               rc_physics_skim = PNone, rc_dqm_seq = PNone,
               rc_global_tag = ''GR_P_V42'', rc_scenario = PStr ''pp''\<rparr>],
           getRecoReleaseConfigs := returns_value
             [\<lparr>rr_run = 100, rr_released = 3\<rparr>, \<lparr>rr_run = 101, rr_released = 0\<rparr>],
           getDatasetLocked := returns_value [\<lparr>dl_id = 1, dl_path = ''/MinimumBias/Run-v1/RAW''\<rparr>]\<rparr>\<rparr>"

text \<open>
  120 finished streamers, a notifier that reports an error on every invocation, and a
  poller whose transfer system directory is configured.
\<close>

definition streamers_120 :: "(int \<times> string) list" where
  "streamers_120 = map (\<lambda>i. (int i, ''/store/streamer/Run100/A/file.dat'')) [0 ..< 120]"

definition env_notifier_fails :: "unit env" where
  "env_notifier_fails =
     quiet_env
       \<lparr>SMNotification := (SMNotification quiet_env)
          \<lparr>getFinishedStreamers := returns_value streamers_120\<rparr>,
        Services := (Services quiet_env)
          \<lparr>bashCommunicate := (\<lambda>s. returns_value ([], ''sendRepackedStatus.pl: not found''))\<rparr>\<rparr>"

definition poller_with_transfer :: poller where
  "poller_with_transfer =
     \<lparr>tier0ConfigFile = ''/data/tier0/ProdOfflineConfiguration.py'',
      specDirectory = ''/data/tier0/specs'',
      dropboxuser = None, dropboxpass = None,
      transferSystemBaseDir = Some ''/data/TransferSystem'',
      dqmUploadProxy = None, serviceProxy = None,
      haveT0DataSvc = True\<rparr>"

text \<open>
  Collaborators whose feed of the streamers fails, and a component configuration whose
  transfer system directory does not exist.
\<close>

definition env_feed_fails :: "unit env" where
  "env_feed_fails =
     quiet_env
       \<lparr>Tier0Feeder := (Tier0Feeder quiet_env)
          \<lparr>feedStreamers := raises (DatabaseError ''ORA-00060'')\<rparr>\<rparr>"

definition config_missing_dir :: component_config where
  "config_missing_dir =
     \<lparr>cfg_tier0ConfigFile = ''/data/tier0/ProdOfflineConfiguration.py'',
      cfg_specDirectory = ''/data/tier0/specs'',
      cfg_dropboxuser = None, cfg_dropboxpass = None,
      cfg_transferSystemBaseDir = Some ''/data/TransferSystem'',
      cfg_dqmUploadProxy = None, cfg_serviceProxy = None,
      cfg_t0datasvcConnectUrl = None\<rparr>"

text \<open>
  Answers of the HLT configuration database by key: a key it does not know, a
  configuration with no mapping, one with no process, one whose process is the empty
  string, and a usable one for every other key.
\<close>

definition hlt_answers :: "string \<Rightarrow> error + hlt_config" where
  "hlt_answers hltkey =
     (if hltkey = ''/cdaq/missing'' then Inl (DatabaseError ''no such key'')
      else if hltkey = ''/cdaq/empty'' then Inr \<lparr>process = Some ''HLT'', mapping = []\<rparr>
      else if hltkey = ''/cdaq/noprocess'' then Inr \<lparr>process = None, mapping = [(''A'', [])]\<rparr>
      else if hltkey = ''/cdaq/blank'' then Inr \<lparr>process = Some '''', mapping = [(''A'', [])]\<rparr>
      else Inr \<lparr>process = Some ''HLT'', mapping = [(''A'', [])]\<rparr>)"

text \<open>
  Seven new runs, found in no particular order; run 102 is a local run, and configuring
  run 101 fails.
\<close>

definition env_new_runs :: "unit env" where
  "env_new_runs =
     quiet_env
       \<lparr>RunConfigAPI := (RunConfigAPI quiet_env)
          \<lparr>configureRun := (\<lambda>c run h. if run = 101 then raises (ExternalError ''configureRun'')
                                       else returns_value ())\<rparr>,
        Tier0Feeder := (Tier0Feeder quiet_env)
          \<lparr>findNewRuns := returns_value
             [(103, Some ''/cdaq/physics''), (100, Some ''/cdaq/missing''), (102, None),
              (106, Some ''/cdaq/blank''), (101, Some ''/cdaq/physics''),
              (104, Some ''/cdaq/empty''), (105, Some ''/cdaq/noprocess'')]\<rparr>,
        Services := (Services quiet_env)
          \<lparr>getHLTConfig := (\<lambda>k w. (hlt_answers k, w))\<rparr>\<rparr>"

text \<open>Two finished streamers of run 100.\<close>

definition env_two_streamers :: "unit env" where
  "env_two_streamers =
     quiet_env
       \<lparr>SMNotification := (SMNotification quiet_env)
          \<lparr>getFinishedStreamers := returns_value
             [(7, ''/store/t0streamer/Data/A/000/100/run100_ls0001_streamA.dat''),
              (8, ''/store/t0streamer/Data/A/000/100/run100_ls0002_streamA.dat'')]\<rparr>\<rparr>"



subsection \<open>Notions the properties are stated with\<close>

text \<open>An action never raises: from every world it returns a value.\<close>

definition never_raises :: "('w, 'a) action \<Rightarrow> bool" where
  "never_raises f \<longleftrightarrow> (\<forall>w. \<exists>x w'. f w = (Inr x, w'))"

text \<open>
  The behaviour of one synchronisation method, for the query \<open>get\<close> and the builders
  \<open>ins\<close> and \<open>upd\<close> of its two batches: what it returns and which events it adds to the
  trace, by the outcome of the query, of the insert and of the update. With no row, the
  query is the only call; with rows, the insert of the batch built from them comes first
  and the update of the batch built from them follows when the insert has returned.
\<close>

definition syncs ::
    "'w env \<Rightarrow> ('w, unit) prog \<Rightarrow> category \<Rightarrow> ('w, 'r list) action \<Rightarrow>
     ('r \<Rightarrow> pydict) \<Rightarrow> ('r \<Rightarrow> pydict) \<Rightarrow> bool" where
  "syncs env m cat get ins upd \<longleftrightarrow>
     (\<forall>w tr.
        case get w of
          (Inl e, w1) \<Rightarrow> m (w, tr) = (Inl e, (w1, tr @ [Raised (DataSvcCall (Get cat)) e]))
        | (Inr rows, w1) \<Rightarrow>
            if rows = [] then
              m (w, tr) = (Inr (), (w1, tr @ [Returned (DataSvcCall (Get cat))]))
            else
              (case insertDAO (T0DataSvc env) cat (map ins rows) w1 of
                 (Inl e, w2) \<Rightarrow>
                   m (w, tr) =
                     (Inl e, (w2, tr @ [Returned (DataSvcCall (Get cat)),
                                        Raised (DataSvcCall (Insert cat (map ins rows))) e]))
               | (Inr u, w2) \<Rightarrow>
                   (case updateDAO (T0DataSvc env) cat (map upd rows) w2 of
                      (Inl e, w3) \<Rightarrow>
                        m (w, tr) =
                          (Inl e, (w3, tr @ [Returned (DataSvcCall (Get cat)),
                                             Returned (DataSvcCall (Insert cat (map ins rows))),
                                             Raised (DataSvcCall (Update cat (map upd rows))) e]))
                    | (Inr v, w3) \<Rightarrow>
                        m (w, tr) =
                          (Inr (), (w3, tr @ [Returned (DataSvcCall (Get cat)),
                                              Returned (DataSvcCall (Insert cat (map ins rows))),
                                              Returned (DataSvcCall (Update cat (map upd rows)))])))))"

text \<open>The entries of a dictionary under the given keys.\<close>

definition restrict_keys :: "string list \<Rightarrow> pydict \<Rightarrow> pydict" where
  "restrict_keys ks d = filter (\<lambda>kv. fst kv \<in> set ks) d"

text \<open>
  The texts handed to the notifier process and the lists of streamers marked finished, as
  a trace shows them, and the two calls that notify the transfer system of one chunk.
\<close>

definition notifier_invocations :: "event list \<Rightarrow> string list" where
  "notifier_invocations tr =
     concat (map (\<lambda>c. case c of ServiceCall (BashCommunicate script) \<Rightarrow> [script] | _ \<Rightarrow> [])
               (calls_of tr))"

definition marked_streamers :: "event list \<Rightarrow> int list list" where
  "marked_streamers tr =
     concat (map (\<lambda>c. case c of NotificationCall (MarkStreamersFinished ids) \<Rightarrow> [ids] | _ \<Rightarrow> [])
               (calls_of tr))"

definition notification_of_chunk :: "poller \<Rightarrow> (int \<times> string) list \<Rightarrow> call list" where
  "notification_of_chunk self finishedStreamers =
     [ServiceCall (BashCommunicate
        (sendRepackedStatus_script (str_of_option (transferSystemBaseDir self))
           (filenameParams_of finishedStreamers))),
      NotificationCall (MarkStreamersFinished (map fst finishedStreamers))]"

text \<open>
  A program obeys \<open>P\<close> and \<open>Q\<close>: from every state it only adds events to the trace, every
  event it adds satisfies \<open>P\<close>, and when it raises \<open>e\<close> it has added an event and the
  last one satisfies \<open>Q e\<close>. It emits \<open>P\<close> when the first two hold.
\<close>

definition obeys :: "(event \<Rightarrow> bool) \<Rightarrow> (error \<Rightarrow> event \<Rightarrow> bool) \<Rightarrow> ('w, 'a) prog \<Rightarrow> bool" where
  "obeys P Q p \<longleftrightarrow>
     (\<forall>s. \<exists>evs. snd (snd (p s)) = snd s @ evs \<and> list_all P evs \<and>
        (\<forall>e. fst (p s) = Inl e \<longrightarrow> evs \<noteq> [] \<and> Q e (last evs)))"

definition emits :: "(event \<Rightarrow> bool) \<Rightarrow> ('w, 'a) prog \<Rightarrow> bool" where
  "emits P p \<longleftrightarrow> (\<forall>s. \<exists>evs. snd (snd (p s)) = snd s @ evs \<and> list_all P evs)"

text \<open>\<open>P\<close> permits the calls of the phases in \<open>S\<close>, returning or raising, and every log message.\<close>

definition permits :: "(event \<Rightarrow> bool) \<Rightarrow> phase set \<Rightarrow> bool" where
  "permits P S \<longleftrightarrow>
     (\<forall>c. phase_of c \<in> S \<longrightarrow> P (Returned c) \<and> (\<forall>e. P (Raised c e))) \<and>
     (\<forall>m a e. P (LoggedException m a e)) \<and> (\<forall>m a. P (LoggedError m a))"

text \<open>
  The calls that the source makes inside a \<^verbatim>\<open>try\<close> block: loading the configuration, the
  HLT configuration query, \<^verbatim>\<open>configureRun\<close>, \<^verbatim>\<open>configureRunStream\<close>, and the begin of the
  transaction and the feed. An exception of any other call is handled nowhere.
\<close>

fun guarded_service_call :: "service_call \<Rightarrow> bool" where
  "guarded_service_call (LoadConfigurationFile f) = True"
| "guarded_service_call (GetHLTConfig k) = True"
| "guarded_service_call TransactionBegin = True"
| "guarded_service_call c = False"

fun guarded_run_config_call :: "run_config_call \<Rightarrow> bool" where
  "guarded_run_config_call (ReleasePromptReco c d p) = False"
| "guarded_run_config_call c = True"

fun guarded :: "call \<Rightarrow> bool" where
  "guarded (ServiceCall c) = guarded_service_call c"
| "guarded (RunConfigCall c) = guarded_run_config_call c"
| "guarded (FeederCall c) = (c = FeedStreamers)"
| "guarded c = False"

text \<open>The message the handler of the feed logs before it raises again.\<close>

definition feed_message :: string where
  "feed_message = ''Can't feed data, bailing out...''"

text \<open>\<open>Q\<close> accepts, as the last event of a cycle that raises, a raise of a call that is not guarded.\<close>

definition stops_at :: "(error \<Rightarrow> event \<Rightarrow> bool) \<Rightarrow> bool" where
  "stops_at Q \<longleftrightarrow> (\<forall>c e. \<not> guarded c \<longrightarrow> Q e (Raised c e))"

text \<open>The cycle up to the feed: loading the configuration and the statements before the feed.\<close>

definition up_to_feed :: "'w env \<Rightarrow> poller \<Rightarrow> ('w, unit) prog" where
  "up_to_feed env self =
     bind (load_tier0_config env self) (\<lambda>tier0Config.
       seq (configure_phases env self tier0Config # phases_before_feed env self tier0Config))"

text \<open>
  Events that are not calls of the feed phase; events that are neither a call of the
  notification phase nor the injection marking with flag \<open>True\<close>; and the two ways a cycle
  ends when it raises \<open>e\<close>: a call outside every \<^verbatim>\<open>try\<close> block raised \<open>e\<close>, or the handler
  of the feed logged \<open>e\<close> and raised it again.
\<close>

definition outside_feed :: "event \<Rightarrow> bool" where
  "outside_feed ev \<longleftrightarrow> list_all (\<lambda>c. phase_of c \<noteq> Feed) (calls_of [ev])"

definition no_transfer :: "event \<Rightarrow> bool" where
  "no_transfer ev \<longleftrightarrow>
     list_all (\<lambda>c. phase_of c \<noteq> Notification \<and> c \<noteq> FeederCall (MarkWorkflowsInjected True))
       (calls_of [ev])"

definition abort_event :: "error \<Rightarrow> event \<Rightarrow> bool" where
  "abort_event e ev \<longleftrightarrow>
     (\<exists>c. ev = Raised c e \<and> \<not> guarded c) \<or> ev = LoggedException feed_message [] e"

text \<open>
  An HLT configuration the source rejects: \<^verbatim>\<open>hltConfig['process'] == None or
  len(hltConfig['mapping']) == 0\<close>.
\<close>

definition invalid_hlt_config :: "hlt_config \<Rightarrow> bool" where
  "invalid_hlt_config hltConfig \<longleftrightarrow> process hltConfig = None \<or> length (mapping hltConfig) = 0"

text \<open>
  What the loop over the new runs is to do for one run, when the HLT configuration
  database answers \<open>hlt\<close>: a local run is configured with no HLT configuration; for a
  run with a key the configuration is queried, and the run is configured with it when
  the query returns a configuration that is not rejected. A run is configurable when it
  gets that far. The runs for which \<^verbatim>\<open>configureRun\<close> was called, as a trace shows them.
\<close>

definition calls_for_new_run ::
    "configuration \<Rightarrow> (string \<Rightarrow> error + hlt_config) \<Rightarrow> int \<times> string option \<Rightarrow> call list" where
  "calls_for_new_run tier0Config hlt item =
     (case snd item of
        None \<Rightarrow> [RunConfigCall (ConfigureRun tier0Config (fst item) None)]
      | Some hltkey \<Rightarrow>
          ServiceCall (GetHLTConfig hltkey) #
          (case hlt hltkey of
             Inl e \<Rightarrow> []
           | Inr hltConfig \<Rightarrow>
               if invalid_hlt_config hltConfig then []
               else [RunConfigCall (ConfigureRun tier0Config (fst item) (Some hltConfig))]))"

definition configurable :: "(string \<Rightarrow> error + hlt_config) \<Rightarrow> string option \<Rightarrow> bool" where
  "configurable hlt key =
     (case key of
        None \<Rightarrow> True
      | Some hltkey \<Rightarrow>
          (case hlt hltkey of Inl e \<Rightarrow> False | Inr hltConfig \<Rightarrow> \<not> invalid_hlt_config hltConfig))"

definition configured_runs :: "event list \<Rightarrow> int list" where
  "configured_runs tr =
     concat (map (\<lambda>c. case c of RunConfigCall (ConfigureRun tier0Config run hltConfig) \<Rightarrow> [run]
                              | _ \<Rightarrow> [])
               (calls_of tr))"

text \<open>
  Reading the text handed to \<^verbatim>\<open>/bin/bash\<close>. The words of a text are its maximal runs of
  characters other than blank, tab and newline (\<open>cur\<close> is the word being read). The
  arguments of the notifier are the words that follow the word of its command, and
  \<open>None\<close> when the text does not hold the command. A plain word is not empty and holds
  no such character. The arguments that name the files of a list of streamers are
  \<^verbatim>\<open>-FILENAME\<close> and the base name of the file, for each streamer in order.
\<close>

definition is_space :: "char \<Rightarrow> bool" where
  "is_space c \<longleftrightarrow> c = CHR '' '' \<or> c = CHR 0x09 \<or> c = CHR 0x0A"

primrec split_words :: "string \<Rightarrow> string \<Rightarrow> string list" where
  "split_words [] cur = (if cur = [] then [] else [cur])"
| "split_words (c # cs) cur =
     (if is_space c then (if cur = [] then [] else [cur]) @ split_words cs []
      else split_words cs (cur @ [c]))"

definition shell_words :: "string \<Rightarrow> string list" where
  "shell_words s = split_words s []"

definition notifier_command :: string where
  "notifier_command = ''${T0ROOT}/operations/sendRepackedStatus.pl''"

definition notifier_arguments :: "string \<Rightarrow> string list option" where
  "notifier_arguments script =
     (case dropWhile (\<lambda>w. w \<noteq> notifier_command) (shell_words script) of
        [] \<Rightarrow> None
      | command # arguments \<Rightarrow> Some arguments)"

definition plain_word :: "string \<Rightarrow> bool" where
  "plain_word s \<longleftrightarrow> s \<noteq> [] \<and> list_all (\<lambda>c. \<not> is_space c) s"

definition filename_arguments :: "(int \<times> string) list \<Rightarrow> string list" where
  "filename_arguments finishedStreamers =
     concat (map (\<lambda>(id, lfn). [''-FILENAME'', basename lfn]) finishedStreamers)"

text \<open>
  A call and an event with the Tier0 configuration taken out: the configuration handed to
  \<^verbatim>\<open>releasePromptReco\<close> is replaced by \<open>None\<close>, and nothing else changes. The calls of a
  list up to and including the first call of the PromptReco release, that one without
  its configuration. And the world a program leaves, from a state.
\<close>

fun call_without_config :: "call \<Rightarrow> call" where
  "call_without_config (RunConfigCall (ReleasePromptReco c d p)) =
     RunConfigCall (ReleasePromptReco None d p)"
| "call_without_config c = c"


fun until_release :: "call list \<Rightarrow> call list" where
  "until_release [] = []"
| "until_release (c # cs) =
     (if phase_of c = PromptRecoRelease then [call_without_config c] else c # until_release cs)"




text \<open>
  An event is free of the configuration when it is no call of the phases that are handed
  the configuration: loading it, the configuration of new runs and of new run/streams, and
  the PromptReco release. A program is steady when, from one world, it gives the same
  result, leaves the same world and adds the same events whatever the trace so far, and
  these events are free of the configuration. The statements of a cycle that follow the
  configuration of new runs and run/streams are \<open>later_phases_of_cycle\<close>.
\<close>

definition config_free :: "event \<Rightarrow> bool" where
  "config_free ev \<longleftrightarrow>
     list_all (\<lambda>c. phase_of c \<notin> {LoadConfiguration, ConfigureRuns, ConfigureRunStreams,
                                  PromptRecoRelease}) (calls_of [ev])"

definition steady :: "('w, 'a) prog \<Rightarrow> bool" where
  "steady p \<longleftrightarrow>
     (\<forall>w tr tr'. \<exists>r w' evs. p (w, tr) = (r, (w', tr @ evs)) \<and>
         p (w, tr') = (r, (w', tr' @ evs)) \<and> list_all config_free evs)"


section \<open>Properties of GetAvailableRepackMergeFiles\<close>

subsection \<open>Membership in the clauses of the query\<close>

lemma collect_Inr_iff:
  "collect f xs = Inr ys \<Longrightarrow> y \<in> set ys \<longleftrightarrow> (\<exists>x \<in> set xs. \<exists>zs. f x = Inr zs \<and> y \<in> set zs)"
  by (induction xs arbitrary: ys) (auto split: sum.splits)

lemma collect_Inr_all:
  "collect f xs = Inr ys \<Longrightarrow> x \<in> set xs \<Longrightarrow> \<exists>zs. f x = Inr zs"
  by (induction xs arbitrary: ys) (auto split: sum.splits)

lemma sql_MIN_eq: "sql_MIN xs = (if xs = [] then None else Some (Min (set xs)))"
  by (cases xs) (simp_all add: Min.set_eq_fold[symmetric] del: set_simps)

lemma sql_MAX_eq: "sql_MAX xs = (if xs = [] then None else Some (Max (set xs)))"
  by (cases xs) (simp_all add: Max.set_eq_fold[symmetric] del: set_simps)

lemma left_outer_join_None:
  "(j, st, None) \<in> set (left_outer_join_split_active db js) \<longleftrightarrow>
     j = fst js \<and> st = snd js \<and> \<not> split_lock_active db (j_run j) (j_lumi j) st"
  unfolding left_outer_join_split_active_def split_lock_active_def
  by (cases "filter (\<lambda>k. lssa_run_id k = j_run (fst js) \<and> lssa_lumi_id k = j_lumi (fst js) \<and>
                       lssa_stream_id k = snd js) (lumi_section_split_active db)")
     (auto simp: filter_empty_conv)

lemma join_run_stream_iff:
  "join_run_stream db j = Inr zs \<Longrightarrow>
   (j', st) \<in> set zs \<longleftrightarrow>
     j' = j \<and> (\<exists>fs r. scalar_subquery db (j_workflow_id j) = Inr (Some fs) \<and>
        r \<in> set (run_stream_fileset_assoc db) \<and> rsfa_run_id r = j_run j \<and>
        rsfa_fileset r = fs \<and> rsfa_stream_id r = st)"
  unfolding join_run_stream_def by (auto split: sum.splits option.splits)

lemma where_rows_iff:
  assumes "from_clause db = Inr rows"
  shows "j \<in> set (where_clause subscription rows) \<longleftrightarrow> kept db subscription j"
proof -
  from assms obtain js where c: "collect (join_run_stream db) (inner_joins db) = Inr js"
    and rows: "rows = concat (map (left_outer_join_split_active db) js)"
    by (auto simp: from_clause_def split: sum.splits)
  define Q where "Q x st \<longleftrightarrow> (\<exists>fs r. scalar_subquery db (j_workflow_id x) = Inr (Some fs) \<and>
        r \<in> set (run_stream_fileset_assoc db) \<and> rsfa_run_id r = j_run x \<and>
        rsfa_fileset r = fs \<and> rsfa_stream_id r = st)" for x :: joined_row and st
  define L where "L st \<longleftrightarrow> split_lock_active db (j_run j) (j_lumi j) st" for st
  have tot: "\<exists>zs. join_run_stream db x = Inr zs" if "x \<in> set (inner_joins db)" for x
    using collect_Inr_all[OF c that] .
  have js: "(j, st) \<in> set js \<longleftrightarrow> j \<in> set (inner_joins db) \<and> Q j st" for st
  proof
    assume "(j, st) \<in> set js"
    then obtain x zs where x: "x \<in> set (inner_joins db)" "join_run_stream db x = Inr zs"
      "(j, st) \<in> set zs"
      using collect_Inr_iff[OF c, of "(j, st)"] by blast
    from join_run_stream_iff[OF x(2), of j st] x(3) have "j = x" "Q x st"
      by (simp_all add: Q_def)
    with x(1) show "j \<in> set (inner_joins db) \<and> Q j st" by simp
  next
    assume a: "j \<in> set (inner_joins db) \<and> Q j st"
    then obtain zs where zs: "join_run_stream db j = Inr zs" using tot by blast
    from join_run_stream_iff[OF zs, of j st] a have "(j, st) \<in> set zs"
      by (simp add: Q_def)
    with a zs show "(j, st) \<in> set js"
      using collect_Inr_iff[OF c, of "(j, st)"] by blast
  qed
  have rw: "(j, st, None) \<in> set rows \<longleftrightarrow> (j, st) \<in> set js \<and> \<not> L st" for st
  proof -
    have "(j, st, None) \<in> set rows \<longleftrightarrow>
            (\<exists>x \<in> set js. (j, st, None) \<in> set (left_outer_join_split_active db x))"
      unfolding rows by simp
    also have "\<dots> \<longleftrightarrow> (\<exists>x \<in> set js. x = (j, st) \<and> \<not> L st)"
      unfolding left_outer_join_None L_def by (intro bex_cong refl) auto
    finally show ?thesis by blast
  qed
  have "j \<in> set (where_clause subscription rows) \<longleftrightarrow>
        j_subscription j = subscription \<and> (\<exists>st. (j, st, None) \<in> set rows)"
    by (auto simp: where_clause_def)
  also have "\<dots> \<longleftrightarrow> j_subscription j = subscription \<and> j \<in> set (inner_joins db) \<and>
        (\<exists>st. Q j st \<and> \<not> L st)"
    unfolding rw js by blast
  also have "\<dots> \<longleftrightarrow> kept db subscription j"
    unfolding kept_def Q_def L_def by blast
  finally show ?thesis .
qed


lemma owning_streams_iff:
  "st \<in> set (owning_streams db subscription run) \<longleftrightarrow>
     (\<exists>s \<in> set (wmbs_subscription db). sub_id s = subscription \<and>
        (\<exists>wo \<in> set (wmbs_workflow_output db). wo_output_fileset wo = sub_fileset s \<and>
           (\<exists>r \<in> set (run_stream_fileset_assoc db).
              rsfa_run_id r = run \<and> rsfa_stream_id r = st \<and>
              scalar_subquery db (wo_workflow_id wo) = Inr (Some (rsfa_fileset r)))))"
  unfolding owning_streams_def by auto

lemma lumi_associations_iff:
  "(run, lumi) \<in> set (lumi_associations db f) \<longleftrightarrow>
     (\<exists>rl \<in> set (wmbs_file_runlumi_map db). rlm_fileid rl = f \<and> rlm_run rl = run \<and> rlm_lumi rl = lumi)"
  unfolding lumi_associations_def by auto

lemma kept_lumis_iff:
  "lumi \<in> set (kept_lumis db subscription f) \<longleftrightarrow>
     (\<exists>run st. (run, lumi) \<in> set (lumi_associations db f) \<and>
         st \<in> set (owning_streams db subscription run) \<and> \<not> split_lock_active db run lumi st)"
  unfolding kept_lumis_def by auto

lemma inner_joins_iff:
  "j \<in> set (inner_joins db) \<longleftrightarrow>
     (\<exists>a \<in> set (wmbs_sub_files_available db).
      \<exists>rl \<in> set (wmbs_file_runlumi_map db).
      \<exists>d \<in> set (wmbs_file_details db).
      \<exists>fl \<in> set (wmbs_file_location db).
      \<exists>l \<in> set (wmbs_location db).
      \<exists>s \<in> set (wmbs_subscription db).
      \<exists>wo \<in> set (wmbs_workflow_output db).
        rlm_fileid rl = sfa_fileid a \<and> fd_id d = sfa_fileid a \<and> fl_fileid fl = sfa_fileid a \<and>
        loc_id l = fl_location fl \<and> sub_id s = sfa_subscription a \<and>
        wo_output_fileset wo = sub_fileset s \<and>
        j = \<lparr>j_subscription = sfa_subscription a, j_fileid = sfa_fileid a,
             j_filesize = fd_filesize d, j_events = fd_events d, j_lfn = fd_lfn d,
             j_se_name = loc_se_name l, j_run = rlm_run rl, j_lumi = rlm_lumi rl,
             j_workflow_id = wo_workflow_id wo\<rparr>)"
  unfolding inner_joins_def by (simp add: image_iff Bex_def) blast


lemma inner_joins_fields:
  assumes "j \<in> set (inner_joins db)"
  obtains rl s wo where
    "rl \<in> set (wmbs_file_runlumi_map db)" "rlm_fileid rl = j_fileid j"
    "rlm_run rl = j_run j" "rlm_lumi rl = j_lumi j"
    "s \<in> set (wmbs_subscription db)" "sub_id s = j_subscription j"
    "wo \<in> set (wmbs_workflow_output db)" "wo_output_fileset wo = sub_fileset s"
    "wo_workflow_id wo = j_workflow_id j"
    "\<exists>a \<in> set (wmbs_sub_files_available db).
        sfa_subscription a = j_subscription j \<and> sfa_fileid a = j_fileid j"
  using assms unfolding inner_joins_iff by fastforce

lemma inner_joins_update:
  assumes "j0 \<in> set (inner_joins db)"
    and "rl \<in> set (wmbs_file_runlumi_map db)" "rlm_fileid rl = j_fileid j0"
    and "s \<in> set (wmbs_subscription db)" "sub_id s = j_subscription j0"
    and "wo \<in> set (wmbs_workflow_output db)" "wo_output_fileset wo = sub_fileset s"
  shows "j0\<lparr>j_run := rlm_run rl, j_lumi := rlm_lumi rl, j_workflow_id := wo_workflow_id wo\<rparr>
           \<in> set (inner_joins db)"
proof -
  from assms(1) obtain a d fl l where
    1: "a \<in> set (wmbs_sub_files_available db)" "d \<in> set (wmbs_file_details db)"
       "fl \<in> set (wmbs_file_location db)" "l \<in> set (wmbs_location db)"
       "fd_id d = sfa_fileid a" "fl_fileid fl = sfa_fileid a" "loc_id l = fl_location fl"
    and 2: "j_subscription j0 = sfa_subscription a" "j_fileid j0 = sfa_fileid a"
       "j_filesize j0 = fd_filesize d" "j_events j0 = fd_events d" "j_lfn j0 = fd_lfn d"
       "j_se_name j0 = loc_se_name l"
    unfolding inner_joins_iff by fastforce
  have "j0\<lparr>j_run := rlm_run rl, j_lumi := rlm_lumi rl, j_workflow_id := wo_workflow_id wo\<rparr> =
        \<lparr>j_subscription = sfa_subscription a, j_fileid = sfa_fileid a,
             j_filesize = fd_filesize d, j_events = fd_events d, j_lfn = fd_lfn d,
             j_se_name = loc_se_name l, j_run = rlm_run rl, j_lumi = rlm_lumi rl,
             j_workflow_id = wo_workflow_id wo\<rparr>"
    using 2 by simp
  moreover have "rlm_fileid rl = sfa_fileid a" "sub_id s = sfa_subscription a"
    using assms 2 by simp_all
  ultimately show ?thesis
    unfolding inner_joins_iff using 1 assms(2,4,6,7) by blast
qed

lemma group_lumis_kept:
  assumes "kept db subscription j0"
  shows "j_lumi ` {j. kept db subscription j \<and> group_key j = group_key j0} =
         set (kept_lumis db subscription (j_fileid j0))" (is "?A = ?B")
proof (rule set_eqI, rule iffI)
  fix lumi assume "lumi \<in> ?A"
  then obtain j where j: "kept db subscription j" "group_key j = group_key j0" "lumi = j_lumi j"
    by blast
  from j(2) have f: "j_fileid j = j_fileid j0" by (simp add: group_key_def)
  from j(1) have ji: "j \<in> set (inner_joins db)" and js: "j_subscription j = subscription"
    by (simp_all add: kept_def)
  from j(1) obtain r where r: "r \<in> set (run_stream_fileset_assoc db)" "rsfa_run_id r = j_run j"
     "scalar_subquery db (j_workflow_id j) = Inr (Some (rsfa_fileset r))"
     "\<not> split_lock_active db (j_run j) (j_lumi j) (rsfa_stream_id r)"
    unfolding kept_def by blast
  from ji obtain rl s wo where c:
    "rl \<in> set (wmbs_file_runlumi_map db)" "rlm_fileid rl = j_fileid j"
    "rlm_run rl = j_run j" "rlm_lumi rl = j_lumi j"
    "s \<in> set (wmbs_subscription db)" "sub_id s = j_subscription j"
    "wo \<in> set (wmbs_workflow_output db)" "wo_output_fileset wo = sub_fileset s"
    "wo_workflow_id wo = j_workflow_id j"
    by (rule inner_joins_fields)
  have "(j_run j, lumi) \<in> set (lumi_associations db (j_fileid j0))"
    unfolding lumi_associations_iff using c(1-4) f j(3) by auto
  moreover have "rsfa_stream_id r \<in> set (owning_streams db subscription (j_run j))"
    unfolding owning_streams_iff using c(5-9) r(1-3) js
    by (intro bexI[of _ s] conjI bexI[of _ wo] bexI[of _ r]) simp_all
  ultimately show "lumi \<in> ?B"
    unfolding kept_lumis_iff using r(4) j(3) by blast
next
  fix lumi assume "lumi \<in> ?B"
  then obtain run st where a: "(run, lumi) \<in> set (lumi_associations db (j_fileid j0))"
    "st \<in> set (owning_streams db subscription run)" "\<not> split_lock_active db run lumi st"
    unfolding kept_lumis_iff by blast
  from a(1) obtain rl where rl: "rl \<in> set (wmbs_file_runlumi_map db)"
    "rlm_fileid rl = j_fileid j0" "rlm_run rl = run" "rlm_lumi rl = lumi"
    unfolding lumi_associations_iff by blast
  from a(2) obtain s wo r where o: "s \<in> set (wmbs_subscription db)" "sub_id s = subscription"
    "wo \<in> set (wmbs_workflow_output db)" "wo_output_fileset wo = sub_fileset s"
    "r \<in> set (run_stream_fileset_assoc db)" "rsfa_run_id r = run" "rsfa_stream_id r = st"
    "scalar_subquery db (wo_workflow_id wo) = Inr (Some (rsfa_fileset r))"
    unfolding owning_streams_iff by blast
  from assms have j0: "j0 \<in> set (inner_joins db)" "j_subscription j0 = subscription"
    by (simp_all add: kept_def)
  let ?j = "j0\<lparr>j_run := rlm_run rl, j_lumi := rlm_lumi rl, j_workflow_id := wo_workflow_id wo\<rparr>"
  have "?j \<in> set (inner_joins db)"
    using j0 rl(1,2) o(1-4) by (intro inner_joins_update[where s = s]) simp_all
  then have "kept db subscription ?j"
    unfolding kept_def using j0(2) o(5-8) rl(3,4) a(3) by auto
  moreover have "group_key ?j = group_key j0" by (simp add: group_key_def)
  moreover have "j_lumi ?j = lumi" using rl(4) by simp
  ultimately show "lumi \<in> ?A" by force
qed

lemma group_by_iff:
  "r \<in> set (group_by W) \<longleftrightarrow>
     (\<exists>j0 \<in> set W. r =
        \<lparr>r_id = j_fileid j0, r_filesize = j_filesize j0, r_events = j_events j0,
         r_lfn = j_lfn j0, r_location = j_se_name j0,
         r_first_lumi = sql_MIN [j_lumi j. j \<leftarrow> W, group_key j = group_key j0],
         r_last_lumi = sql_MAX [j_lumi j. j \<leftarrow> W, group_key j = group_key j0]\<rparr>)"
  unfolding group_by_def by (auto simp: group_key_def image_iff)

lemma group_lumis_set:
  "set [j_lumi j. j \<leftarrow> W, group_key j = k] = j_lumi ` {j. j \<in> set W \<and> group_key j = k}"
  by auto



subsection \<open>The query on the example databases\<close>

lemmas query_defs = execute_def from_clause_def inner_joins_def join_run_stream_def
  scalar_subquery_def left_outer_join_split_active_def where_clause_def group_by_def group_key_def

lemmas example_defs = db_locked_11_def db_locked_7_def db_unlocked_def db_single_def
  row_of_file_1_def



lemma execute_db_unlocked: "execute db_unlocked 7 = Inr [row_of_file_1 (Some 7) (Some 9)]"
  by (simp add: query_defs example_defs)

lemma execute_db_single: "execute db_single 7 = Inr [row_of_file_1 (Some 5) (Some 5)]"
  by (simp add: query_defs example_defs)

subsection \<open>What the query returns\<close>

text \<open>
  The lock filter acts on the rows of the join, one per lumi association and owning
  stream, before they are grouped by file. So a file that is returned is marked available
  and has a lumi association that holds no active split lock for a stream owning the
  fileset of the subscription; a file all of whose associations hold the lock for every
  owning stream is not returned; and the lumi range of a returned file is taken over the
  associations that passed the filter, which are all of them when none holds a lock.
\<close>

lemma returned_file_has_unlocked_lumi:
  assumes "execute db subscription = Inr rows" and "r \<in> set rows"
  shows "marked_available db subscription (r_id r) \<and>
         (\<exists>(run, lumi) \<in> set (lumi_associations db (r_id r)).
            \<exists>st \<in> set (owning_streams db subscription run).
              \<not> split_lock_active db run lumi st)"
proof -
  from assms(1) obtain rows0 where f: "from_clause db = Inr rows0"
    and rows: "rows = group_by (where_clause subscription rows0)"
    by (auto simp: execute_def split: sum.splits)
  from assms(2) obtain j0 where j0: "j0 \<in> set (where_clause subscription rows0)"
    and id: "r_id r = j_fileid j0"
    unfolding rows group_by_iff by auto
  from j0 have k: "kept db subscription j0" by (simp add: where_rows_iff[OF f])
  then have "j0 \<in> set (inner_joins db)" and s: "j_subscription j0 = subscription"
    by (simp_all add: kept_def)
  then have "marked_available db subscription (r_id r)"
    unfolding marked_available_def id by (elim inner_joins_fields) simp
  moreover have "j_lumi j0 \<in> set (kept_lumis db subscription (j_fileid j0))"
    using group_lumis_kept[OF k] k by blast
  then have "\<exists>(run, lumi) \<in> set (lumi_associations db (r_id r)).
            \<exists>st \<in> set (owning_streams db subscription run).
              \<not> split_lock_active db run lumi st"
    unfolding kept_lumis_iff id by blast
  ultimately show ?thesis by simp
qed

lemma fully_locked_file_not_returned:
  assumes "execute db subscription = Inr rows"
    and "\<forall>(run, lumi) \<in> set (lumi_associations db f).
           \<forall>st \<in> set (owning_streams db subscription run). split_lock_active db run lumi st"
  shows "f \<notin> r_id ` set rows"
proof
  assume "f \<in> r_id ` set rows"
  then obtain r where r: "r \<in> set rows" "r_id r = f" by auto
  from returned_file_has_unlocked_lumi[OF assms(1) r(1)] assms(2) r(2)
  show False by blast
qed

lemma lumi_range_over_kept:
  assumes "execute db subscription = Inr rows" and "r \<in> set rows"
  shows "kept_lumis db subscription (r_id r) \<noteq> [] \<and>
         r_first_lumi r = Some (Min (set (kept_lumis db subscription (r_id r)))) \<and>
         r_last_lumi r = Some (Max (set (kept_lumis db subscription (r_id r)))) \<and>
         ((\<forall>(run, lumi) \<in> set (lumi_associations db (r_id r)).
             \<exists>st \<in> set (owning_streams db subscription run).
               \<not> split_lock_active db run lumi st) \<longrightarrow>
          r_first_lumi r = Some (Min (snd ` set (lumi_associations db (r_id r)))) \<and>
          r_last_lumi r = Some (Max (snd ` set (lumi_associations db (r_id r))))) \<and>
         (length (lumi_associations db (r_id r)) = 1 \<longrightarrow> r_first_lumi r = r_last_lumi r)"
proof -
  from assms(1) obtain rows0 where f: "from_clause db = Inr rows0"
    and rows: "rows = group_by (where_clause subscription rows0)"
    by (auto simp: execute_def split: sum.splits)
  let ?W = "where_clause subscription rows0"
  from assms(2) obtain j0 where j0: "j0 \<in> set ?W"
    and id: "r_id r = j_fileid j0"
    and lo: "r_first_lumi r = sql_MIN [j_lumi j. j \<leftarrow> ?W, group_key j = group_key j0]"
    and hi: "r_last_lumi r = sql_MAX [j_lumi j. j \<leftarrow> ?W, group_key j = group_key j0]"
    unfolding rows group_by_iff by auto
  let ?L = "[j_lumi j. j \<leftarrow> ?W, group_key j = group_key j0]"
  let ?K = "kept_lumis db subscription (r_id r)"
  let ?A = "lumi_associations db (r_id r)"
  from j0 have k: "kept db subscription j0" by (simp add: where_rows_iff[OF f])
  have "set ?L = j_lumi ` {j. kept db subscription j \<and> group_key j = group_key j0}"
    unfolding group_lumis_set by (simp add: where_rows_iff[OF f])
  then have eq: "set ?L = set ?K" unfolding id by (simp only: group_lumis_kept[OF k])
  have "j_lumi j0 \<in> set ?K" unfolding id using group_lumis_kept[OF k] k by blast
  then have ne: "?K \<noteq> []" by auto
  then have ne': "?L \<noteq> []" using eq by (metis set_empty)
  have 1: "r_first_lumi r = Some (Min (set ?K))" unfolding lo sql_MIN_eq using ne' eq by simp
  have 2: "r_last_lumi r = Some (Max (set ?K))" unfolding hi sql_MAX_eq using ne' eq by simp
  have 3: "r_first_lumi r = r_last_lumi r" if "length ?A = 1"
  proof -
    from that obtain p where p: "?A = [p]"
      by (cases ?A) auto
    have "set ?K \<subseteq> {snd p}" using p by (auto simp: kept_lumis_iff)
    with ne have "set ?K = {snd p}" by (cases ?K) auto
    then show ?thesis unfolding 1 2 by simp
  qed
  have 4: "set ?K = snd ` set ?A"
    if "\<forall>(run, lumi) \<in> set ?A. \<exists>st \<in> set (owning_streams db subscription run).
               \<not> split_lock_active db run lumi st"
  proof
    show "set ?K \<subseteq> snd ` set ?A" by (force simp: kept_lumis_iff)
    show "snd ` set ?A \<subseteq> set ?K" using that by (force simp: kept_lumis_iff)
  qed
  from ne 1 2 3 4 show ?thesis by simp
qed

subsection \<open>Claim C1\<close>


subsection \<open>Claim C2\<close>

section \<open>Properties of Tier0FeederPoller\<close>

subsection \<open>Evaluation and the synchronisation pattern\<close>

lemmas monad_defs = return_def raise_def bind_def try_except_def call_def
  logging_exception_def logging_error_def trace_of_def result_of_def

lemmas example_env_defs = quiet_env_def env_store_rejects_def env_unsynced_def
  returns_value_def raises_def

lemma response_accepted_any: "response_accepted response"
  by (simp add: response_accepted_def py_or_def)

lemma syncs_pattern:
  "syncs env
     (bind (call (DataSvcCall (Get cat)) get)
        (\<lambda>rows. if length rows > 0
                 then insert_then_update env cat (map ins rows) (map upd rows)
                 else return ()))
     cat get ins upd"
  unfolding syncs_def insert_then_update_def
  by (auto simp: monad_defs split: prod.splits sum.splits)

lemma syncs_RunStreamDone:
  "syncs env (updateRunStreamDoneT0DataSvc env) RunStreamDone (getRunStreamDone (T0DataSvc env))
     runStreamDone_binds runStreamDone_binds"
  unfolding updateRunStreamDoneT0DataSvc_def Let_def by (rule syncs_pattern)

lemma syncs_ExpressConfigs:
  "syncs env (updateExpressConfigsT0DataSvc env) ExpressConfigs (getExpressConfigs (T0DataSvc env))
     express_bindsInsert express_bindsUpdate"
  unfolding updateExpressConfigsT0DataSvc_def by (rule syncs_pattern)

lemma syncs_RecoConfigs:
  "syncs env (updateRecoConfigsT0DataSvc env) RecoConfigs (getRecoConfigs (T0DataSvc env))
     reco_bindsInsert reco_bindsUpdate"
  unfolding updateRecoConfigsT0DataSvc_def by (rule syncs_pattern)

lemma syncs_RecoReleaseConfigs:
  "syncs env (updateRecoReleaseConfigsT0DataSvc env) RecoReleaseConfigs
     (getRecoReleaseConfigs (T0DataSvc env)) release_bindsInsert release_bindsUpdate"
  unfolding updateRecoReleaseConfigsT0DataSvc_def by (rule syncs_pattern)

lemma syncs_DatasetLocked:
  "syncs env (lockDatasetsT0DataSvc env) DatasetLocked (getDatasetLocked (T0DataSvc env))
     dataset_bindsInsert dataset_bindsUpdate"
  unfolding lockDatasetsT0DataSvc_def by (rule syncs_pattern)



subsection \<open>Claim C3\<close>

lemma feedCouchMonitoring_env_store_rejects:
  "trace_of (feedCouchMonitoring env_store_rejects) ((), []) =
     [Returned (MonitoringCall GetStreamerWorkflowsForMonitoring),
      Returned (MonitoringCall GetPromptRecoWorkflowsForMonitoring),
      Returned (ServiceCall (InsertGenericRequest
        [(''RequestName'', PStr ''Repack_Run100_StreamA''), (''Run'', PInt 100)])),
      Returned (MonitoringCall (MarkTrackedWorkflowMonitoring 1))]"
  by (simp add: feedCouchMonitoring_def monad_defs example_env_defs response_accepted_any)

text \<open>
  C3: a workflow is to be marked tracked only when the response of the monitoring store is
  \<^verbatim>\<open>"OK"\<close> or \<^verbatim>\<open>"EXISTS"\<close>, and likewise for the closeout mark. The code tests
  \<^verbatim>\<open>response == "OK" or "EXISTS"\<close>, which is true for every response, since the string
  \<^verbatim>\<open>"EXISTS"\<close> is true. With a store that answers \<^verbatim>\<open>"ERROR"\<close>, \<open>feedCouchMonitoring\<close>
  marks workflow 1 tracked and \<open>updateClosedState\<close> marks workflow 2 closed out.
\<close>

theorem marks_workflow_on_error_response:
  "insertGenericRequest (Services env_store_rejects)
     [(''RequestName'', PStr ''Repack_Run100_StreamA''), (''Run'', PInt 100)] () = (Inr ''ERROR'', ()) \<and>
   response_accepted ''ERROR'' \<and>
   trace_of (feedCouchMonitoring env_store_rejects) ((), []) =
     [Returned (MonitoringCall GetStreamerWorkflowsForMonitoring),
      Returned (MonitoringCall GetPromptRecoWorkflowsForMonitoring),
      Returned (ServiceCall (InsertGenericRequest
        [(''RequestName'', PStr ''Repack_Run100_StreamA''), (''Run'', PInt 100)])),
      Returned (MonitoringCall (MarkTrackedWorkflowMonitoring 1))] \<and>
   updateRequestStatus (Services env_store_rejects) ''Repack_Run100_StreamB'' ''Closed'' () =
     (Inr ''ERROR'', ()) \<and>
   trace_of (updateClosedState env_store_rejects ''Repack_Run100_StreamB'' 2) ((), []) =
     [Returned (ServiceCall (UpdateRequestStatus ''Repack_Run100_StreamB'' ''Closed'')),
      Returned (MonitoringCall (MarkCloseoutWorkflowMonitoring 2))]"
  by (simp add: feedCouchMonitoring_env_store_rejects response_accepted_any)
     (simp add: updateClosedState_def monad_defs example_env_defs response_accepted_any)

subsection \<open>Claim C7\<close>

text \<open>
  C7 as stated does not hold for the dataset-lock category: the two batches are built from
  the same rows, but the insert batch is keyed by the path of the dataset and the update
  batch by the id of the row in the primary store.
\<close>

theorem dataset_lock_batches_keyed_differently:
  "trace_of (lockDatasetsT0DataSvc env_unsynced) ((), []) =
     [Returned (DataSvcCall (Get DatasetLocked)),
      Returned (DataSvcCall (Insert DatasetLocked [[(''PATH'', PStr ''/MinimumBias/Run-v1/RAW'')]])),
      Returned (DataSvcCall (Update DatasetLocked [[(''ID'', PInt 1)]]))] \<and>
   map fst (dataset_bindsInsert \<lparr>dl_id = 1, dl_path = ''/MinimumBias/Run-v1/RAW''\<rparr>) = [''PATH''] \<and>
   map fst (dataset_bindsUpdate \<lparr>dl_id = 1, dl_path = ''/MinimumBias/Run-v1/RAW''\<rparr>) = [''ID'']"
  by (simp add: lockDatasetsT0DataSvc_def insert_then_update_def monad_defs example_env_defs
        dataset_bindsInsert_def dataset_bindsUpdate_def)

text \<open>
  C7 (amended): each of the five methods behaves as \<open>syncs\<close> says. When the query of the
  primary store returns no row, neither the insert nor the update is called; otherwise the
  insert into the downstream store is called first and the update of the primary store
  only after the insert has returned, and the two batches are built from the same fetched
  rows, one entry per row in the same order. For run/stream-done, express-config,
  reco-config and reco-release the two entries of a row carry the same key columns with the
  same values (RUN and STREAM, RUN and STREAM, RUN and PRIMDS, RUN); for dataset-lock the
  insert entry is the PATH of the row and the update entry its ID.
\<close>

theorem sync_insert_before_update_same_rows:
  "syncs env (updateRunStreamDoneT0DataSvc env) RunStreamDone (getRunStreamDone (T0DataSvc env))
     runStreamDone_binds runStreamDone_binds \<and>
   syncs env (updateExpressConfigsT0DataSvc env) ExpressConfigs (getExpressConfigs (T0DataSvc env))
     express_bindsInsert express_bindsUpdate \<and>
   syncs env (updateRecoConfigsT0DataSvc env) RecoConfigs (getRecoConfigs (T0DataSvc env))
     reco_bindsInsert reco_bindsUpdate \<and>
   syncs env (updateRecoReleaseConfigsT0DataSvc env) RecoReleaseConfigs
     (getRecoReleaseConfigs (T0DataSvc env)) release_bindsInsert release_bindsUpdate \<and>
   syncs env (lockDatasetsT0DataSvc env) DatasetLocked (getDatasetLocked (T0DataSvc env))
     dataset_bindsInsert dataset_bindsUpdate \<and>
   restrict_keys [''RUN'', ''STREAM''] (runStreamDone_binds r1) =
     [(''RUN'', PInt (rsd_run r1)), (''STREAM'', PStr (rsd_stream r1))] \<and>
   restrict_keys [''RUN'', ''STREAM''] (express_bindsInsert r2) =
     [(''RUN'', PInt (ec_run r2)), (''STREAM'', PStr (ec_stream r2))] \<and>
   restrict_keys [''RUN'', ''STREAM''] (express_bindsUpdate r2) =
     [(''RUN'', PInt (ec_run r2)), (''STREAM'', PStr (ec_stream r2))] \<and>
   restrict_keys [''RUN'', ''PRIMDS''] (reco_bindsInsert r3) =
     [(''RUN'', PInt (rc_run r3)), (''PRIMDS'', PStr (rc_primds r3))] \<and>
   restrict_keys [''RUN'', ''PRIMDS''] (reco_bindsUpdate r3) =
     [(''RUN'', PInt (rc_run r3)), (''PRIMDS'', PStr (rc_primds r3))] \<and>
   restrict_keys [''RUN''] (release_bindsInsert r4) = [(''RUN'', PInt (rr_run r4))] \<and>
   restrict_keys [''RUN''] (release_bindsUpdate r4) = [(''RUN'', PInt (rr_run r4))] \<and>
   dataset_bindsInsert r5 = [(''PATH'', PStr (dl_path r5))] \<and>
   dataset_bindsUpdate r5 = [(''ID'', PInt (dl_id r5))]"
  by (simp add: syncs_RunStreamDone syncs_ExpressConfigs syncs_RecoConfigs
        syncs_RecoReleaseConfigs syncs_DatasetLocked)
     (simp add: restrict_keys_def runStreamDone_binds_def express_bindsInsert_def
        express_bindsUpdate_def reco_bindsInsert_def reco_bindsUpdate_def
        release_bindsInsert_def release_bindsUpdate_def dataset_bindsInsert_def
        dataset_bindsUpdate_def)

text \<open>
  The run/stream-done method on the example store: the row (100, A) is inserted downstream,
  then marked in the primary store; with nothing fetched the query is the only call.
\<close>

theorem sync_insert_before_update_same_rows_witness:
  "trace_of (updateRunStreamDoneT0DataSvc env_unsynced) ((), []) =
     [Returned (DataSvcCall (Get RunStreamDone)),
      Returned (DataSvcCall (Insert RunStreamDone [[(''RUN'', PInt 100), (''STREAM'', PStr ''A'')]])),
      Returned (DataSvcCall (Update RunStreamDone [[(''RUN'', PInt 100), (''STREAM'', PStr ''A'')]]))] \<and>
   trace_of (updateRunStreamDoneT0DataSvc quiet_env) ((), []) =
     [Returned (DataSvcCall (Get RunStreamDone))]"
proof -
  have u: "syncs env_unsynced (updateRunStreamDoneT0DataSvc env_unsynced) RunStreamDone
             (getRunStreamDone (T0DataSvc env_unsynced)) runStreamDone_binds runStreamDone_binds"
    using sync_insert_before_update_same_rows [of env_unsynced] by blast
  have q: "syncs quiet_env (updateRunStreamDoneT0DataSvc quiet_env) RunStreamDone
             (getRunStreamDone (T0DataSvc quiet_env)) runStreamDone_binds runStreamDone_binds"
    using sync_insert_before_update_same_rows [of quiet_env] by blast
  from u [unfolded syncs_def, rule_format, of "()" "[]"]
  have "trace_of (updateRunStreamDoneT0DataSvc env_unsynced) ((), []) =
     [Returned (DataSvcCall (Get RunStreamDone)),
      Returned (DataSvcCall (Insert RunStreamDone [[(''RUN'', PInt 100), (''STREAM'', PStr ''A'')]])),
      Returned (DataSvcCall (Update RunStreamDone [[(''RUN'', PInt 100), (''STREAM'', PStr ''A'')]]))]"
    by (simp add: example_env_defs runStreamDone_binds_def trace_of_def)
  moreover
  from q [unfolded syncs_def, rule_format, of "()" "[]"]
  have "trace_of (updateRunStreamDoneT0DataSvc quiet_env) ((), []) =
     [Returned (DataSvcCall (Get RunStreamDone))]"
    by (simp add: example_env_defs trace_of_def)
  ultimately show ?thesis by simp
qed

subsection \<open>Claim C8\<close>

text \<open>
  C8: \<open>updateRecoReleaseConfigsT0DataSvc\<close> behaves as \<open>syncs\<close> says with the two builders
  of its batches; for every fetched row the entry of the insert batch has LOCKED = 1 when
  the released counter of the row is positive and LOCKED = 0 otherwise, and the entry of
  the update batch has IN_DATASVC = LOCKED + 1, which is 1 or 2 and grows with the
  released counter. (The aggregation of the primary dataset rows of a run into the
  released counter is done by the query \<^verbatim>\<open>T0DataSvc.GetRecoReleaseConfigs\<close>.)
\<close>

theorem reco_release_locked_and_counter:
  "syncs env (updateRecoReleaseConfigsT0DataSvc env) RecoReleaseConfigs
     (getRecoReleaseConfigs (T0DataSvc env)) release_bindsInsert release_bindsUpdate \<and>
   map_of (release_bindsInsert config) ''RUN'' = Some (PInt (rr_run config)) \<and>
   map_of (release_bindsInsert config) ''LOCKED'' =
     Some (PInt (if rr_released config > 0 then 1 else 0)) \<and>
   map_of (release_bindsUpdate config) ''RUN'' = Some (PInt (rr_run config)) \<and>
   map_of (release_bindsUpdate config) ''IN_DATASVC'' =
     Some (PInt ((if rr_released config > 0 then 1 else 0) + 1)) \<and>
   (rr_released config \<le> rr_released config' \<longrightarrow>
      locked_of config + 1 \<le> locked_of config' + 1)"
  by (simp add: syncs_RecoReleaseConfigs)
     (simp add: release_bindsInsert_def release_bindsUpdate_def locked_of_def int_of_bool_def)

theorem reco_release_locked_and_counter_witness:
  "trace_of (updateRecoReleaseConfigsT0DataSvc env_unsynced) ((), []) =
     [Returned (DataSvcCall (Get RecoReleaseConfigs)),
      Returned (DataSvcCall (Insert RecoReleaseConfigs
        [[(''RUN'', PInt 100), (''LOCKED'', PInt 1)], [(''RUN'', PInt 101), (''LOCKED'', PInt 0)]])),
      Returned (DataSvcCall (Update RecoReleaseConfigs
        [[(''RUN'', PInt 100), (''IN_DATASVC'', PInt 2)],
         [(''RUN'', PInt 101), (''IN_DATASVC'', PInt 1)]]))] \<and>
   rr_released \<lparr>rr_run = 101, rr_released = 0\<rparr> \<le> rr_released \<lparr>rr_run = 100, rr_released = 3\<rparr> \<and>
   locked_of \<lparr>rr_run = 101, rr_released = 0\<rparr> + 1 \<le> locked_of \<lparr>rr_run = 100, rr_released = 3\<rparr> + 1"
proof -
  note t = reco_release_locked_and_counter
             [of env_unsynced "\<lparr>rr_run = 101, rr_released = 0\<rparr>" "\<lparr>rr_run = 100, rr_released = 3\<rparr>"]
  from t have s: "syncs env_unsynced (updateRecoReleaseConfigsT0DataSvc env_unsynced)
     RecoReleaseConfigs (getRecoReleaseConfigs (T0DataSvc env_unsynced))
     release_bindsInsert release_bindsUpdate"
    by blast
  from t have m: "locked_of \<lparr>rr_run = 101, rr_released = 0\<rparr> + 1 \<le>
                  locked_of \<lparr>rr_run = 100, rr_released = 3\<rparr> + 1"
    by simp
  from s [unfolded syncs_def, rule_format, of "()" "[]"]
  have "trace_of (updateRecoReleaseConfigsT0DataSvc env_unsynced) ((), []) =
     [Returned (DataSvcCall (Get RecoReleaseConfigs)),
      Returned (DataSvcCall (Insert RecoReleaseConfigs
        [[(''RUN'', PInt 100), (''LOCKED'', PInt 1)], [(''RUN'', PInt 101), (''LOCKED'', PInt 0)]])),
      Returned (DataSvcCall (Update RecoReleaseConfigs
        [[(''RUN'', PInt 100), (''IN_DATASVC'', PInt 2)],
         [(''RUN'', PInt 101), (''IN_DATASVC'', PInt 1)]]))]"
    by (simp add: example_env_defs trace_of_def release_bindsInsert_def release_bindsUpdate_def
          locked_of_def int_of_bool_def)
  with m show ?thesis by simp
qed

subsection \<open>Claim C4\<close>

lemma calls_of_append: "calls_of (xs @ ys) = calls_of xs @ calls_of ys"
  by (induction xs rule: calls_of.induct) simp_all

lemma range_step_Suc:
  assumes "0 < n" "0 < len"
  shows "range_step len n = 0 # map (\<lambda>i. i + n) (range_step (len - n) n)"
proof -
  have "(len + n - 1) div n = Suc ((len - 1) div n)"
  proof -
    have "len + n - 1 = (len - 1) + n" using assms by simp
    then have "(len + n - 1) div n = ((len - 1) + n) div n" by (rule arg_cong)
    also have "\<dots> = Suc ((len - 1) div n)" using assms by (simp only: div_add_self2) 
    finally show ?thesis .
  qed
  moreover have "(len - n + n - 1) div n = (len - 1) div n"
  proof (cases "n \<le> len")
    case True then show ?thesis by simp
  next
    case False
    then have "len - 1 < n" "len - n + n - 1 < n" using assms by simp_all
    then show ?thesis by simp
  qed
  ultimately show ?thesis
    unfolding range_step_def
    by (simp add: upt_conv_Cons map_Suc_upt[symmetric] del: upt_Suc)
qed

lemma range_step_0: "range_step 0 n = []"
  by (cases n) (simp_all add: range_step_def)

lemma chunks_rec:
  assumes "0 < n"
  shows "chunks n xs = (if xs = [] then [] else take n xs # chunks n (drop n xs))"
proof (cases "xs = []")
  case True
  then show ?thesis by (simp add: chunks_def range_step_0)
next
  case False
  then have "0 < length xs" by simp
  from range_step_Suc[OF assms this] False show ?thesis
    by (simp add: chunks_def slice_def comp_def add.commute)
qed

lemma concat_chunks: "0 < n \<Longrightarrow> concat (chunks n xs) = xs"
proof (induction "length xs" arbitrary: xs rule: less_induct)
  case less
  show ?case
  proof (cases "xs = []")
    case True
    then show ?thesis using less.prems by (simp add: chunks_rec)
  next
    case False
    then have "length (drop n xs) < length xs" using less.prems by simp
    from less.hyps[OF this less.prems] False less.prems show ?thesis
      by (subst chunks_rec) simp_all
  qed
qed

lemma length_chunks:
  "0 < n \<Longrightarrow> map length (chunks n xs) =
     replicate (length xs div n) n @ (if length xs mod n = 0 then [] else [length xs mod n])"
proof (induction "length xs" arbitrary: xs rule: less_induct)
  case less
  show ?case
  proof (cases "xs = []")
    case True
    then show ?thesis using less.prems by (simp add: chunks_rec)
  next
    case False
    then have "length (drop n xs) < length xs" using less.prems by simp
    note ih = less.hyps[OF this less.prems]
    show ?thesis
    proof (cases "n \<le> length xs")
      case True
      then have d: "length xs div n = Suc ((length xs - n) div n)"
        and m: "length xs mod n = (length xs - n) mod n"
        using less.prems by (simp_all add: le_div_geq le_mod_geq)
      from ih False True show ?thesis
        by (subst chunks_rec[OF less.prems]) (simp add: d m)
    next
      case False
      with \<open>xs \<noteq> []\<close> less.prems show ?thesis
        by (subst chunks_rec[OF less.prems]) (simp add: chunks_rec)
    qed
  qed
qed

lemma for_each_calls:
  assumes "\<And>x s. x \<in> set xs \<Longrightarrow>
             \<exists>w' evs. body x s = (Inr (), (w', snd s @ evs)) \<and> calls_of evs = g x"
  shows "\<exists>w' evs. for_each xs body s = (Inr (), (w', snd s @ evs)) \<and>
             calls_of evs = concat (map g xs)"
  using assms
proof (induction xs arbitrary: s)
  case Nil
  show ?case by (cases s) (simp add: return_def)
next
  case (Cons x xs)
  from Cons.prems[of x s] obtain w1 evs1 where
    1: "body x s = (Inr (), (w1, snd s @ evs1))" "calls_of evs1 = g x" by auto
  from Cons.IH[of "(w1, snd s @ evs1)"] Cons.prems obtain w2 evs2 where
    2: "for_each xs body (w1, snd s @ evs1) = (Inr (), (w2, (snd s @ evs1) @ evs2))"
       "calls_of evs2 = concat (map g xs)" by auto
  show ?case
    apply (rule exI[of _ w2], rule exI[of _ "evs1 @ evs2"])
    using 1 2 by (simp add: bind_def calls_of_append)
qed


lemma notify_chunk:
  assumes bash: "\<forall>script. never_raises (bashCommunicate (Services env) script)"
    and mark: "\<forall>ids. never_raises (markStreamersFinished (SMNotification env) ids)"
  shows "\<exists>w' evs.
     (let streamers = map fst finishedStreamers;
          filenameParams = filenameParams_of finishedStreamers;
          script = sendRepackedStatus_script (str_of_option (transferSystemBaseDir self))
                     filenameParams in
      bind (call (ServiceCall (BashCommunicate script))
              (bashCommunicate (Services env) script)) (\<lambda>(output, error).
      bind (if length error > 0 then
              seq [logging_error ''ERROR: Could not notify transfer system about processed streamers'' [],
                   logging_error ''ERROR: %s'' [PStr error]]
            else return ()) (\<lambda>_.
      call (NotificationCall (MarkStreamersFinished streamers))
        (markStreamersFinished (SMNotification env) streamers)))) s =
       (Inr (), (w', snd s @ evs)) \<and>
     calls_of evs = notification_of_chunk self finishedStreamers"
proof -
  let ?script = "sendRepackedStatus_script (str_of_option (transferSystemBaseDir self))
                     (filenameParams_of finishedStreamers)"
  from bash obtain out err w1 where
    b: "bashCommunicate (Services env) ?script (fst s) = (Inr (out, err), w1)"
    unfolding never_raises_def by (metis surj_pair)
  from mark obtain u w2 where
    m: "markStreamersFinished (SMNotification env) (map fst finishedStreamers) w1 = (Inr u, w2)"
    unfolding never_raises_def by metis
  show ?thesis
    using b m by (simp add: monad_defs notification_of_chunk_def Let_def)
qed

lemma notifier_invocations_chunks:
  assumes "calls_of tr = c0 # concat (map (notification_of_chunk self) cs)"
    and "c0 = NotificationCall GetFinishedStreamers"
  shows "notifier_invocations tr =
        map (\<lambda>c. sendRepackedStatus_script (str_of_option (transferSystemBaseDir self))
                   (filenameParams_of c)) cs"
  unfolding notifier_invocations_def assms
  by (induction cs) (simp_all add: notification_of_chunk_def)

lemma marked_streamers_chunks:
  assumes "calls_of tr = c0 # concat (map (notification_of_chunk self) cs)"
    and "c0 = NotificationCall GetFinishedStreamers"
  shows "marked_streamers tr = map (map fst) cs"
  unfolding marked_streamers_def assms
  by (induction cs) (simp_all add: notification_of_chunk_def)

lemma split_words_run:
  "list_all (\<lambda>c. \<not> is_space c) u \<Longrightarrow> split_words (u @ s) cur = split_words s (cur @ u)"
  by (induction u arbitrary: cur) simp_all

lemma is_space_simps [simp]:
  "is_space CHR '' ''" "is_space CHR 0x0A"
  by (simp_all add: is_space_def)

lemma split_words_filenameParams:
  assumes "list_all (\<lambda>x. plain_word (basename (snd x))) finishedStreamers"
  shows "split_words (filenameParams_of finishedStreamers @ s) [] =
         filename_arguments finishedStreamers @ split_words s []"
  using assms
proof (induction finishedStreamers)
  case Nil
  show ?case by (simp add: filenameParams_of_def filename_arguments_def)
next
  case (Cons x xs)
  obtain i lfn where x: "x = (i, lfn)" by (cases x)
  from Cons.prems have p: "basename lfn \<noteq> []" "list_all (\<lambda>c. \<not> is_space c) (basename lfn)"
    and r: "list_all (\<lambda>x. plain_word (basename (snd x))) xs"
    by (simp_all add: x plain_word_def)
  have ih: "split_words (filenameParams_of xs @ s) [] =
         filename_arguments xs @ split_words s []"
    by (rule Cons.IH[OF r])
  have "split_words (filenameParams_of (x # xs) @ s) [] =
        split_words (''-FILENAME '' @ basename lfn @ '' '' @ filenameParams_of xs @ s) []"
    by (simp add: filenameParams_of_def x)
  also have "\<dots> = ''-FILENAME'' # split_words (basename lfn @ '' '' @ filenameParams_of xs @ s) []"
    by (simp add: is_space_def)
  also have "\<dots> = ''-FILENAME'' # split_words ('' '' @ filenameParams_of xs @ s) (basename lfn)"
    by (simp add: split_words_run[OF p(2)])
  also have "\<dots> = ''-FILENAME'' # basename lfn # split_words (filenameParams_of xs @ s) []"
    using p(1) by simp
  finally show ?case
    by (simp add: ih filename_arguments_def x)
qed

lemma shell_words_script:
  assumes d: "list_all (\<lambda>c. \<not> is_space c) baseDir"
    and f: "list_all (\<lambda>x. plain_word (basename (snd x))) finishedStreamers"
  shows "shell_words (sendRepackedStatus_script baseDir (filenameParams_of finishedStreamers)) =
     [''export'', ''T0_BASE_DIR='' @ baseDir,
      ''export'', ''T0ROOT=${T0_BASE_DIR}/T0'',
      ''export'', ''CONFIG=${T0_BASE_DIR}/Config/TransferSystem_CERN.cfg'',
      ''export'', ''PERL5LIB=${T0ROOT}/perl_lib'',
      ''unset'', ''LANGUAGE'', ''unset'', ''LC_ALL'', ''unset'', ''LC_CTYPE'',
      ''export'', ''LANG=C'',
      ''${T0ROOT}/operations/sendRepackedStatus.pl'', ''--config'', ''$CONFIG''] @
     filename_arguments finishedStreamers"
  unfolding shell_words_def sendRepackedStatus_script_def script_line_def
  by (simp add: is_space_def split_words_run[OF d] split_words_filenameParams[OF f])

lemma notifier_arguments_script:
  assumes d: "list_all (\<lambda>c. \<not> is_space c) baseDir"
    and f: "list_all (\<lambda>x. plain_word (basename (snd x))) finishedStreamers"
  shows "notifier_arguments (sendRepackedStatus_script baseDir (filenameParams_of finishedStreamers)) =
     Some (''--config'' # ''$CONFIG'' # filename_arguments finishedStreamers)"
  unfolding notifier_arguments_def shell_words_script[OF d f]
  by (simp add: notifier_command_def)

lemma notifier_arguments_invocations:
  assumes d: "list_all (\<lambda>c. \<not> is_space c) (str_of_option (transferSystemBaseDir self))"
    and f: "list_all (\<lambda>x. plain_word (basename (snd x))) (concat cs)"
  shows "map notifier_arguments
           (map (\<lambda>c. sendRepackedStatus_script (str_of_option (transferSystemBaseDir self))
                   (filenameParams_of c)) cs) =
         map (\<lambda>c. Some (''--config'' # ''$CONFIG'' # filename_arguments c)) cs"
  using f by (induction cs) (simp_all add: notifier_arguments_script[OF d])

lemma filename_arguments_same_name:
  "\<forall>x \<in> set c. basename (snd x) = n \<Longrightarrow>
   filename_arguments c = concat (replicate (length c) [''-FILENAME'', n])"
  by (induction c) (auto simp: filename_arguments_def)

lemma notifyStorageManager_env_two_streamers:
  "notifyStorageManager env_two_streamers poller_with_transfer ((), []) =
     (Inr (), ((),
      [Returned (NotificationCall GetFinishedStreamers),
       Returned (ServiceCall (BashCommunicate
         ([CHR 0x0A] @
          ''            export T0_BASE_DIR=/data/TransferSystem'' @ [CHR 0x0A] @
          ''            export T0ROOT=${T0_BASE_DIR}/T0'' @ [CHR 0x0A] @
          ''            export CONFIG=${T0_BASE_DIR}/Config/TransferSystem_CERN.cfg'' @ [CHR 0x0A] @
          '' '' @ [CHR 0x0A] @
          ''            export PERL5LIB=${T0ROOT}/perl_lib'' @ [CHR 0x0A] @
          [CHR 0x0A] @
          ''            unset LANGUAGE'' @ [CHR 0x0A] @
          ''            unset LC_ALL'' @ [CHR 0x0A] @
          ''            unset LC_CTYPE'' @ [CHR 0x0A] @
          ''            export LANG=C'' @ [CHR 0x0A] @
          [CHR 0x0A] @
          ''            ${T0ROOT}/operations/sendRepackedStatus.pl --config $CONFIG '' @
          ''-FILENAME run100_ls0001_streamA.dat -FILENAME run100_ls0002_streamA.dat '' @
          [CHR 0x0A] @
          ''            ''))),
       Returned (NotificationCall (MarkStreamersFinished [7, 8]))]))"
  by (simp add: notifyStorageManager_def monad_defs env_two_streamers_def quiet_env_def
        returns_value_def poller_with_transfer_def chunks_def range_step_def slice_def
        sendRepackedStatus_script_def script_line_def filenameParams_of_def basename_def
        str_of_option_def)

text \<open>
  C4: when the query returns the finished streamers and neither the notifier process nor
  the marking raises, \<open>notifyStorageManager\<close> returns; the chunks are consecutive slices
  of the fetched list in its order, of 50 streamers each and a last one of \<open>n mod 50\<close>
  when that is not zero; after the query the calls are, chunk by chunk, one invocation of
  the notifier and the marking of the streamers of the chunk; so the notifier is invoked
  once per chunk, the streamers marked after the invocation of a chunk are those of the
  chunk, and the streamers marked are exactly the fetched ones. When the transfer system
  directory and the base names of the files are plain words, the text handed to bash for
  a chunk runs \<^verbatim>\<open>sendRepackedStatus.pl\<close> with the arguments \<^verbatim>\<open>--config $CONFIG\<close> and then
  \<^verbatim>\<open>-FILENAME\<close> and the base name for each streamer of the chunk, in order, and nothing
  more. Nothing is assumed about what the notifier prints, so this holds whether or not it
  reports an error.
\<close>

theorem notify_in_chunks_of_50_marks_all:
  assumes get: "getFinishedStreamers (SMNotification env) w = (Inr allFinishedStreamers, w1)"
    and bash: "\<forall>script. never_raises (bashCommunicate (Services env) script)"
    and mark: "\<forall>ids. never_raises (markStreamersFinished (SMNotification env) ids)"
  shows "result_of (notifyStorageManager env self) (w, []) = Inr () \<and>
     concat (chunks 50 allFinishedStreamers) = allFinishedStreamers \<and>
     map length (chunks 50 allFinishedStreamers) =
       replicate (length allFinishedStreamers div 50) 50 @
       (if length allFinishedStreamers mod 50 = 0 then [] else [length allFinishedStreamers mod 50]) \<and>
     calls_of (trace_of (notifyStorageManager env self) (w, [])) =
       NotificationCall GetFinishedStreamers #
       concat (map (notification_of_chunk self) (chunks 50 allFinishedStreamers)) \<and>
     length (notifier_invocations (trace_of (notifyStorageManager env self) (w, []))) =
       length (chunks 50 allFinishedStreamers) \<and>
     concat (marked_streamers (trace_of (notifyStorageManager env self) (w, []))) =
       map fst allFinishedStreamers \<and>
     marked_streamers (trace_of (notifyStorageManager env self) (w, [])) =
       map (map fst) (chunks 50 allFinishedStreamers) \<and>
     (list_all (\<lambda>c. \<not> is_space c) (str_of_option (transferSystemBaseDir self)) \<and>
      list_all (\<lambda>x. plain_word (basename (snd x))) allFinishedStreamers \<longrightarrow>
      map notifier_arguments
          (notifier_invocations (trace_of (notifyStorageManager env self) (w, []))) =
        map (\<lambda>c. Some (''--config'' # ''$CONFIG'' # filename_arguments c))
          (chunks 50 allFinishedStreamers))"
proof -
  let ?body = "\<lambda>finishedStreamers.
       let streamers = map fst finishedStreamers;
           filenameParams = filenameParams_of finishedStreamers;
           script = sendRepackedStatus_script (str_of_option (transferSystemBaseDir self))
                      filenameParams in
       bind (call (ServiceCall (BashCommunicate script))
               (bashCommunicate (Services env) script)) (\<lambda>(output, error).
       bind (if length error > 0 then
               seq [logging_error ''ERROR: Could not notify transfer system about processed streamers'' [],
                    logging_error ''ERROR: %s'' [PStr error]]
             else return ()) (\<lambda>_.
       call (NotificationCall (MarkStreamersFinished streamers))
         (markStreamersFinished (SMNotification env) streamers)))"
  let ?cs = "chunks 50 allFinishedStreamers"
  let ?s1 = "(w1, [Returned (NotificationCall GetFinishedStreamers)])"
  have "\<exists>w' evs. for_each ?cs ?body ?s1 = (Inr (), (w', snd ?s1 @ evs)) \<and>
          calls_of evs = concat (map (notification_of_chunk self) ?cs)"
    by (rule for_each_calls) (rule notify_chunk[OF bash mark])
  then obtain w' evs where
    loop: "for_each ?cs ?body ?s1 = (Inr (), (w', snd ?s1 @ evs))"
    and calls: "calls_of evs = concat (map (notification_of_chunk self) ?cs)"
    by blast
  have run: "notifyStorageManager env self (w, []) =
               (Inr (), (w', Returned (NotificationCall GetFinishedStreamers) # evs))"
    using get loop by (simp add: notifyStorageManager_def bind_def call_def Let_def)
  have c: "calls_of (trace_of (notifyStorageManager env self) (w, [])) =
       NotificationCall GetFinishedStreamers # concat (map (notification_of_chunk self) ?cs)"
    using run calls by (simp add: trace_of_def)
  have inv: "notifier_invocations (trace_of (notifyStorageManager env self) (w, [])) =
        map (\<lambda>c. sendRepackedStatus_script (str_of_option (transferSystemBaseDir self))
                   (filenameParams_of c)) ?cs"
    by (rule notifier_invocations_chunks[OF c refl])
  have mk: "marked_streamers (trace_of (notifyStorageManager env self) (w, [])) =
        map (map fst) ?cs"
    by (rule marked_streamers_chunks[OF c refl])
  have "concat (map (map fst) ?cs) = map fst (concat ?cs)"
    by (simp add: map_concat)
  then have all: "concat (marked_streamers (trace_of (notifyStorageManager env self) (w, []))) =
       map fst allFinishedStreamers"
    unfolding mk by (simp add: concat_chunks)
  have args: "map notifier_arguments
          (notifier_invocations (trace_of (notifyStorageManager env self) (w, []))) =
        map (\<lambda>c. Some (''--config'' # ''$CONFIG'' # filename_arguments c)) ?cs"
    if "list_all (\<lambda>c. \<not> is_space c) (str_of_option (transferSystemBaseDir self))"
      and "list_all (\<lambda>x. plain_word (basename (snd x))) allFinishedStreamers"
    unfolding inv using that
    by (intro notifier_arguments_invocations) (simp_all add: concat_chunks)
  from run c inv all mk args show ?thesis
    by (simp add: result_of_def concat_chunks length_chunks)
qed

text \<open>
  With 120 streamers and a notifier that fails: 3 invocations, naming 50, 50 and 20 files,
  50, 50 and 20 streamers marked after them, and 120 marked in all. With two streamers:
  the text handed to bash, character by character.
\<close>

theorem notify_in_chunks_of_50_marks_all_witness:
  "getFinishedStreamers (SMNotification env_notifier_fails) () = (Inr streamers_120, ()) \<and>
   length streamers_120 = 120 \<and>
   bashCommunicate (Services env_notifier_fails) [] () =
     (Inr ([], ''sendRepackedStatus.pl: not found''), ()) \<and>
   result_of (notifyStorageManager env_notifier_fails poller_with_transfer) ((), []) = Inr () \<and>
   map length (chunks 50 streamers_120) = [50, 50, 20] \<and>
   length (notifier_invocations
     (trace_of (notifyStorageManager env_notifier_fails poller_with_transfer) ((), []))) = 3 \<and>
   concat (marked_streamers
     (trace_of (notifyStorageManager env_notifier_fails poller_with_transfer) ((), []))) =
     map fst streamers_120 \<and>
   length (map fst streamers_120) = 120 \<and>
   map length (marked_streamers
     (trace_of (notifyStorageManager env_notifier_fails poller_with_transfer) ((), []))) =
     [50, 50, 20] \<and>
   map notifier_arguments (notifier_invocations
     (trace_of (notifyStorageManager env_notifier_fails poller_with_transfer) ((), []))) =
     [Some (''--config'' # ''$CONFIG'' # concat (replicate 50 [''-FILENAME'', ''file.dat''])),
      Some (''--config'' # ''$CONFIG'' # concat (replicate 50 [''-FILENAME'', ''file.dat''])),
      Some (''--config'' # ''$CONFIG'' # concat (replicate 20 [''-FILENAME'', ''file.dat'']))] \<and>
   notifier_invocations
     (trace_of (notifyStorageManager env_two_streamers poller_with_transfer) ((), [])) =
     [[CHR 0x0A] @
      ''            export T0_BASE_DIR=/data/TransferSystem'' @ [CHR 0x0A] @
      ''            export T0ROOT=${T0_BASE_DIR}/T0'' @ [CHR 0x0A] @
      ''            export CONFIG=${T0_BASE_DIR}/Config/TransferSystem_CERN.cfg'' @ [CHR 0x0A] @
      '' '' @ [CHR 0x0A] @
      ''            export PERL5LIB=${T0ROOT}/perl_lib'' @ [CHR 0x0A] @
      [CHR 0x0A] @
      ''            unset LANGUAGE'' @ [CHR 0x0A] @
      ''            unset LC_ALL'' @ [CHR 0x0A] @
      ''            unset LC_CTYPE'' @ [CHR 0x0A] @
      ''            export LANG=C'' @ [CHR 0x0A] @
      [CHR 0x0A] @
      ''            ${T0ROOT}/operations/sendRepackedStatus.pl --config $CONFIG '' @
      ''-FILENAME run100_ls0001_streamA.dat -FILENAME run100_ls0002_streamA.dat '' @
      [CHR 0x0A] @
      ''            ''] \<and>
   marked_streamers
     (trace_of (notifyStorageManager env_two_streamers poller_with_transfer) ((), [])) = [[7, 8]]"
proof -
  let ?tr = "trace_of (notifyStorageManager env_notifier_fails poller_with_transfer) ((), [])"
  have g: "getFinishedStreamers (SMNotification env_notifier_fails) () = (Inr streamers_120, ())"
    by (simp add: env_notifier_fails_def quiet_env_def returns_value_def)
  have b: "\<forall>script. never_raises (bashCommunicate (Services env_notifier_fails) script)"
    by (simp add: env_notifier_fails_def quiet_env_def returns_value_def never_raises_def)
  have m: "\<forall>ids. never_raises (markStreamersFinished (SMNotification env_notifier_fails) ids)"
    by (simp add: env_notifier_fails_def quiet_env_def returns_value_def never_raises_def)
  have l: "length streamers_120 = 120" by (simp add: streamers_120_def)
  have e: "bashCommunicate (Services env_notifier_fails) [] () =
     (Inr ([], ''sendRepackedStatus.pl: not found''), ())"
    by (simp add: env_notifier_fails_def quiet_env_def returns_value_def)
  have n: "basename (snd x) = ''file.dat''" if "x \<in> set streamers_120" for x
    using that by (auto simp: streamers_120_def basename_def)
  have d: "list_all (\<lambda>c. \<not> is_space c) (str_of_option (transferSystemBaseDir poller_with_transfer))"
    by (simp add: poller_with_transfer_def str_of_option_def is_space_def)
  have p: "list_all (\<lambda>x. plain_word (basename (snd x))) streamers_120"
    unfolding list_all_iff by (simp add: n plain_word_def is_space_def)
  note t = notify_in_chunks_of_50_marks_all [OF g b m, of poller_with_transfer]
  from t have 1: "map length (chunks 50 streamers_120) = [50, 50, 20]"
    by (simp add: l numeral_2_eq_2)
  then have "length (map length (chunks 50 streamers_120)) = 3" by simp
  then have 2: "length (chunks 50 streamers_120) = 3" by simp
  from t have cc: "concat (chunks 50 streamers_120) = streamers_120" by blast
  have sub: "x \<in> set streamers_120" if "c \<in> set (chunks 50 streamers_120)" "x \<in> set c" for c x
  proof -
    from that have "x \<in> set (concat (chunks 50 streamers_120))" by auto
    then show ?thesis unfolding cc .
  qed
  have fa: "filename_arguments c = concat (replicate (length c) [''-FILENAME'', ''file.dat''])"
    if "c \<in> set (chunks 50 streamers_120)" for c
    by (rule filename_arguments_same_name) (use that sub n in blast)
  from t d p have "map notifier_arguments (notifier_invocations ?tr) =
        map (\<lambda>c. Some (''--config'' # ''$CONFIG'' # filename_arguments c))
          (chunks 50 streamers_120)"
    by blast
  also have "\<dots> = map (\<lambda>k. Some (''--config'' # ''$CONFIG'' #
                        concat (replicate k [''-FILENAME'', ''file.dat''])))
                   (map length (chunks 50 streamers_120))"
    by (simp add: fa)
  finally have 3: "map notifier_arguments (notifier_invocations ?tr) =
     [Some (''--config'' # ''$CONFIG'' # concat (replicate 50 [''-FILENAME'', ''file.dat''])),
      Some (''--config'' # ''$CONFIG'' # concat (replicate 50 [''-FILENAME'', ''file.dat''])),
      Some (''--config'' # ''$CONFIG'' # concat (replicate 20 [''-FILENAME'', ''file.dat'']))]"
    unfolding 1 by simp
  from t have "marked_streamers ?tr = map (map fst) (chunks 50 streamers_120)" by blast
  then have "map length (marked_streamers ?tr) = map length (chunks 50 streamers_120)"
    by (simp add: comp_def)
  then have 4: "map length (marked_streamers ?tr) = [50, 50, 20]" unfolding 1 .
  have 5: "notifier_invocations
     (trace_of (notifyStorageManager env_two_streamers poller_with_transfer) ((), [])) =
     [[CHR 0x0A] @
      ''            export T0_BASE_DIR=/data/TransferSystem'' @ [CHR 0x0A] @
      ''            export T0ROOT=${T0_BASE_DIR}/T0'' @ [CHR 0x0A] @
      ''            export CONFIG=${T0_BASE_DIR}/Config/TransferSystem_CERN.cfg'' @ [CHR 0x0A] @
      '' '' @ [CHR 0x0A] @
      ''            export PERL5LIB=${T0ROOT}/perl_lib'' @ [CHR 0x0A] @
      [CHR 0x0A] @
      ''            unset LANGUAGE'' @ [CHR 0x0A] @
      ''            unset LC_ALL'' @ [CHR 0x0A] @
      ''            unset LC_CTYPE'' @ [CHR 0x0A] @
      ''            export LANG=C'' @ [CHR 0x0A] @
      [CHR 0x0A] @
      ''            ${T0ROOT}/operations/sendRepackedStatus.pl --config $CONFIG '' @
      ''-FILENAME run100_ls0001_streamA.dat -FILENAME run100_ls0002_streamA.dat '' @
      [CHR 0x0A] @
      ''            '']"
    by (simp add: trace_of_def notifyStorageManager_env_two_streamers notifier_invocations_def)
  have 6: "marked_streamers
     (trace_of (notifyStorageManager env_two_streamers poller_with_transfer) ((), [])) = [[7, 8]]"
    by (simp add: trace_of_def notifyStorageManager_env_two_streamers marked_streamers_def)
  from t have r: "result_of (notifyStorageManager env_notifier_fails poller_with_transfer) ((), []) = Inr ()"
    and i: "length (notifier_invocations ?tr) = length (chunks 50 streamers_120)"
    and k: "concat (marked_streamers ?tr) = map fst streamers_120"
    by blast+
  from g l e r 1 i 2 k 3 4 5 6 show ?thesis by simp
qed

subsection \<open>What a program adds to the trace\<close>

lemma obeys_emits: "obeys P Q p \<Longrightarrow> emits P p"
  unfolding obeys_def emits_def by blast

lemma obeysI:
  assumes "\<And>s. \<exists>evs. snd (snd (p s)) = snd s @ evs \<and> list_all P evs \<and>
        (\<forall>e. fst (p s) = Inl e \<longrightarrow> evs \<noteq> [] \<and> Q e (last evs))"
  shows "obeys P Q p"
  using assms unfolding obeys_def by blast

lemma obeysD:
  assumes "obeys P Q p"
  obtains evs where "snd (snd (p s)) = snd s @ evs" "list_all P evs"
    "\<And>e. fst (p s) = Inl e \<Longrightarrow> evs \<noteq> [] \<and> Q e (last evs)"
  using assms unfolding obeys_def by blast

lemma obeys_return: "obeys P Q (return x)"
  by (rule obeysI) (simp add: return_def)

lemma emits_return: "emits P (return x)"
  by (simp add: emits_def return_def)

lemma emits_raise: "emits P (raise e)"
  by (simp add: emits_def raise_def)

lemma obeys_call:
  assumes "P (Returned c)" "\<And>e. P (Raised c e)" "\<And>e. Q e (Raised c e)"
  shows "obeys P Q (call c f)"
proof (rule obeysI)
  fix s :: "'a state"
  obtain r w' where f: "f (fst s) = (r, w')" by (cases "f (fst s)")
  show "\<exists>evs. snd (snd (call c f s)) = snd s @ evs \<and> list_all P evs \<and>
        (\<forall>e. fst (call c f s) = Inl e \<longrightarrow> evs \<noteq> [] \<and> Q e (last evs))"
    using f assms by (cases r) (simp_all add: call_def)
qed

lemma emits_call:
  assumes "P (Returned c)" "\<And>e. P (Raised c e)"
  shows "emits P (call c f)"
  by (rule obeys_emits[where Q = "\<lambda>e ev. True"]) (rule obeys_call; simp add: assms)

lemma obeys_logging_exception: "P (LoggedException m a e) \<Longrightarrow> obeys P Q (logging_exception m a e)"
  by (rule obeysI) (simp add: logging_exception_def)

lemma obeys_logging_error: "P (LoggedError m a) \<Longrightarrow> obeys P Q (logging_error m a)"
  by (rule obeysI) (simp add: logging_error_def)

lemma obeys_bind:
  assumes m: "obeys P Q m" and k: "\<And>x. obeys P Q (k x)"
  shows "obeys P Q (bind m k)"
proof (rule obeysI)
  fix s
  obtain r s1 where ms: "m s = (r, s1)" by (cases "m s")
  from m obtain evs1 where 1: "snd s1 = snd s @ evs1" "list_all P evs1"
    "\<And>e. r = Inl e \<Longrightarrow> evs1 \<noteq> [] \<and> Q e (last evs1)"
    using ms by (auto elim!: obeysD[where s = s])
  show "\<exists>evs. snd (snd (bind m k s)) = snd s @ evs \<and> list_all P evs \<and>
        (\<forall>e. fst (bind m k s) = Inl e \<longrightarrow> evs \<noteq> [] \<and> Q e (last evs))"
  proof (cases r)
    case (Inl e)
    then show ?thesis using ms 1 by (auto simp: bind_def)
  next
    case (Inr x)
    from k[of x] obtain evs2 where 2: "snd (snd (k x s1)) = snd s1 @ evs2" "list_all P evs2"
      "\<And>e. fst (k x s1) = Inl e \<Longrightarrow> evs2 \<noteq> [] \<and> Q e (last evs2)"
      by (auto elim!: obeysD[where s = s1])
    show ?thesis
      apply (rule exI[of _ "evs1 @ evs2"])
      using Inr ms 1 2 by (auto simp: bind_def)
  qed
qed

lemma emits_bind:
  assumes m: "emits P m" and k: "\<And>x. emits P (k x)"
  shows "emits P (bind m k)"
  unfolding emits_def
proof
  fix s
  obtain r s1 where ms: "m s = (r, s1)" by (cases "m s")
  from m obtain evs1 where 1: "snd s1 = snd s @ evs1" "list_all P evs1"
    using ms unfolding emits_def by (metis snd_conv)
  show "\<exists>evs. snd (snd (bind m k s)) = snd s @ evs \<and> list_all P evs"
  proof (cases r)
    case (Inl e)
    then show ?thesis using ms 1 by (auto simp: bind_def)
  next
    case (Inr x)
    from k[of x] obtain evs2 where 2: "snd (snd (k x s1)) = snd s1 @ evs2" "list_all P evs2"
      unfolding emits_def by blast
    show ?thesis
      apply (rule exI[of _ "evs1 @ evs2"])
      using Inr ms 1 2 by (auto simp: bind_def)
  qed
qed

lemma obeys_try_except:
  assumes m: "emits P m" and h: "\<And>e. obeys P Q (h e)"
  shows "obeys P Q (try_except m h)"
proof (rule obeysI)
  fix s
  obtain r s1 where ms: "m s = (r, s1)" by (cases "m s")
  from m obtain evs1 where 1: "snd s1 = snd s @ evs1" "list_all P evs1"
    using ms unfolding emits_def by (metis snd_conv)
  show "\<exists>evs. snd (snd (try_except m h s)) = snd s @ evs \<and> list_all P evs \<and>
        (\<forall>e. fst (try_except m h s) = Inl e \<longrightarrow> evs \<noteq> [] \<and> Q e (last evs))"
  proof (cases r)
    case (Inr x)
    then show ?thesis using ms 1 by (auto simp: try_except_def)
  next
    case (Inl e)
    from h[of e] obtain evs2 where 2: "snd (snd (h e s1)) = snd s1 @ evs2" "list_all P evs2"
      "\<And>e'. fst (h e s1) = Inl e' \<Longrightarrow> evs2 \<noteq> [] \<and> Q e' (last evs2)"
      by (auto elim!: obeysD[where s = s1])
    show ?thesis
      apply (rule exI[of _ "evs1 @ evs2"])
      using Inl ms 1 2 by (auto simp: try_except_def)
  qed
qed

lemma obeys_seq:
  assumes "\<And>p. p \<in> set ps \<Longrightarrow> obeys P Q p"
  shows "obeys P Q (seq ps)"
  using assms by (induction ps) (auto intro: obeys_return obeys_bind)

lemma obeys_for_each:
  assumes "\<And>x. obeys P Q (body x)"
  shows "obeys P Q (for_each xs body)"
  using assms by (induction xs) (auto intro: obeys_return obeys_bind)

subsection \<open>The events of each phase\<close>

lemma permits_Returned: "permits P S \<Longrightarrow> phase_of c \<in> S \<Longrightarrow> P (Returned c)"
  by (simp add: permits_def)

lemma permits_Raised: "permits P S \<Longrightarrow> phase_of c \<in> S \<Longrightarrow> P (Raised c e)"
  by (simp add: permits_def)

lemma permits_LoggedException: "permits P S \<Longrightarrow> P (LoggedException m a e)"
  by (simp add: permits_def)

lemma permits_LoggedError: "permits P S \<Longrightarrow> P (LoggedError m a)"
  by (simp add: permits_def)

lemma permits_mono: "permits P S \<Longrightarrow> T \<subseteq> S \<Longrightarrow> permits P T"
  unfolding permits_def by blast

lemma stops_atD: "stops_at Q \<Longrightarrow> \<not> guarded c \<Longrightarrow> Q e (Raised c e)"
  by (simp add: stops_at_def)

lemma obeys_call_phase:
  assumes "permits P S" "phase_of c \<in> S" "stops_at Q" "\<not> guarded c"
  shows "obeys P Q (call c f)"
  using assms by (intro obeys_call) (simp_all add: permits_def stops_at_def)

lemma emits_call_phase:
  assumes "permits P S" "phase_of c \<in> S"
  shows "emits P (call c f)"
  using assms by (intro emits_call) (simp_all add: permits_def)

lemma obeys_logging_exception_phase:
  "permits P S \<Longrightarrow> obeys P Q (logging_exception m a e)"
  by (rule obeys_logging_exception) (simp add: permits_def)

lemma obeys_logging_error_phase:
  "permits P S \<Longrightarrow> obeys P Q (logging_error m a)"
  by (rule obeys_logging_error) (simp add: permits_def)

lemma obeys_if: "obeys P Q a \<Longrightarrow> obeys P Q b \<Longrightarrow> obeys P Q (if c then a else b)"
  by simp

lemma obeys_case_option:
  "obeys P Q a \<Longrightarrow> (\<And>x. obeys P Q (f x)) \<Longrightarrow> obeys P Q (case v of None \<Rightarrow> a | Some x \<Rightarrow> f x)"
  by (cases v) simp_all

lemma obeys_case_prod: "(\<And>a b. obeys P Q (f a b)) \<Longrightarrow> obeys P Q (case_prod f x)"
  by (cases x) simp

lemma emits_if: "emits P a \<Longrightarrow> emits P b \<Longrightarrow> emits P (if c then a else b)"
  by simp

lemmas obeys_rules = obeys_bind obeys_return obeys_if obeys_case_option obeys_case_prod
  obeys_for_each obeys_seq

lemma obeys_load_tier0_config:
  assumes "permits P {LoadConfiguration}"
  shows "obeys P Q (load_tier0_config env self)"
  unfolding load_tier0_config_def
  by (intro obeys_try_except emits_bind emits_return obeys_bind obeys_return
        obeys_logging_exception_phase[OF assms] emits_call_phase[OF assms])
     simp

lemma obeys_retrieve_hlt_config:
  assumes "permits P {ConfigureRuns}"
  shows "obeys P Q (retrieve_hlt_config env run hltkey)"
  unfolding retrieve_hlt_config_def
  by (intro obeys_try_except emits_bind emits_if emits_raise emits_return obeys_bind obeys_return
        obeys_logging_exception_phase[OF assms] emits_call_phase[OF assms])
     simp

lemma obeys_try_configureRun:
  assumes "permits P {ConfigureRuns}"
  shows "obeys P Q (try_configureRun env c run h)"
  unfolding try_configureRun_def
  by (intro obeys_try_except obeys_logging_exception_phase[OF assms] emits_call_phase[OF assms])
     simp

lemma obeys_configure_new_run:
  assumes "permits P {ConfigureRuns}"
  shows "obeys P Q (configure_new_run env c item)"
  unfolding configure_new_run_def
  by (intro obeys_rules obeys_try_configureRun[OF assms] obeys_retrieve_hlt_config[OF assms])

lemma obeys_configure_new_runs:
  assumes "permits P {ConfigureRuns}" "stops_at Q"
  shows "obeys P Q (configure_new_runs env c)"
  unfolding configure_new_runs_def
  by (intro obeys_rules obeys_configure_new_run[OF assms(1)]
        obeys_call_phase[OF assms(1) _ assms(2)]) simp_all

lemma obeys_configure_new_run_streams:
  assumes "permits P {ConfigureRunStreams}" "stops_at Q"
  shows "obeys P Q (configure_new_run_streams env self c)"
  unfolding configure_new_run_streams_def
  by (intro obeys_rules obeys_call_phase[OF assms(1) _ assms(2)]
        obeys_try_except obeys_logging_exception_phase[OF assms(1)]
        emits_call_phase[OF assms(1)]) simp_all

lemma obeys_release_express:
  assumes "permits P {ExpressRelease}" "stops_at Q"
  shows "obeys P Q (release_express env)"
  unfolding release_express_def
  by (intro obeys_rules obeys_call_phase[OF assms(1) _ assms(2)]) simp_all

lemma obeys_sync_pattern:
  assumes "permits P {DataServiceSync cat}" "stops_at Q"
  shows "obeys P Q (bind (call (DataSvcCall (Get cat)) get)
        (\<lambda>rows. if length rows > 0
                 then insert_then_update env cat (map ins rows) (map upd rows)
                 else return ()))"
  unfolding insert_then_update_def
  by (intro obeys_bind obeys_return obeys_if obeys_seq) 
     (auto intro!: obeys_call_phase[OF assms(1) _ assms(2)])

lemma obeys_feed_new_data:
  assumes "permits P {Feed}" "stops_at Q" "\<And>e. Q e (LoggedException feed_message [] e)"
  shows "obeys P Q (feed_new_data env)"
proof -
  have h: "obeys P Q (bind (logging_exception ''Can't feed data, bailing out...'' [] e)
                (\<lambda>_. raise e))" for e
    by (rule obeysI)
       (simp add: bind_def logging_exception_def raise_def permits_LoggedException[OF assms(1)]
          assms(3)[unfolded feed_message_def])
  show ?thesis
    unfolding feed_new_data_def
    by (intro obeys_bind obeys_try_except emits_bind emits_call_phase[OF assms(1)] h
          obeys_call_phase[OF assms(1) _ assms(2)]) simp_all
qed

lemma obeys_feedCouchMonitoring:
  assumes "permits P {MonitoringPublish}" "stops_at Q"
  shows "obeys P Q (feedCouchMonitoring env)"
  unfolding feedCouchMonitoring_def Let_def
  by (intro obeys_rules obeys_call_phase[OF assms(1) _ assms(2)]) simp_all

lemma obeys_updateClosedState:
  assumes "permits P {CloseoutPublish}" "stops_at Q"
  shows "obeys P Q (updateClosedState env n i)"
  unfolding updateClosedState_def
  by (intro obeys_rules obeys_call_phase[OF assms(1) _ assms(2)]) simp_all

lemma obeys_closeOutRealTimeWorkflows:
  assumes "permits P {CloseoutPublish}" "stops_at Q"
  shows "obeys P Q (closeOutRealTimeWorkflows env)"
  unfolding closeOutRealTimeWorkflows_def
  by (intro obeys_rules obeys_updateClosedState[OF assms]
        obeys_call_phase[OF assms(1) _ assms(2)]) simp_all

lemma obeys_notifyStorageManager:
  assumes "permits P {Notification}" "stops_at Q"
  shows "obeys P Q (notifyStorageManager env self)"
  unfolding notifyStorageManager_def Let_def
  by (intro obeys_rules obeys_call_phase[OF assms(1) _ assms(2)])
     (auto intro!: obeys_logging_error_phase[OF assms(1)])

lemma bind_return_left: "bind (return x) k = k x"
  by (rule ext) (simp add: bind_def return_def)

lemma bind_assoc: "bind (bind m k) h = bind m (\<lambda>x. bind (k x) h)"
  by (rule ext) (simp add: bind_def split: prod.splits sum.splits)

lemma seq_append: "seq (ps @ qs) = bind (seq ps) (\<lambda>_. seq qs)"
  by (induction ps) (simp_all add: bind_return_left bind_assoc)

lemma algorithm_split:
  "algorithm env self =
     bind (up_to_feed env self) (\<lambda>_.
       bind (feed_new_data env) (\<lambda>_. seq (phases_after_feed env self)))"
proof -
  have "seq (configure_phases env self c # phases_before_feed env self c @
             feed_new_data env # phases_after_feed env self) =
        bind (seq (configure_phases env self c # phases_before_feed env self c))
          (\<lambda>_. bind (feed_new_data env) (\<lambda>_. seq (phases_after_feed env self)))" for c
    using seq_append[of "configure_phases env self c # phases_before_feed env self c"
                        "feed_new_data env # phases_after_feed env self"]
    by simp
  then show ?thesis
    unfolding algorithm_def up_to_feed_def by (simp add: bind_assoc)
qed

lemma obeys_updateRunStreamDoneT0DataSvc:
  "permits P {DataServiceSync RunStreamDone} \<Longrightarrow> stops_at Q \<Longrightarrow>
   obeys P Q (updateRunStreamDoneT0DataSvc env)"
  unfolding updateRunStreamDoneT0DataSvc_def Let_def by (rule obeys_sync_pattern)

lemma obeys_updateExpressConfigsT0DataSvc:
  "permits P {DataServiceSync ExpressConfigs} \<Longrightarrow> stops_at Q \<Longrightarrow>
   obeys P Q (updateExpressConfigsT0DataSvc env)"
  unfolding updateExpressConfigsT0DataSvc_def by (rule obeys_sync_pattern)

lemma obeys_updateRecoConfigsT0DataSvc:
  "permits P {DataServiceSync RecoConfigs} \<Longrightarrow> stops_at Q \<Longrightarrow>
   obeys P Q (updateRecoConfigsT0DataSvc env)"
  unfolding updateRecoConfigsT0DataSvc_def by (rule obeys_sync_pattern)

lemma obeys_updateRecoReleaseConfigsT0DataSvc:
  "permits P {DataServiceSync RecoReleaseConfigs} \<Longrightarrow> stops_at Q \<Longrightarrow>
   obeys P Q (updateRecoReleaseConfigsT0DataSvc env)"
  unfolding updateRecoReleaseConfigsT0DataSvc_def by (rule obeys_sync_pattern)

lemma obeys_lockDatasetsT0DataSvc:
  "permits P {DataServiceSync DatasetLocked} \<Longrightarrow> stops_at Q \<Longrightarrow>
   obeys P Q (lockDatasetsT0DataSvc env)"
  unfolding lockDatasetsT0DataSvc_def by (rule obeys_sync_pattern)

lemma obeys_up_to_feed:
  assumes p: "permits P (UNIV - {InjectionMarking, Notification, Feed})"
    and m: "P (Returned (FeederCall (MarkWorkflowsInjected (transferSystemBaseDir self \<noteq> None))))"
           "\<And>e. P (Raised (FeederCall (MarkWorkflowsInjected (transferSystemBaseDir self \<noteq> None))) e)"
    and q: "stops_at Q"
  shows "obeys P Q (up_to_feed env self)"
proof -
  have ph: "permits P {x}" if "x \<notin> {InjectionMarking, Notification, Feed}" for x
    using p that by (intro permits_mono[OF p]) auto
  have i: "obeys P Q (call (FeederCall (MarkWorkflowsInjected (transferSystemBaseDir self \<noteq> None))) f)"
    for f :: "('a, unit) action"
    using m q by (intro obeys_call) (simp_all add: stops_at_def)
  show ?thesis
    unfolding up_to_feed_def configure_phases_def phases_before_feed_def seq.simps
    by (intro obeys_rules i obeys_load_tier0_config obeys_configure_new_runs
          obeys_configure_new_run_streams obeys_release_express
          obeys_updateRunStreamDoneT0DataSvc obeys_updateExpressConfigsT0DataSvc
          obeys_updateRecoConfigsT0DataSvc obeys_updateRecoReleaseConfigsT0DataSvc
          obeys_lockDatasetsT0DataSvc obeys_call_phase[OF p _ q] ph q)
       simp_all
qed

lemma obeys_after_feed:
  assumes p: "permits P (UNIV - {InjectionMarking, Notification, Feed})"
    and n: "transferSystemBaseDir self \<noteq> None \<Longrightarrow> permits P {Notification}"
    and q: "stops_at Q"
  shows "obeys P Q (seq (phases_after_feed env self))"
proof -
  have ph: "permits P {x}" if "x \<notin> {InjectionMarking, Notification, Feed}" for x
    using p that by (intro permits_mono[OF p]) auto
  have nt: "obeys P Q (if transferSystemBaseDir self \<noteq> None
                        then notifyStorageManager env self else return ())"
    using n q by (auto intro: obeys_notifyStorageManager obeys_return)
  show ?thesis
    unfolding phases_after_feed_def seq.simps
    by (intro obeys_bind obeys_return nt obeys_feedCouchMonitoring
          obeys_closeOutRealTimeWorkflows obeys_call_phase[OF p _ q] ph q)
       simp_all
qed

lemma obeys_algorithm:
  assumes p: "permits P (UNIV - {InjectionMarking, Notification})"
    and m: "P (Returned (FeederCall (MarkWorkflowsInjected (transferSystemBaseDir self \<noteq> None))))"
           "\<And>e. P (Raised (FeederCall (MarkWorkflowsInjected (transferSystemBaseDir self \<noteq> None))) e)"
    and n: "transferSystemBaseDir self \<noteq> None \<Longrightarrow> permits P {Notification}"
    and q: "stops_at Q" "\<And>e. Q e (LoggedException feed_message [] e)"
  shows "obeys P Q (algorithm env self)"
proof -
  have p': "permits P (UNIV - {InjectionMarking, Notification, Feed})"
    by (rule permits_mono[OF p]) auto
  have f: "permits P {Feed}" by (rule permits_mono[OF p]) auto
  show ?thesis
    unfolding algorithm_split
    by (intro obeys_bind obeys_up_to_feed[OF p' m q(1)] obeys_feed_new_data[OF f q]
          obeys_after_feed[OF p' n q(1)])
qed

lemma calls_of_list_all:
  "list_all (\<lambda>ev. list_all R (calls_of [ev])) evs \<Longrightarrow> list_all R (calls_of evs)"
  by (induction evs rule: calls_of.induct) simp_all

lemma permits_no_transfer: "permits no_transfer (UNIV - {InjectionMarking, Notification})"
  unfolding permits_def no_transfer_def by auto

lemma permits_outside_feed: "permits outside_feed (UNIV - {InjectionMarking, Notification, Feed})"
  unfolding permits_def outside_feed_def by auto

lemma permits_outside_feed_Notification: "permits outside_feed {Notification}"
  unfolding permits_def outside_feed_def by auto

lemma init_transferSystemBaseDir:
  "transferSystemBaseDir (init config path_exists) =
     (case cfg_transferSystemBaseDir config of
        None \<Rightarrow> None | Some d \<Rightarrow> if path_exists d then Some d else None)"
  by (simp add: init_def split: option.splits)

lemma no_transfer_algorithm:
  assumes "transferSystemBaseDir self = None"
  shows "list_all (\<lambda>c. phase_of c \<noteq> Notification \<and> c \<noteq> FeederCall (MarkWorkflowsInjected True))
           (calls_of (trace_of (algorithm env self) (w, [])))"
proof -
  have "obeys no_transfer (\<lambda>e ev. True) (algorithm env self)"
    by (rule obeys_algorithm[OF permits_no_transfer])
       (simp_all add: assms no_transfer_def stops_at_def)
  then obtain evs where "snd (snd (algorithm env self (w, []))) = snd (w, []) @ evs"
    "list_all no_transfer evs"
    unfolding obeys_def by blast
  then have "list_all no_transfer (trace_of (algorithm env self) (w, []))"
    by (simp add: trace_of_def)
  then show ?thesis
    unfolding no_transfer_def by (rule calls_of_list_all)
qed

lemma feed_new_data_cases:
  fixes s :: "'w state"
  obtains (begin_raised) e w' where
      "feed_new_data env s =
         (Inl e, (w', snd s @ [Raised (ServiceCall TransactionBegin) e,
                               LoggedException feed_message [] e]))"
  | (feed_raised) e w' where
      "feed_new_data env s =
         (Inl e, (w', snd s @ [Returned (ServiceCall TransactionBegin),
                               Raised (FeederCall FeedStreamers) e,
                               LoggedException feed_message [] e]))"
  | (commit_raised) e w' where
      "feed_new_data env s =
         (Inl e, (w', snd s @ [Returned (ServiceCall TransactionBegin),
                               Returned (FeederCall FeedStreamers),
                               Raised (ServiceCall TransactionCommit) e]))"
  | (committed) w' where
      "feed_new_data env s =
         (Inr (), (w', snd s @ [Returned (ServiceCall TransactionBegin),
                                Returned (FeederCall FeedStreamers),
                                Returned (ServiceCall TransactionCommit)]))"
proof -
  obtain r1 w1 where b: "transactionBegin (Services env) (fst s) = (r1, w1)"
    by (cases "transactionBegin (Services env) (fst s)")
  obtain r2 w2 where f: "feedStreamers (Tier0Feeder env) w1 = (r2, w2)"
    by (cases "feedStreamers (Tier0Feeder env) w1")
  obtain r3 w3 where c: "transactionCommit (Services env) w2 = (r3, w3)"
    by (cases "transactionCommit (Services env) w2")
  show ?thesis
  proof (cases r1)
    case (Inl e)
    with b show ?thesis
      by (intro begin_raised[of e w1])
         (simp add: feed_new_data_def feed_message_def monad_defs)
  next
    case r1: (Inr u)
    show ?thesis
    proof (cases r2)
      case (Inl e)
      with b f r1 show ?thesis
        by (intro feed_raised[of e w2])
           (simp add: feed_new_data_def feed_message_def monad_defs)
    next
      case r2: (Inr v)
      show ?thesis
      proof (cases r3)
        case (Inl e)
        with b f c r1 r2 show ?thesis
          by (intro commit_raised[of e w3])
             (simp add: feed_new_data_def feed_message_def monad_defs)
      next
        case (Inr x)
        with b f c r1 r2 show ?thesis
          by (intro committed[of w3])
             (simp add: feed_new_data_def feed_message_def monad_defs)
      qed
    qed
  qed
qed

lemma outside_feed_facts:
  assumes "list_all outside_feed evs"
  shows "Raised (FeederCall FeedStreamers) e \<notin> set evs"
    and "Returned (FeederCall FeedStreamers) \<notin> set evs"
    and "ServiceCall TransactionCommit \<notin> set (calls_of evs)"
proof -
  show "Raised (FeederCall FeedStreamers) e \<notin> set evs"
    using assms by (auto simp: list_all_iff outside_feed_def)
  show "Returned (FeederCall FeedStreamers) \<notin> set evs"
    using assms by (auto simp: list_all_iff outside_feed_def)
  from assms have "list_all (\<lambda>c. phase_of c \<noteq> Feed) (calls_of evs)"
    unfolding outside_feed_def by (rule calls_of_list_all)
  then show "ServiceCall TransactionCommit \<notin> set (calls_of evs)"
    by (auto simp: list_all_iff)
qed

lemma algorithm_cases:
  fixes w :: 'w
  obtains (early) e w' evs1 where
      "algorithm env self (w, []) = (Inl e, (w', evs1))" "list_all outside_feed evs1"
  | (begin_raised) e w' evs1 where
      "algorithm env self (w, []) =
         (Inl e, (w', evs1 @ [Raised (ServiceCall TransactionBegin) e,
                              LoggedException feed_message [] e]))"
      "list_all outside_feed evs1"
  | (feed_raised) e w' evs1 where
      "algorithm env self (w, []) =
         (Inl e, (w', evs1 @ [Returned (ServiceCall TransactionBegin),
                              Raised (FeederCall FeedStreamers) e,
                              LoggedException feed_message [] e]))"
      "list_all outside_feed evs1"
  | (commit_raised) e w' evs1 where
      "algorithm env self (w, []) =
         (Inl e, (w', evs1 @ [Returned (ServiceCall TransactionBegin),
                              Returned (FeederCall FeedStreamers),
                              Raised (ServiceCall TransactionCommit) e]))"
      "list_all outside_feed evs1"
  | (committed) r w' evs1 evs3 where
      "algorithm env self (w, []) =
         (r, (w', evs1 @ [Returned (ServiceCall TransactionBegin),
                          Returned (FeederCall FeedStreamers),
                          Returned (ServiceCall TransactionCommit)] @ evs3))"
      "list_all outside_feed evs1" "list_all outside_feed evs3"
proof -
  have o1: "obeys outside_feed (\<lambda>e ev. True) (up_to_feed env self)"
    by (rule obeys_up_to_feed[OF permits_outside_feed])
       (simp_all add: outside_feed_def stops_at_def)
  have o3: "obeys outside_feed (\<lambda>e ev. True) (seq (phases_after_feed env self))"
    by (rule obeys_after_feed[OF permits_outside_feed permits_outside_feed_Notification])
       (simp add: stops_at_def)
  obtain r1 w1 tr1 where pre: "up_to_feed env self (w, []) = (r1, (w1, tr1))"
    by (metis surj_pair)
  from o1 have 1: "list_all outside_feed tr1"
    using pre by (auto elim!: obeysD[where s = "(w, [])"])
  show ?thesis
  proof (cases r1)
    case (Inl e)
    with pre have "algorithm env self (w, []) = (Inl e, (w1, tr1))"
      by (simp add: algorithm_split bind_def)
    then show ?thesis using 1 by (rule early)
  next
    case r1: (Inr u)
    have step: "algorithm env self (w, []) =
       bind (feed_new_data env) (\<lambda>_. seq (phases_after_feed env self)) (w1, tr1)"
      using pre r1 by (simp add: algorithm_split bind_def)
    show ?thesis
    proof (cases rule: feed_new_data_cases[of env "(w1, tr1)"])
      case (begin_raised e w')
      then show ?thesis using step 1
        by (intro that(2)[of e w' tr1]) (simp_all add: bind_def)
    next
      case (feed_raised e w')
      then show ?thesis using step 1
        by (intro that(3)[of e w' tr1]) (simp_all add: bind_def)
    next
      case (commit_raised e w')
      then show ?thesis using step 1
        by (intro that(4)[of e w' tr1]) (simp_all add: bind_def)
    next
      case (committed w')
      let ?s2 = "(w', tr1 @ [Returned (ServiceCall TransactionBegin),
                             Returned (FeederCall FeedStreamers),
                             Returned (ServiceCall TransactionCommit)])"
      obtain r3 w3 tr3 where post: "seq (phases_after_feed env self) ?s2 = (r3, (w3, tr3))"
        by (metis surj_pair)
      from o3 obtain evs3 where 3: "tr3 = snd ?s2 @ evs3" "list_all outside_feed evs3"
        using post by (auto elim!: obeysD[where s = ?s2])
      have "algorithm env self (w, []) = (r3, (w3, tr3))"
        using step committed post by (simp add: bind_def)
      then show ?thesis using 1 3
        by (intro that(5)[of r3 w3 tr1 evs3]) simp_all
    qed
  qed
qed

subsection \<open>The cycle on the example collaborators\<close>

lemmas algorithm_defs = algorithm_def load_tier0_config_def configure_phases_def
  phases_before_feed_def phases_after_feed_def configure_new_runs_def
  configure_new_run_streams_def release_express_def feed_new_data_def
  feedCouchMonitoring_def closeOutRealTimeWorkflows_def notifyStorageManager_def
  updateRunStreamDoneT0DataSvc_def updateExpressConfigsT0DataSvc_def
  updateRecoConfigsT0DataSvc_def updateRecoReleaseConfigsT0DataSvc_def
  lockDatasetsT0DataSvc_def insert_then_update_def chunks_def range_step_def

lemma algorithm_env_feed_fails:
  "algorithm env_feed_fails poller_with_transfer ((), []) =
     (Inl (DatabaseError ''ORA-00060''), ((),
      [Returned (ServiceCall (LoadConfigurationFile ''/data/tier0/ProdOfflineConfiguration.py'')),
       Returned (FeederCall FindNewRuns),
       Returned (FeederCall FindNewRunStreams),
       Returned (CloseoutCall StopRuns),
       Returned (CloseoutCall CloseRuns),
       Returned (FeederCall FindNewExpressRuns),
       Returned (RunConfigCall (ReleasePromptReco
         (Some (Configuration ''/data/tier0/ProdOfflineConfiguration.py''))
         ''/data/tier0/specs'' None)),
       Returned (DataSvcCall (Get RunStreamDone)),
       Returned (DataSvcCall (Get ExpressConfigs)),
       Returned (DataSvcCall (Get RecoConfigs)),
       Returned (DataSvcCall (Get RecoReleaseConfigs)),
       Returned (DataSvcCall (Get DatasetLocked)),
       Returned (FeederCall (MarkWorkflowsInjected True)),
       Returned (CloseoutCall CloseLumiSections),
       Returned (ServiceCall TransactionBegin),
       Raised (FeederCall FeedStreamers) (DatabaseError ''ORA-00060''),
       LoggedException feed_message [] (DatabaseError ''ORA-00060'')]))"
  by (simp add: algorithm_defs monad_defs example_env_defs env_feed_fails_def
      poller_with_transfer_def feed_message_def)

lemma algorithm_missing_dir:
  "calls_of (trace_of (algorithm quiet_env (init config_missing_dir (\<lambda>p. False))) ((), [])) =
      [ServiceCall (LoadConfigurationFile ''/data/tier0/ProdOfflineConfiguration.py''),
       FeederCall FindNewRuns,
       FeederCall FindNewRunStreams,
       CloseoutCall StopRuns,
       CloseoutCall CloseRuns,
       FeederCall FindNewExpressRuns,
       RunConfigCall (ReleasePromptReco
         (Some (Configuration ''/data/tier0/ProdOfflineConfiguration.py''))
         ''/data/tier0/specs'' None),
       FeederCall (MarkWorkflowsInjected False),
       CloseoutCall CloseLumiSections,
       ServiceCall TransactionBegin,
       FeederCall FeedStreamers,
       ServiceCall TransactionCommit,
       CloseoutCall CloseRunStreamFilesets,
       CloseoutCall CheckActiveSplitLumis,
       MonitoringCall GetStreamerWorkflowsForMonitoring,
       MonitoringCall GetPromptRecoWorkflowsForMonitoring,
       MonitoringCall GetNotClosedOutWorkflows,
       ServiceCall (UploadConditions None None None)]"
  by (simp add: algorithm_defs monad_defs example_env_defs init_def config_missing_dir_def)

subsection \<open>Claim C5\<close>

text \<open>
  C5: for every cycle, whatever the collaborators do. If \<open>feedStreamersDAO.execute\<close> raises
  \<open>e\<close>, the cycle raises \<open>e\<close>, the transaction is not committed, and the trace ends with
  that raise and the logging of the exception, so nothing of a later phase runs. The
  commit is called exactly when the feed call has returned. And the handler of the feed is
  the only one that ends the cycle: a cycle that raises \<open>e'\<close> ends either with a call
  outside every \<^verbatim>\<open>try\<close> block raising \<open>e'\<close>, or with the feed handler logging \<open>e'\<close>; the
  handlers of the configuration phases never end it.
\<close>

theorem feed_failure_aborts_without_commit:
  "(Raised (FeederCall FeedStreamers) e \<in> set (trace_of (algorithm env self) (w, [])) \<longrightarrow>
      result_of (algorithm env self) (w, []) = Inl e \<and>
      ServiceCall TransactionCommit \<notin> set (calls_of (trace_of (algorithm env self) (w, []))) \<and>
      (\<exists>tr0. trace_of (algorithm env self) (w, []) =
               tr0 @ [Raised (FeederCall FeedStreamers) e, LoggedException feed_message [] e])) \<and>
   (ServiceCall TransactionCommit \<in> set (calls_of (trace_of (algorithm env self) (w, []))) \<longleftrightarrow>
      Returned (FeederCall FeedStreamers) \<in> set (trace_of (algorithm env self) (w, []))) \<and>
   (result_of (algorithm env self) (w, []) = Inl e' \<longrightarrow>
      trace_of (algorithm env self) (w, []) \<noteq> [] \<and>
      abort_event e' (last (trace_of (algorithm env self) (w, []))))"
proof (intro conjI)
  show "Raised (FeederCall FeedStreamers) e \<in> set (trace_of (algorithm env self) (w, [])) \<longrightarrow>
      result_of (algorithm env self) (w, []) = Inl e \<and>
      ServiceCall TransactionCommit \<notin> set (calls_of (trace_of (algorithm env self) (w, []))) \<and>
      (\<exists>tr0. trace_of (algorithm env self) (w, []) =
               tr0 @ [Raised (FeederCall FeedStreamers) e, LoggedException feed_message [] e])"
  proof (cases rule: algorithm_cases[of env self w])
    case (early e1 w' evs1)
    then show ?thesis
      using outside_feed_facts(1)[OF early(2)] by (simp add: trace_of_def)
  next
    case (begin_raised e1 w' evs1)
    then show ?thesis
      using outside_feed_facts(1)[OF begin_raised(2)] by (simp add: trace_of_def)
  next
    case (feed_raised e1 w' evs1)
    then show ?thesis
      using outside_feed_facts(1,3)[OF feed_raised(2)]
      by (auto simp: trace_of_def result_of_def calls_of_append)
  next
    case (commit_raised e1 w' evs1)
    then show ?thesis
      using outside_feed_facts(1)[OF commit_raised(2)] by (simp add: trace_of_def)
  next
    case (committed r w' evs1 evs3)
    then show ?thesis
      using outside_feed_facts(1)[OF committed(2)] outside_feed_facts(1)[OF committed(3)]
      by (simp add: trace_of_def)
  qed
next
  show "ServiceCall TransactionCommit \<in> set (calls_of (trace_of (algorithm env self) (w, []))) \<longleftrightarrow>
      Returned (FeederCall FeedStreamers) \<in> set (trace_of (algorithm env self) (w, []))"
  proof (cases rule: algorithm_cases[of env self w])
    case (early e1 w' evs1)
    then show ?thesis
      using outside_feed_facts(2,3)[OF early(2)] by (simp add: trace_of_def)
  next
    case (begin_raised e1 w' evs1)
    then show ?thesis
      using outside_feed_facts(2,3)[OF begin_raised(2)]
      by (simp add: trace_of_def calls_of_append)
  next
    case (feed_raised e1 w' evs1)
    then show ?thesis
      using outside_feed_facts(2,3)[OF feed_raised(2)]
      by (simp add: trace_of_def calls_of_append)
  next
    case (commit_raised e1 w' evs1)
    then show ?thesis
      by (simp add: trace_of_def calls_of_append)
  next
    case (committed r w' evs1 evs3)
    then show ?thesis
      by (simp add: trace_of_def calls_of_append)
  qed
next
  have "obeys (\<lambda>ev. True) abort_event (algorithm env self)"
    by (rule obeys_algorithm)
       (simp_all add: permits_def stops_at_def abort_event_def)
  then obtain evs where "snd (snd (algorithm env self (w, []))) = snd (w, []) @ evs"
    "\<And>e. fst (algorithm env self (w, [])) = Inl e \<Longrightarrow> evs \<noteq> [] \<and> abort_event e (last evs)"
    unfolding obeys_def by blast
  then show "result_of (algorithm env self) (w, []) = Inl e' \<longrightarrow>
      trace_of (algorithm env self) (w, []) \<noteq> [] \<and>
      abort_event e' (last (trace_of (algorithm env self) (w, [])))"
    by (simp add: trace_of_def result_of_def)
qed

text \<open>A cycle whose feed fails with a database error.\<close>

theorem feed_failure_aborts_without_commit_witness:
  "trace_of (algorithm env_feed_fails poller_with_transfer) ((), []) =
      [Returned (ServiceCall (LoadConfigurationFile ''/data/tier0/ProdOfflineConfiguration.py'')),
       Returned (FeederCall FindNewRuns),
       Returned (FeederCall FindNewRunStreams),
       Returned (CloseoutCall StopRuns),
       Returned (CloseoutCall CloseRuns),
       Returned (FeederCall FindNewExpressRuns),
       Returned (RunConfigCall (ReleasePromptReco
         (Some (Configuration ''/data/tier0/ProdOfflineConfiguration.py''))
         ''/data/tier0/specs'' None)),
       Returned (DataSvcCall (Get RunStreamDone)),
       Returned (DataSvcCall (Get ExpressConfigs)),
       Returned (DataSvcCall (Get RecoConfigs)),
       Returned (DataSvcCall (Get RecoReleaseConfigs)),
       Returned (DataSvcCall (Get DatasetLocked)),
       Returned (FeederCall (MarkWorkflowsInjected True)),
       Returned (CloseoutCall CloseLumiSections),
       Returned (ServiceCall TransactionBegin),
       Raised (FeederCall FeedStreamers) (DatabaseError ''ORA-00060''),
       LoggedException feed_message [] (DatabaseError ''ORA-00060'')] \<and>
   Raised (FeederCall FeedStreamers) (DatabaseError ''ORA-00060'') \<in>
     set (trace_of (algorithm env_feed_fails poller_with_transfer) ((), [])) \<and>
   result_of (algorithm env_feed_fails poller_with_transfer) ((), []) =
     Inl (DatabaseError ''ORA-00060'') \<and>
   ServiceCall TransactionCommit \<notin>
     set (calls_of (trace_of (algorithm env_feed_fails poller_with_transfer) ((), []))) \<and>
   Returned (FeederCall FeedStreamers) \<notin>
     set (trace_of (algorithm env_feed_fails poller_with_transfer) ((), [])) \<and>
   abort_event (DatabaseError ''ORA-00060'')
     (last (trace_of (algorithm env_feed_fails poller_with_transfer) ((), [])))"
proof -
  note t = feed_failure_aborts_without_commit [of "DatabaseError ''ORA-00060''" env_feed_fails poller_with_transfer "()"
                      "DatabaseError ''ORA-00060''"]
  have tr: "trace_of (algorithm env_feed_fails poller_with_transfer) ((), []) =
      [Returned (ServiceCall (LoadConfigurationFile ''/data/tier0/ProdOfflineConfiguration.py'')),
       Returned (FeederCall FindNewRuns),
       Returned (FeederCall FindNewRunStreams),
       Returned (CloseoutCall StopRuns),
       Returned (CloseoutCall CloseRuns),
       Returned (FeederCall FindNewExpressRuns),
       Returned (RunConfigCall (ReleasePromptReco
         (Some (Configuration ''/data/tier0/ProdOfflineConfiguration.py''))
         ''/data/tier0/specs'' None)),
       Returned (DataSvcCall (Get RunStreamDone)),
       Returned (DataSvcCall (Get ExpressConfigs)),
       Returned (DataSvcCall (Get RecoConfigs)),
       Returned (DataSvcCall (Get RecoReleaseConfigs)),
       Returned (DataSvcCall (Get DatasetLocked)),
       Returned (FeederCall (MarkWorkflowsInjected True)),
       Returned (CloseoutCall CloseLumiSections),
       Returned (ServiceCall TransactionBegin),
       Raised (FeederCall FeedStreamers) (DatabaseError ''ORA-00060''),
       LoggedException feed_message [] (DatabaseError ''ORA-00060'')]"
    by (simp add: trace_of_def algorithm_env_feed_fails)
  have m: "Raised (FeederCall FeedStreamers) (DatabaseError ''ORA-00060'') \<in>
     set (trace_of (algorithm env_feed_fails poller_with_transfer) ((), []))"
    unfolding tr by simp
  from t m have r: "result_of (algorithm env_feed_fails poller_with_transfer) ((), []) =
     Inl (DatabaseError ''ORA-00060'')"
    and c: "ServiceCall TransactionCommit \<notin>
     set (calls_of (trace_of (algorithm env_feed_fails poller_with_transfer) ((), [])))"
    by blast+
  from t c have f: "Returned (FeederCall FeedStreamers) \<notin>
     set (trace_of (algorithm env_feed_fails poller_with_transfer) ((), []))"
    by blast
  from t r have a: "abort_event (DatabaseError ''ORA-00060'')
     (last (trace_of (algorithm env_feed_fails poller_with_transfer) ((), [])))"
    by blast
  from tr m r c f a show ?thesis by blast
qed

subsection \<open>Claim C10\<close>

text \<open>
  C10: when the transfer system directory is not configured, or is configured and does not
  exist at construction, the poller has no transfer system directory; then in every cycle,
  whatever the collaborators do, no call of the notification phase is made and the
  injection marking is never called with flag \<open>True\<close>. A cycle makes a call of the
  notification phase only if the directory is configured and existed at construction.
\<close>

theorem missing_transfer_dir_is_unconfigured:
  "((cfg_transferSystemBaseDir config = None \<or>
     (\<exists>d. cfg_transferSystemBaseDir config = Some d \<and> \<not> path_exists d)) \<longrightarrow>
      transferSystemBaseDir (init config path_exists) = None \<and>
      list_all (\<lambda>c. phase_of c \<noteq> Notification \<and> c \<noteq> FeederCall (MarkWorkflowsInjected True))
        (calls_of (trace_of (algorithm env (init config path_exists)) (w, [])))) \<and>
   ((\<exists>c \<in> set (calls_of (trace_of (algorithm env (init config path_exists)) (w, []))).
        phase_of c = Notification) \<longrightarrow>
      (\<exists>d. cfg_transferSystemBaseDir config = Some d \<and> path_exists d \<and>
           transferSystemBaseDir (init config path_exists) = Some d))"
proof (intro conjI impI)
  assume a: "cfg_transferSystemBaseDir config = None \<or>
     (\<exists>d. cfg_transferSystemBaseDir config = Some d \<and> \<not> path_exists d)"
  then show n: "transferSystemBaseDir (init config path_exists) = None"
    by (auto simp: init_transferSystemBaseDir)
  show "list_all (\<lambda>c. phase_of c \<noteq> Notification \<and> c \<noteq> FeederCall (MarkWorkflowsInjected True))
        (calls_of (trace_of (algorithm env (init config path_exists)) (w, [])))"
    by (rule no_transfer_algorithm[OF n])
next
  assume b: "\<exists>c \<in> set (calls_of (trace_of (algorithm env (init config path_exists)) (w, []))).
        phase_of c = Notification"
  have "transferSystemBaseDir (init config path_exists) \<noteq> None"
  proof
    assume "transferSystemBaseDir (init config path_exists) = None"
    from no_transfer_algorithm[OF this, of env w] b show False
      by (auto simp: list_all_iff)
  qed
  then show "\<exists>d. cfg_transferSystemBaseDir config = Some d \<and> path_exists d \<and>
           transferSystemBaseDir (init config path_exists) = Some d"
    by (auto simp: init_transferSystemBaseDir split: option.splits if_splits)
qed

text \<open>A configured directory that does not exist: the marking is called with \<open>False\<close>.\<close>

theorem missing_transfer_dir_is_unconfigured_witness:
  "cfg_transferSystemBaseDir config_missing_dir = Some ''/data/TransferSystem'' \<and>
   transferSystemBaseDir (init config_missing_dir (\<lambda>p. False)) = None \<and>
   list_all (\<lambda>c. phase_of c \<noteq> Notification \<and> c \<noteq> FeederCall (MarkWorkflowsInjected True))
     (calls_of (trace_of (algorithm quiet_env (init config_missing_dir (\<lambda>p. False))) ((), []))) \<and>
   FeederCall (MarkWorkflowsInjected False) \<in>
     set (calls_of (trace_of (algorithm quiet_env (init config_missing_dir (\<lambda>p. False))) ((), [])))"
proof -
  have c: "cfg_transferSystemBaseDir config_missing_dir = Some ''/data/TransferSystem''"
    by (simp add: config_missing_dir_def)
  then have "cfg_transferSystemBaseDir config_missing_dir = None \<or>
     (\<exists>d. cfg_transferSystemBaseDir config_missing_dir = Some d \<and> \<not> (\<lambda>p. False) d)"
    by simp
  with missing_transfer_dir_is_unconfigured [of config_missing_dir "\<lambda>p. False" quiet_env "()"]
  have "transferSystemBaseDir (init config_missing_dir (\<lambda>p. False)) = None \<and>
   list_all (\<lambda>c. phase_of c \<noteq> Notification \<and> c \<noteq> FeederCall (MarkWorkflowsInjected True))
     (calls_of (trace_of (algorithm quiet_env (init config_missing_dir (\<lambda>p. False))) ((), [])))"
    by blast
  moreover have "FeederCall (MarkWorkflowsInjected False) \<in>
     set (calls_of (trace_of (algorithm quiet_env (init config_missing_dir (\<lambda>p. False))) ((), [])))"
    unfolding algorithm_missing_dir by simp
  ultimately show ?thesis using c by blast
qed

subsection \<open>The configuration of new runs\<close>

lemma configure_new_run_calls:
  assumes hlt: "\<forall>k w. fst (getHLTConfig (Services env) k w) = hlt k"
  shows "\<exists>w' evs. configure_new_run env tier0Config item s = (Inr (), (w', snd s @ evs)) \<and>
           calls_of evs = calls_for_new_run tier0Config hlt item"
proof -
  have cr: "\<exists>w' evs. try_configureRun env tier0Config run h s' = (Inr (), (w', snd s' @ evs)) \<and>
              calls_of evs = [RunConfigCall (ConfigureRun tier0Config run h)]"
    for run h and s' :: "'a state"
  proof -
    obtain r w1 where c: "configureRun (RunConfigAPI env) tier0Config run h (fst s') = (r, w1)"
      by (cases "configureRun (RunConfigAPI env) tier0Config run h (fst s')")
    show ?thesis using c by (cases r) (simp_all add: try_configureRun_def monad_defs)
  qed
  show ?thesis
  proof (cases "snd item")
    case None
    with cr[of "fst item" None s] show ?thesis
      by (simp add: configure_new_run_def calls_for_new_run_def)
  next
    case (Some hltkey)
    obtain r w1 where g: "getHLTConfig (Services env) hltkey (fst s) = (r, w1)"
      by (cases "getHLTConfig (Services env) hltkey (fst s)")
    with hlt have r: "hlt hltkey = r" by (metis fst_conv)
    show ?thesis
    proof (cases r)
      case (Inl e)
      with g r Some show ?thesis
        by (simp add: configure_new_run_def retrieve_hlt_config_def calls_for_new_run_def
              monad_defs)
    next
      case (Inr hltConfig)
      show ?thesis
      proof (cases "invalid_hlt_config hltConfig")
        case True
        with g r Some Inr show ?thesis
          by (simp add: configure_new_run_def retrieve_hlt_config_def calls_for_new_run_def
                monad_defs invalid_hlt_config_def)
      next
        case False
        let ?s1 = "(w1, snd s @ [Returned (ServiceCall (GetHLTConfig hltkey))])"
        from cr[of "fst item" "Some hltConfig" ?s1] obtain w' evs where
          c: "try_configureRun env tier0Config (fst item) (Some hltConfig) ?s1 =
                (Inr (), (w', snd ?s1 @ evs))"
             "calls_of evs = [RunConfigCall (ConfigureRun tier0Config (fst item) (Some hltConfig))]"
          by blast
        have "configure_new_run env tier0Config item s =
                (Inr (), (w', snd s @ Returned (ServiceCall (GetHLTConfig hltkey)) # evs))"
          using g Some Inr False c(1)
          by (auto simp: configure_new_run_def retrieve_hlt_config_def monad_defs
                invalid_hlt_config_def)
        moreover have "calls_of (Returned (ServiceCall (GetHLTConfig hltkey)) # evs) =
                calls_for_new_run tier0Config hlt item"
          using Some r Inr False c(2) by (simp add: calls_for_new_run_def)
        ultimately show ?thesis by blast
      qed
    qed
  qed
qed

lemma configured_runs_of_calls:
  assumes "calls_of tr = c0 # concat (map (calls_for_new_run tier0Config hlt) items)"
    and "c0 = FeederCall FindNewRuns"
  shows "configured_runs tr = map fst (filter (\<lambda>item. configurable hlt (snd item)) items)"
  unfolding configured_runs_def assms
  by (induction items)
     (auto simp: calls_for_new_run_def configurable_def split: option.splits sum.splits)

subsection \<open>Claim C9\<close>

text \<open>
  C9: the configuration of new runs, when \<^verbatim>\<open>findNewRuns\<close> has returned \<open>runHltkeys\<close> and
  the HLT configuration database answers by key, whatever \<^verbatim>\<open>configureRun\<close> does. The loop
  returns normally; it goes through the runs in ascending order and makes, for each of
  them, the calls of \<open>calls_for_new_run\<close>, so a failed query, a rejected configuration or
  a \<^verbatim>\<open>configureRun\<close> that raises stops no later run; and \<^verbatim>\<open>configureRun\<close> is called for a
  run exactly when the run is local or its key gives a configuration that has a process
  (is not \<^verbatim>\<open>None\<close>) and a mapping with at least one entry.
\<close>

theorem new_runs_configured_unless_hlt_invalid:
  assumes find: "findNewRuns (Tier0Feeder env) w = (Inr runHltkeys, w1)"
    and hlt: "\<forall>k w. fst (getHLTConfig (Services env) k w) = hlt k"
  shows "result_of (configure_new_runs env tier0Config) (w, []) = Inr () \<and>
     calls_of (trace_of (configure_new_runs env tier0Config) (w, [])) =
       FeederCall FindNewRuns #
       concat (map (calls_for_new_run tier0Config hlt) (sort_key fst runHltkeys)) \<and>
     configured_runs (trace_of (configure_new_runs env tier0Config) (w, [])) =
       map fst (filter (\<lambda>item. configurable hlt (snd item)) (sort_key fst runHltkeys)) \<and>
     sorted (configured_runs (trace_of (configure_new_runs env tier0Config) (w, []))) \<and>
     (run \<in> set (configured_runs (trace_of (configure_new_runs env tier0Config) (w, []))) \<longleftrightarrow>
        (\<exists>key. (run, key) \<in> set runHltkeys \<and> configurable hlt key))"
proof -
  let ?items = "sort_key fst runHltkeys"
  let ?s1 = "(w1, [Returned (FeederCall FindNewRuns)])"
  have "\<exists>w' evs. for_each ?items (configure_new_run env tier0Config) ?s1 =
            (Inr (), (w', snd ?s1 @ evs)) \<and>
          calls_of evs = concat (map (calls_for_new_run tier0Config hlt) ?items)"
    by (rule for_each_calls) (rule configure_new_run_calls[OF hlt])
  then obtain w' evs where
    loop: "for_each ?items (configure_new_run env tier0Config) ?s1 = (Inr (), (w', snd ?s1 @ evs))"
    and calls: "calls_of evs = concat (map (calls_for_new_run tier0Config hlt) ?items)"
    by blast
  have run: "configure_new_runs env tier0Config (w, []) =
               (Inr (), (w', Returned (FeederCall FindNewRuns) # evs))"
    using find loop by (simp add: configure_new_runs_def bind_def call_def)
  have c: "calls_of (trace_of (configure_new_runs env tier0Config) (w, [])) =
       FeederCall FindNewRuns # concat (map (calls_for_new_run tier0Config hlt) ?items)"
    using run calls by (simp add: trace_of_def)
  have r: "configured_runs (trace_of (configure_new_runs env tier0Config) (w, [])) =
       map fst (filter (\<lambda>item. configurable hlt (snd item)) ?items)"
    by (rule configured_runs_of_calls[OF c refl])
  have s: "sorted (map fst (filter (\<lambda>item. configurable hlt (snd item)) ?items))"
    by (rule sorted_filter) (rule sorted_sort_key)
  have m: "run \<in> set (map fst (filter (\<lambda>item. configurable hlt (snd item)) ?items)) \<longleftrightarrow>
        (\<exists>key. (run, key) \<in> set runHltkeys \<and> configurable hlt key)"
    by (auto simp: image_iff)
  from run c r s m show ?thesis by (simp add: result_of_def)
qed

text \<open>
  Seven runs, found out of order: the key of 100 is unknown, the configurations of 104
  and 105 are rejected, configuring 101 raises, and the process of 106 is the empty
  string, which the source does not reject.
\<close>

theorem new_runs_configured_unless_hlt_invalid_witness:
  "findNewRuns (Tier0Feeder env_new_runs) () =
     (Inr [(103, Some ''/cdaq/physics''), (100, Some ''/cdaq/missing''), (102, None),
           (106, Some ''/cdaq/blank''), (101, Some ''/cdaq/physics''),
           (104, Some ''/cdaq/empty''), (105, Some ''/cdaq/noprocess'')], ()) \<and>
   configureRun (RunConfigAPI env_new_runs) (Configuration ''cfg'') 101
     (Some \<lparr>process = Some ''HLT'', mapping = [(''A'', [])]\<rparr>) () =
     (Inl (ExternalError ''configureRun''), ()) \<and>
   result_of (configure_new_runs env_new_runs (Configuration ''cfg'')) ((), []) = Inr () \<and>
   configured_runs (trace_of (configure_new_runs env_new_runs (Configuration ''cfg'')) ((), [])) =
     [101, 102, 103, 106]"
proof -
  have f: "findNewRuns (Tier0Feeder env_new_runs) () =
     (Inr [(103, Some ''/cdaq/physics''), (100, Some ''/cdaq/missing''), (102, None),
           (106, Some ''/cdaq/blank''), (101, Some ''/cdaq/physics''),
           (104, Some ''/cdaq/empty''), (105, Some ''/cdaq/noprocess'')], ())"
    by (simp add: env_new_runs_def quiet_env_def returns_value_def)
  have h: "\<forall>k w. fst (getHLTConfig (Services env_new_runs) k w) = hlt_answers k"
    by (simp add: env_new_runs_def quiet_env_def)
  have c: "configureRun (RunConfigAPI env_new_runs) (Configuration ''cfg'') 101
     (Some \<lparr>process = Some ''HLT'', mapping = [(''A'', [])]\<rparr>) () =
     (Inl (ExternalError ''configureRun''), ())"
    by (simp add: env_new_runs_def quiet_env_def raises_def)
  note t = new_runs_configured_unless_hlt_invalid [OF f h, of "Configuration ''cfg''"]
  from t have r: "result_of (configure_new_runs env_new_runs (Configuration ''cfg'')) ((), []) = Inr ()"
    by blast
  from t have "configured_runs (trace_of (configure_new_runs env_new_runs (Configuration ''cfg''))
                 ((), [])) =
       map fst (filter (\<lambda>item. configurable hlt_answers (snd item))
         (sort_key fst [(103, Some ''/cdaq/physics''), (100, Some ''/cdaq/missing''), (102, None),
           (106, Some ''/cdaq/blank''), (101, Some ''/cdaq/physics''),
           (104, Some ''/cdaq/empty''), (105, Some ''/cdaq/noprocess'')]))"
    by blast
  also have "\<dots> = [101, 102, 103, 106]"
    by (simp add: configurable_def hlt_answers_def invalid_hlt_config_def)
  finally show ?thesis using f c r by blast
qed

subsection \<open>The phases after the configuration of new runs and run/streams\<close>

lemma steadyI:
  assumes "\<And>w tr tr'. \<exists>r w' evs. p (w, tr) = (r, (w', tr @ evs)) \<and>
         p (w, tr') = (r, (w', tr' @ evs)) \<and> list_all config_free evs"
  shows "steady p"
  using assms unfolding steady_def by blast

lemma steady_return: "steady (return x)"
  by (rule steadyI) (simp add: return_def)





lemma steady_bind:
  assumes m: "steady m" and k: "\<And>x. steady (k x)"
  shows "steady (bind m k)"
proof (rule steadyI)
  fix w tr tr'
  from m obtain r w1 evs1 where 1: "m (w, tr) = (r, (w1, tr @ evs1))"
    "m (w, tr') = (r, (w1, tr' @ evs1))" "list_all config_free evs1"
    unfolding steady_def by blast
  show "\<exists>r w' evs. bind m k (w, tr) = (r, (w', tr @ evs)) \<and>
         bind m k (w, tr') = (r, (w', tr' @ evs)) \<and> list_all config_free evs"
  proof (cases r)
    case (Inl e)
    with 1 show ?thesis by (simp add: bind_def)
  next
    case (Inr x)
    from k[of x] obtain r2 w2 evs2 where 2:
      "k x (w1, tr @ evs1) = (r2, (w2, (tr @ evs1) @ evs2))"
      "k x (w1, tr' @ evs1) = (r2, (w2, (tr' @ evs1) @ evs2))" "list_all config_free evs2"
      unfolding steady_def by blast
    show ?thesis
      apply (rule exI[of _ r2], rule exI[of _ w2], rule exI[of _ "evs1 @ evs2"])
      using Inr 1 2 by (simp add: bind_def)
  qed
qed


lemma steady_seq:
  assumes "\<And>p. p \<in> set ps \<Longrightarrow> steady p"
  shows "steady (seq ps)"
  using assms by (induction ps) (auto intro: steady_return steady_bind)



























lemma until_release_none:
  assumes "list_all (\<lambda>c. phase_of c \<noteq> PromptRecoRelease) xs"
  shows "until_release xs = xs"
  using assms by (induction xs) simp_all











subsection \<open>Claim C6\<close>




end
